theory Spec2Isabelle
  imports Complex_Main "HOL-Library.Sublist"
begin

section \<open>Python values shared by the hooks\<close>

text \<open>
  Every hook starts with \<^verbatim>\<open>input_data = json.load(sys.stdin)\<close>. The parsed document is a
  value of \<open>json\<close>; an object is the association list of its keys in insertion order
  (after parsing the keys are pairwise different). Numbers are integers; a string is the
  list of its code points, all below 256.
\<close>

datatype json =
    JNull
  | JBool bool
  | JNum int
  | JStr string
  | JArr "json list"
  | JObj "(string \<times> json) list"

datatype py_exc =
    JSONDecodeError
  | AttributeError
  | TypeError
  | KeyError
  | IndexError
  | OperationalError
  | IntegrityError
  | ProgrammingError
  | OverflowError
  | OSError

text \<open>
  A finished process: \<open>Raised e\<close> is an uncaught exception (the interpreter prints the
  traceback and leaves with status 1), \<open>Exit n x\<close> is \<^verbatim>\<open>sys.exit(n)\<close> (or falling off the
  end of the script, \<open>n = 0\<close>) after the effects \<open>x\<close>.
\<close>

datatype 'a run = Raised py_exc | Exit nat 'a

fun exit_status :: "'a run \<Rightarrow> nat" where
  "exit_status (Raised e) = 1"
| "exit_status (Exit n x) = n"

text \<open>\<^verbatim>\<open>d.get(key, default)\<close>: only a dict has the method.\<close>

fun py_get :: "json \<Rightarrow> string \<Rightarrow> json \<Rightarrow> py_exc + json" where
  "py_get (JObj kvs) k d = Inr (case map_of kvs k of None \<Rightarrow> d | Some v \<Rightarrow> v)"
| "py_get _ k d = Inl AttributeError"

section \<open>Strings and regular expressions\<close>

text \<open>\<^verbatim>\<open>sub in s\<close> on two strings.\<close>

fun str_contains :: "string \<Rightarrow> string \<Rightarrow> bool" where
  "str_contains sub [] = (sub = [])"
| "str_contains sub (c # cs) = (prefix sub (c # cs) \<or> str_contains sub cs)"

text \<open>
  \<^verbatim>\<open>s.replace(old, new)\<close>: the occurrences of \<open>old\<close> are found from left to right without
  overlap; an empty \<open>old\<close> matches before every character and at the end.
\<close>

function str_replace :: "string \<Rightarrow> string \<Rightarrow> string \<Rightarrow> string" where
  "str_replace old new s =
     (if old = [] then new @ concat (map (\<lambda>c. c # new) s)
      else if prefix old s then new @ str_replace old new (drop (length old) s)
      else (case s of [] \<Rightarrow> [] | c # cs \<Rightarrow> c # str_replace old new cs))"
  by pat_completeness auto
termination
  by (relation "measure (\<lambda>(old, new, s). length s)") (auto simp: prefix_def)

declare str_replace.simps [simp del]

text \<open>
  The character classes of \<^verbatim>\<open>re\<close> on \<^verbatim>\<open>str\<close> patterns, for code points below 256:
  \<^verbatim>\<open>\w\<close> is an alphanumeric character or the underscore, \<^verbatim>\<open>\s\<close> a whitespace character.
\<close>

definition is_word :: "char \<Rightarrow> bool" where
  "is_word c =
     (let n = (of_char c :: nat) in
        (48 \<le> n \<and> n \<le> 57) \<or> (65 \<le> n \<and> n \<le> 90) \<or> n = 95 \<or> (97 \<le> n \<and> n \<le> 122)
        \<or> n = 170 \<or> n = 178 \<or> n = 179 \<or> n = 181 \<or> n = 185 \<or> n = 186
        \<or> (188 \<le> n \<and> n \<le> 190) \<or> (192 \<le> n \<and> n \<le> 214)
        \<or> (216 \<le> n \<and> n \<le> 246) \<or> 248 \<le> n)"

definition is_space :: "char \<Rightarrow> bool" where
  "is_space c =
     (let n = (of_char c :: nat) in
        (9 \<le> n \<and> n \<le> 13) \<or> (28 \<le> n \<and> n \<le> 32) \<or> n = 133 \<or> n = 160)"

datatype cls = Space | Dot

fun in_cls :: "cls \<Rightarrow> char \<Rightarrow> bool" where
  "in_cls Space c = is_space c"
| "in_cls Dot c = (c \<noteq> CHR 0x0A)"

text \<open>
  The fragment of the pattern language the hooks use: a literal, \<^verbatim>\<open>\s+\<close> and \<^verbatim>\<open>.*\<close>
  (greedy repetition of a class), \<^verbatim>\<open>\b\<close>, \<^verbatim>\<open>$\<close>, a negative lookahead \<^verbatim>\<open>(?!r)\<close>,
  alternation and sequence.
\<close>

datatype rx =
    Lit string
  | Plus cls
  | Star cls
  | WordB
  | Eos
  | NotAhead rx
  | Alt rx rx
  | Seq rx rx

text \<open>
  A position in the subject is the character before it (if any) and the rest of the
  subject. \<open>rmatch r prev s\<close> lists the positions at which a match of \<open>r\<close> starting here can
  end, in the order in which the backtracking matcher tries them.
\<close>

fun word_opt :: "char option \<Rightarrow> bool" where
  "word_opt None = False"
| "word_opt (Some c) = is_word c"

fun next_char :: "string \<Rightarrow> char option" where
  "next_char [] = None"
| "next_char (c # cs) = Some c"

fun star_ends :: "cls \<Rightarrow> char option \<Rightarrow> string \<Rightarrow> (char option \<times> string) list" where
  "star_ends k prev [] = [(prev, [])]"
| "star_ends k prev (c # cs) =
     (if in_cls k c then star_ends k (Some c) cs else []) @ [(prev, c # cs)]"

fun rmatch :: "rx \<Rightarrow> char option \<Rightarrow> string \<Rightarrow> (char option \<times> string) list" where
  "rmatch (Lit w) prev s =
     (if prefix w s then [(if w = [] then prev else Some (last w), drop (length w) s)] else [])"
| "rmatch (Plus k) prev s =
     (case s of [] \<Rightarrow> [] | c # cs \<Rightarrow> if in_cls k c then star_ends k (Some c) cs else [])"
| "rmatch (Star k) prev s = star_ends k prev s"
| "rmatch WordB prev s = (if word_opt prev \<noteq> word_opt (next_char s) then [(prev, s)] else [])"
| "rmatch Eos prev s = (if s = [] \<or> s = [CHR 0x0A] then [(prev, s)] else [])"
| "rmatch (NotAhead r) prev s = (if rmatch r prev s = [] then [(prev, s)] else [])"
| "rmatch (Alt a b) prev s = rmatch a prev s @ rmatch b prev s"
| "rmatch (Seq a b) prev s = concat (map (\<lambda>(p, t). rmatch b p t) (rmatch a prev s))"

text \<open>\<^verbatim>\<open>re.search(r, s)\<close> as a truth value: the first start position with a match.\<close>

fun search_from :: "rx \<Rightarrow> char option \<Rightarrow> string \<Rightarrow> bool" where
  "search_from r prev [] = (rmatch r prev [] \<noteq> [])"
| "search_from r prev (c # cs) = (rmatch r prev (c # cs) \<noteq> [] \<or> search_from r (Some c) cs)"

definition re_search :: "rx \<Rightarrow> string \<Rightarrow> bool" where
  "re_search r s = search_from r None s"

text \<open>
  \<^verbatim>\<open>re.sub(r, repl, s)\<close> for a replacement without group references: the leftmost match
  is replaced and the scan goes on where it ended; an empty match is replaced too and
  the scan steps over one character.
\<close>

function sub_from :: "rx \<Rightarrow> string \<Rightarrow> char option \<Rightarrow> string \<Rightarrow> string" where
  "sub_from r repl prev s =
     (case rmatch r prev s of
        [] \<Rightarrow> (case s of [] \<Rightarrow> [] | c # cs \<Rightarrow> c # sub_from r repl (Some c) cs)
      | (p, t) # _ \<Rightarrow>
          if length t < length s then repl @ sub_from r repl p t
          else repl @ (case s of [] \<Rightarrow> [] | c # cs \<Rightarrow> c # sub_from r repl (Some c) cs))"
  by pat_completeness auto
termination
  by (relation "measure (\<lambda>(r, repl, prev, s). length s)") auto

declare sub_from.simps [simp del]

definition re_sub :: "rx \<Rightarrow> string \<Rightarrow> string \<Rightarrow> string" where
  "re_sub r repl s = sub_from r repl None s"

section \<open>Command rewriters\<close>

text \<open>The response a rewriter prints: the event name, the decision, the new command.\<close>

definition rewrite_response :: "string \<Rightarrow> json" where
  "rewrite_response new_command =
     JObj [(''hookSpecificOutput'',
            JObj [(''hookEventName'', JStr ''PreToolUse''),
                  (''permissionDecision'', JStr ''allow''),
                  (''updatedInput'', JObj [(''command'', JStr new_command)])])]"

subsection \<open>npm-to-pnpm.py\<close>

fun seqs :: "rx list \<Rightarrow> rx" where
  "seqs [] = Lit []"
| "seqs [r] = r"
| "seqs (r # rs) = Seq r (seqs rs)"

text \<open>The nine patterns, in the order of the script.\<close>

definition rx_install_arg :: rx where
  "rx_install_arg =
     seqs [WordB, Lit ''npm'', Plus Space, Lit ''install'', Plus Space,
           NotAhead Eos, NotAhead (Lit ''-'')]"

definition rx_i_arg :: rx where
  "rx_i_arg =
     seqs [WordB, Lit ''npm'', Plus Space, Lit ''i'', Plus Space,
           NotAhead Eos, NotAhead (Lit ''-'')]"

definition rx_install_g :: rx where
  "rx_install_g =
     seqs [WordB, Lit ''npm'', Plus Space, Lit ''install'', Plus Space, Lit ''-g'', WordB]"

definition rx_i_g :: rx where
  "rx_i_g = seqs [WordB, Lit ''npm'', Plus Space, Lit ''i'', Plus Space, Lit ''-g'', WordB]"

definition rx_uninstall :: rx where
  "rx_uninstall = seqs [WordB, Lit ''npm'', Plus Space, Lit ''uninstall'', WordB]"

definition rx_un :: rx where
  "rx_un = seqs [WordB, Lit ''npm'', Plus Space, Lit ''un'', WordB]"

definition rx_install_bare :: rx where
  "rx_install_bare = seqs [WordB, Lit ''npm'', Plus Space, Lit ''install'', Star Space, Eos]"

definition rx_i_bare :: rx where
  "rx_i_bare = seqs [WordB, Lit ''npm'', Plus Space, Lit ''i'', Star Space, Eos]"

definition rx_npm :: rx where
  "rx_npm = seqs [WordB, Lit ''npm'', WordB]"

text \<open>The special cases, applied one after the other before the generic rule.\<close>

definition npm_special_cases :: "string \<Rightarrow> string" where
  "npm_special_cases command =
     (let new_command = command;
          new_command = re_sub rx_install_arg ''pnpm add '' new_command;
          new_command = re_sub rx_i_arg ''pnpm add '' new_command;
          new_command = re_sub rx_install_g ''pnpm add -g'' new_command;
          new_command = re_sub rx_i_g ''pnpm add -g'' new_command;
          new_command = re_sub rx_uninstall ''pnpm remove'' new_command;
          new_command = re_sub rx_un ''pnpm remove'' new_command;
          new_command = re_sub rx_install_bare ''pnpm install'' new_command;
          new_command = re_sub rx_i_bare ''pnpm install'' new_command
      in new_command)"

definition npm_rewrite :: "string \<Rightarrow> string" where
  "npm_rewrite command = re_sub rx_npm ''pnpm'' (npm_special_cases command)"

text \<open>
  The script: \<open>None\<close> on standard input is a text that is not JSON. The result is what
  the script prints on standard output, if anything.
\<close>

definition npm_to_pnpm :: "json option \<Rightarrow> json option run" where
  "npm_to_pnpm stdin =
     (case stdin of
        None \<Rightarrow> Raised JSONDecodeError
      | Some input_data \<Rightarrow>
          (case py_get input_data ''tool_name'' JNull of
             Inl e \<Rightarrow> Raised e
           | Inr tool_name \<Rightarrow>
               if tool_name \<noteq> JStr ''Bash'' then Exit 0 None
               else
                 (case py_get input_data ''tool_input'' (JObj []) of
                    Inl e \<Rightarrow> Raised e
                  | Inr tool_input \<Rightarrow>
                      (case py_get tool_input ''command'' (JStr []) of
                         Inl e \<Rightarrow> Raised e
                       | Inr (JStr command) \<Rightarrow>
                           if \<not> re_search rx_npm command then Exit 0 None
                           else Exit 0 (Some (rewrite_response (npm_rewrite command)))
                       | Inr _ \<Rightarrow> Raised TypeError))))"

subsection \<open>grep-to-rg.py\<close>

text \<open>
  \<^verbatim>\<open>"grep" in command\<close> is a substring test on a string, a membership test on a list and
  a key test on a dict; other values are not iterable. Only a string has \<^verbatim>\<open>replace\<close>.
\<close>

definition grep_to_rg :: "json option \<Rightarrow> json option run" where
  "grep_to_rg stdin =
     (case stdin of
        None \<Rightarrow> Raised JSONDecodeError
      | Some input_data \<Rightarrow>
          (case py_get input_data ''tool_name'' JNull of
             Inl e \<Rightarrow> Raised e
           | Inr tool_name \<Rightarrow>
               if tool_name \<noteq> JStr ''Bash'' then Exit 0 None
               else
                 (case py_get input_data ''tool_input'' (JObj []) of
                    Inl e \<Rightarrow> Raised e
                  | Inr tool_input \<Rightarrow>
                      (case py_get tool_input ''command'' (JStr []) of
                         Inl e \<Rightarrow> Raised e
                       | Inr (JStr command) \<Rightarrow>
                           if str_contains ''grep'' command
                           then Exit 0 (Some (rewrite_response (str_replace ''grep'' ''rg'' command)))
                           else Exit 0 None
                       | Inr (JArr xs) \<Rightarrow>
                           if JStr ''grep'' \<in> set xs then Raised AttributeError else Exit 0 None
                       | Inr (JObj kvs) \<Rightarrow>
                           if ''grep'' \<in> set (map fst kvs) then Raised AttributeError
                           else Exit 0 None
                       | Inr _ \<Rightarrow> Raised TypeError))))"

text \<open>What a run printed on standard output (nothing when it raised).\<close>

fun stdout_of :: "json option run \<Rightarrow> json option" where
  "stdout_of (Raised e) = None"
| "stdout_of (Exit n out) = out"

text \<open>\<^verbatim>\<open>sep.join(xs)\<close>.\<close>

fun str_join :: "string \<Rightarrow> string list \<Rightarrow> string" where
  "str_join sep [] = []"
| "str_join sep [x] = x"
| "str_join sep (x # y # ys) = x @ sep @ str_join sep (y # ys)"

subsection \<open>Vocabulary of the rewriter properties\<close>

text \<open>
  The command of a shell invocation: the input is an object whose \<open>tool_name\<close> is
  \<open>Bash\<close> and whose \<open>tool_input\<close> (an object, empty when absent) holds the string
  \<open>command\<close> (empty when absent).
\<close>

definition bash_command :: "json option \<Rightarrow> string option" where
  "bash_command stdin =
     (case stdin of
        Some (JObj kvs) \<Rightarrow>
          if map_of kvs ''tool_name'' = Some (JStr ''Bash'') then
            (case map_of kvs ''tool_input'' of
               None \<Rightarrow> Some []
             | Some (JObj ti) \<Rightarrow>
                 (case map_of ti ''command'' of
                    None \<Rightarrow> Some []
                  | Some (JStr c) \<Rightarrow> Some c
                  | Some _ \<Rightarrow> None)
             | Some _ \<Rightarrow> None)
          else None
      | _ \<Rightarrow> None)"

text \<open>The input the host builds from a shell invocation of \<open>command\<close>.\<close>

definition bash_input :: "string \<Rightarrow> json option" where
  "bash_input command =
     Some (JObj [(''tool_name'', JStr ''Bash''), (''tool_input'', JObj [(''command'', JStr command)])])"

text \<open>The number of positions of \<open>s\<close> at which \<open>sub\<close> occurs.\<close>

fun count_occurrences :: "string \<Rightarrow> string \<Rightarrow> nat" where
  "count_occurrences sub [] = (if sub = [] then 1 else 0)"
| "count_occurrences sub (c # cs) =
     (if prefix sub (c # cs) then 1 else 0) + count_occurrences sub cs"

text \<open>
  \<^verbatim>\<open>s.split(sep)\<close> for a non-empty separator: the pieces between the occurrences of
  \<open>sep\<close>, found from left to right without overlap. (An empty separator is a ValueError;
  the scripts split on a comma only.)
\<close>

function str_split :: "string \<Rightarrow> string \<Rightarrow> string list" where
  "str_split sep s =
     (if sep = [] then []
      else if prefix sep s then [] # str_split sep (drop (length sep) s)
      else (case s of
              [] \<Rightarrow> [[]]
            | c # cs \<Rightarrow> (case str_split sep cs of [] \<Rightarrow> [[c]] | x # xs \<Rightarrow> (c # x) # xs)))"
  by pat_completeness auto
termination
  by (relation "measure (\<lambda>(sep, s). length s)") (auto simp: prefix_def)

declare str_split.simps [simp del]

text \<open>\<open>npm_here prev s\<close>: the word-bounded token \<open>npm\<close> starts at this position.\<close>

definition npm_here :: "char option \<Rightarrow> string \<Rightarrow> bool" where
  "npm_here prev s = (\<not> word_opt prev \<and> (\<exists>t. s = ''npm'' @ t \<and> \<not> word_opt (next_char t)))"

section \<open>test-runner.py\<close>

text \<open>\<^verbatim>\<open>s.strip()\<close>: whitespace is removed at both ends.\<close>

definition str_strip :: "string \<Rightarrow> string" where
  "str_strip s = rev (dropWhile is_space (rev (dropWhile is_space s)))"

text \<open>\<^verbatim>\<open>[p.strip() for p in file_paths_str.split(",") if p.strip()]\<close>\<close>

definition parse_file_paths :: "string \<Rightarrow> string list" where
  "parse_file_paths file_paths_str =
     map str_strip (filter (\<lambda>p. str_strip p \<noteq> []) (str_split '','' file_paths_str))"

text \<open>The dict \<^verbatim>\<open>TEST_PATTERNS\<close>, in the order in which it is written and iterated.\<close>

definition rx_js_ext :: rx where
  "rx_js_ext = Alt (Lit ''js'') (Alt (Lit ''ts'') (Alt (Lit ''jsx'') (Lit ''tsx'')))"

definition TEST_PATTERNS :: "(string \<times> rx list) list" where
  "TEST_PATTERNS =
     [(''python'', [seqs [Lit ''test_'', Star Dot, Lit ''.py'', Eos],
                    seqs [Star Dot, Lit ''_test.py'', Eos]]),
      (''javascript'', [seqs [Star Dot, Lit ''.test.'', rx_js_ext, Eos],
                        seqs [Star Dot, Lit ''.spec.'', rx_js_ext, Eos]]),
      (''go'', [seqs [Star Dot, Lit ''_test.go'', Eos]]),
      (''rust'', [seqs [Lit ''tests/'', Star Dot, Lit ''.rs'', Eos]])]"

text \<open>
  \<^verbatim>\<open>is_test_file\<close>: the two nested loops return at the first pattern that is found in
  the path; the result is the pair \<^verbatim>\<open>(True, language)\<close> or \<^verbatim>\<open>(False, None)\<close>.
\<close>

fun test_language :: "(string \<times> rx list) list \<Rightarrow> string \<Rightarrow> bool \<times> string option" where
  "test_language [] file_path = (False, None)"
| "test_language ((language, patterns) # rest) file_path =
     (if list_ex (\<lambda>pattern. re_search pattern file_path) patterns then (True, Some language)
      else test_language rest file_path)"

definition is_test_file :: "string \<Rightarrow> bool \<times> string option" where
  "is_test_file file_path = test_language TEST_PATTERNS file_path"

text \<open>\<^verbatim>\<open>os.path.join(a, b)\<close> for a relative \<open>b\<close>.\<close>

definition path_join :: "string \<Rightarrow> string \<Rightarrow> string" where
  "path_join a b = (if a = [] \<or> last a = CHR ''/'' then a @ b else a @ ''/'' @ b)"

text \<open>
  \<^verbatim>\<open>detect_test_framework\<close>; \<open>path_exists\<close> is \<^verbatim>\<open>os.path.exists\<close>. For JavaScript the
  script reads \<^verbatim>\<open>package.json\<close> inside a \<^verbatim>\<open>try\<close> whose handler passes, and returns
  \<^verbatim>\<open>'npm test'\<close> on every path.
\<close>

definition detect_test_framework :: "(string \<Rightarrow> bool) \<Rightarrow> string option \<Rightarrow> string \<Rightarrow> string option" where
  "detect_test_framework path_exists language project_dir =
     (if language = Some ''python'' then
        (if path_exists (path_join project_dir ''pytest.ini'')
            \<or> path_exists (path_join project_dir ''pyproject.toml'')
         then Some ''pytest'' else Some ''python -m unittest'')
      else if language = Some ''javascript'' then Some ''npm test''
      else if language = Some ''go'' then Some ''go test''
      else if language = Some ''rust'' then Some ''cargo test''
      else None)"

text \<open>
  The scope decision of \<^verbatim>\<open>run_tests\<close>: the command line handed to the shell.
  \<^verbatim>\<open>test_files[0]\<close> raises on an empty list.
\<close>

definition full_suite :: "string \<Rightarrow> string \<Rightarrow> string" where
  "full_suite test_command project_dir = ''cd '' @ project_dir @ '' && '' @ test_command"

definition test_cmd :: "string \<Rightarrow> string list \<Rightarrow> string \<Rightarrow> py_exc + string" where
  "test_cmd test_command test_files project_dir =
     (if length test_files \<le> 3 then
        (if str_contains ''pytest'' test_command then
           Inr (''cd '' @ project_dir @ '' && pytest '' @ str_join '' '' test_files @ '' -v'')
         else if str_contains ''npm test'' test_command then
           (case test_files of
              [] \<Rightarrow> Inl IndexError
            | f # _ \<Rightarrow>
                Inr (''cd '' @ project_dir @ '' && npm test -- --testPathPattern=''
                       @ [CHR 0x22] @ f @ [CHR 0x22]))
         else if str_contains ''go test'' test_command then
           Inr (''cd '' @ project_dir @ '' && go test -v '' @ str_join '' '' test_files)
         else if str_contains ''cargo test'' test_command then
           Inr (''cd '' @ project_dir @ '' && cargo test'')
         else Inr (''cd '' @ project_dir @ '' && '' @ test_command))
      else Inr (''cd '' @ project_dir @ '' && '' @ test_command))"

text \<open>
  What \<^verbatim>\<open>subprocess.run\<close> does with a command line: it completes with a return code and
  the captured output, runs into the timeout of 120 seconds, or raises something else.
\<close>

datatype proc_result = Completed int string | TimeoutExpired | ProcFailed

text \<open>
  The messages on the error stream, by kind (the lines that quote the captured output
  are not kept apart).
\<close>

datatype diag = Running string | AllPassed | SomeFailed | TimedOut | RunError | NoFramework

text \<open>What the script writes after the shell has answered.\<close>

definition report :: "proc_result \<Rightarrow> diag" where
  "report res =
     (case res of
        Completed returncode output \<Rightarrow> if returncode = 0 then AllPassed else SomeFailed
      | TimeoutExpired \<Rightarrow> TimedOut
      | ProcFailed \<Rightarrow> RunError)"

record effects =
  executed :: "string list"
  diags :: "diag list"

definition no_effect :: effects where
  "no_effect = \<lparr>executed = [], diags = []\<rparr>"

definition run_tests :: "(string \<Rightarrow> proc_result) \<Rightarrow> string \<Rightarrow> string list \<Rightarrow> string \<Rightarrow> py_exc + effects" where
  "run_tests shell test_command test_files project_dir =
     (case test_cmd test_command test_files project_dir of
        Inl e \<Rightarrow> Inl e
      | Inr cmd \<Rightarrow>
          Inr \<lparr>executed = [cmd],
               diags = [Running test_command, report (shell cmd)]\<rparr>)"

text \<open>The loop over the touched files, with its two variables.\<close>

fun classify :: "(string \<Rightarrow> bool) \<Rightarrow> string list \<Rightarrow> string list \<times> string option
    \<Rightarrow> string list \<times> string option" where
  "classify isfile [] (test_files, language) = (test_files, language)"
| "classify isfile (file_path # rest) (test_files, language) =
     (if file_path \<noteq> [] \<and> isfile file_path then
        (case is_test_file file_path of
           (True, detected_lang) \<Rightarrow>
             classify isfile rest
               (test_files @ [file_path], if language = None then detected_lang else language)
         | (False, _) \<Rightarrow> classify isfile rest (test_files, language))
      else classify isfile rest (test_files, language))"

text \<open>
  What the script reads besides its input: two environment variables, the working
  directory, the file system and the shell.
\<close>

record runner_env =
  CLAUDE_FILE_PATHS :: "string option"
  CLAUDE_PROJECT_DIR :: "string option"
  getcwd :: string
  isfile :: "string \<Rightarrow> bool"
  path_exists :: "string \<Rightarrow> bool"
  shell :: "string \<Rightarrow> proc_result"

definition test_runner :: "runner_env \<Rightarrow> json option \<Rightarrow> effects run" where
  "test_runner env stdin =
     (case stdin of
        None \<Rightarrow> Raised JSONDecodeError
      | Some input_data \<Rightarrow>
          (case py_get input_data ''tool_name'' (JStr []) of
             Inl e \<Rightarrow> Raised e
           | Inr tool_name \<Rightarrow>
               if tool_name \<noteq> JStr ''Edit'' \<and> tool_name \<noteq> JStr ''Write'' then Exit 0 no_effect
               else
                 let file_paths_str = (case CLAUDE_FILE_PATHS env of None \<Rightarrow> [] | Some v \<Rightarrow> v)
                 in if file_paths_str = [] then Exit 0 no_effect
                 else
                   let file_paths = parse_file_paths file_paths_str;
                       (test_files, language) = classify (isfile env) file_paths ([], None)
                   in if test_files = [] then Exit 0 no_effect
                   else
                     let project_dir =
                           (case CLAUDE_PROJECT_DIR env of None \<Rightarrow> getcwd env | Some v \<Rightarrow> v)
                     in (case detect_test_framework (path_exists env) language project_dir of
                           None \<Rightarrow> Exit 0 \<lparr>executed = [], diags = [NoFramework]\<rparr>
                         | Some test_command \<Rightarrow>
                             if test_command = [] then Exit 0 \<lparr>executed = [], diags = [NoFramework]\<rparr>
                             else
                               (case run_tests (shell env) test_command test_files project_dir of
                                  Inl e \<Rightarrow> Raised e
                                | Inr eff \<Rightarrow> Exit 0 eff))))"

text \<open>The command lines a run handed to the shell.\<close>

fun executed_by :: "effects run \<Rightarrow> string list" where
  "executed_by (Raised e) = []"
| "executed_by (Exit n eff) = executed eff"

text \<open>The touched files that exist and are classified as test files.\<close>

definition classified :: "(string \<Rightarrow> bool) \<Rightarrow> string list \<Rightarrow> string list" where
  "classified isf file_paths =
     filter (\<lambda>p. p \<noteq> [] \<and> isf p \<and> fst (is_test_file p)) file_paths"

text \<open>The values \<^verbatim>\<open>detect_test_framework\<close> can return.\<close>

definition frameworks :: "string set" where
  "frameworks = {''pytest'', ''python -m unittest'', ''npm test'', ''go test'', ''cargo test''}"

definition languages :: "string option set" where
  "languages = {Some ''python'', Some ''javascript'', Some ''go'', Some ''rust''}"

text \<open>
  A sample environment: every touched file exists, the project directory is \<open>/proj\<close>,
  exactly the listed marker files exist there, and the test command succeeds.
\<close>

definition sample_env :: "string \<Rightarrow> string list \<Rightarrow> runner_env" where
  "sample_env fps markers =
     \<lparr>CLAUDE_FILE_PATHS = Some fps, CLAUDE_PROJECT_DIR = Some ''/proj'', getcwd = ''/'',
      isfile = (\<lambda>p. True), path_exists = (\<lambda>p. p \<in> set markers),
      shell = (\<lambda>cmd. Completed 0 [])\<rparr>"

definition edit_input :: json where
  "edit_input = JObj [(''tool_name'', JStr ''Edit'')]"

section \<open>SQLite values\<close>

text \<open>
  The values \<^verbatim>\<open>sqlite3\<close> binds to a statement: \<^verbatim>\<open>None\<close>, an integer (a Python bool is
  one) or a string. An integer outside the signed 64-bit range raises
  \<^verbatim>\<open>OverflowError\<close>; a list or a dict is refused with \<^verbatim>\<open>ProgrammingError\<close>
  (\<^verbatim>\<open>InterfaceError\<close> before Python 3.11). A column declared \<^verbatim>\<open>TEXT\<close> stores an
  integer as its decimal text.
\<close>

datatype sql_value = Null | Integer int | Text string

fun bind :: "json \<Rightarrow> py_exc + sql_value" where
  "bind JNull = Inr Null"
| "bind (JBool b) = Inr (Integer (if b then 1 else 0))"
| "bind (JNum n) =
     (if - (2 ^ 63) \<le> n \<and> n < 2 ^ 63 then Inr (Integer n) else Inl OverflowError)"
| "bind (JStr s) = Inr (Text s)"
| "bind (JArr xs) = Inl ProgrammingError"
| "bind (JObj kvs) = Inl ProgrammingError"

definition digit_char :: "nat \<Rightarrow> char" where
  "digit_char d = char_of (48 + d)"

function digits :: "nat \<Rightarrow> string" where
  "digits n = (if n < 10 then [digit_char n] else digits (n div 10) @ [digit_char (n mod 10)])"
  by pat_completeness auto
termination
  by (relation "measure id") auto

declare digits.simps [simp del]

definition show_int :: "int \<Rightarrow> string" where
  "show_int i = (if i < 0 then ''-'' @ digits (nat (- i)) else digits (nat i))"

fun text_column :: "sql_value \<Rightarrow> string option" where
  "text_column Null = None"
| "text_column (Integer i) = Some (show_int i)"
| "text_column (Text s) = Some s"

text \<open>
  \<^verbatim>\<open>julianday\<close> and the arithmetic on its results are computed in IEEE binary64.
  \<open>binary64 x\<close> is the double nearest to the rational \<open>x\<close>, ties to the even
  significand (within the range of normal numbers, which dates stay in).
\<close>

fun bitlen :: "nat \<Rightarrow> nat" where
  "bitlen n = (if n = 0 then 0 else Suc (bitlen (n div 2)))"

declare bitlen.simps [simp del]

definition floor_log2 :: "rat \<Rightarrow> int" where
  "floor_log2 x =
     (if 1 \<le> x then int (bitlen (nat \<lfloor>x\<rfloor>)) - 1
      else - int (bitlen (nat (\<lceil>1 / x\<rceil> - 1))))"

definition round_half_even :: "rat \<Rightarrow> int" where
  "round_half_even x =
     (let f = \<lfloor>x\<rfloor>; d = x - of_int f
      in if d < 1 / 2 then f else if 1 / 2 < d then f + 1 else if even f then f else f + 1)"

definition binary64 :: "rat \<Rightarrow> rat" where
  "binary64 x =
     (if x = 0 then 0
      else
        let a = \<bar>x\<bar>;
            u = 2 powi (floor_log2 a - 52);
            r = of_int (round_half_even (a / u)) * u
        in if 0 < x then r else - r)"

text \<open>
  A timestamp is the number of seconds since the origin of the Julian day count; the
  text \<^verbatim>\<open>CURRENT_TIMESTAMP\<close> stores (\<^verbatim>\<open>YYYY-MM-DD HH:MM:SS\<close>) is ordered as this number is.
  \<^verbatim>\<open>julianday\<close> divides the milliseconds by \<^verbatim>\<open>86400000.0\<close>.
\<close>

definition julianday :: "int \<Rightarrow> rat" where
  "julianday t = binary64 (of_int (t * 1000) / 86400000)"

text \<open>\<^verbatim>\<open>CAST(x AS INTEGER)\<close> drops the fraction.\<close>

definition cast_integer :: "rat \<Rightarrow> int" where
  "cast_integer x = (if 0 \<le> x then \<lfloor>x\<rfloor> else \<lceil>x\<rceil>)"

section \<open>command-tracker.py\<close>

record tool_call =
  tc_id :: nat
  tc_session_id :: string
  tc_timestamp :: int
  tc_tool_type :: string
  tc_file_path :: "string option"
  tc_command :: "string option"
  tc_pattern :: "string option"
  tc_description :: "string option"
  tc_params_json :: json
  tc_success :: int

text \<open>
  What a logger reads besides its input: the environment variables, the clock, whether
  the analytics directory can be made. A store is \<open>None\<close> when the database cannot be
  opened or written, and the rows of its table otherwise (no rows before the first use).
\<close>

record logger_env =
  CLAUDE_SESSION_ID :: "string option"
  CLAUDE_MODEL :: "string option"
  now :: int
  makedirs_ok :: bool

definition getenv :: "string option \<Rightarrow> string \<Rightarrow> string" where
  "getenv var fallback = (case var of None \<Rightarrow> fallback | Some v \<Rightarrow> v)"

definition next_id :: "nat list \<Rightarrow> nat" where
  "next_id ids = Suc (fold max ids 0)"

definition command_tracker ::
  "logger_env \<Rightarrow> json option \<Rightarrow> tool_call list option \<Rightarrow> tool_call list run" where
  "command_tracker env stdin db =
     (if \<not> makedirs_ok env then Raised OSError
      else case stdin of
        None \<Rightarrow> Raised JSONDecodeError
      | Some input_data \<Rightarrow>
          (case py_get input_data ''tool_name'' (JStr ''unknown'') of
             Inl e \<Rightarrow> Raised e
           | Inr tool_name \<Rightarrow>
          (case py_get input_data ''tool_input'' (JObj []) of
             Inl e \<Rightarrow> Raised e
           | Inr tool_input \<Rightarrow>
          let session_id = getenv (CLAUDE_SESSION_ID env) ''unknown'' in
          (case py_get tool_input ''file_path'' JNull of
             Inl e \<Rightarrow> Raised e
           | Inr file_path \<Rightarrow>
          (case py_get tool_input ''command'' JNull of
             Inl e \<Rightarrow> Raised e
           | Inr command \<Rightarrow>
          (case py_get tool_input ''pattern'' JNull of
             Inl e \<Rightarrow> Raised e
           | Inr pattern \<Rightarrow>
          (case py_get tool_input ''description'' JNull of
             Inl e \<Rightarrow> Raised e
           | Inr description \<Rightarrow>
          (case db of
             None \<Rightarrow> Raised OperationalError
           | Some rows \<Rightarrow>
          (case bind tool_name of Inl e \<Rightarrow> Raised e | Inr v_tool \<Rightarrow>
          (case bind file_path of Inl e \<Rightarrow> Raised e | Inr v_file \<Rightarrow>
          (case bind command of Inl e \<Rightarrow> Raised e | Inr v_command \<Rightarrow>
          (case bind pattern of Inl e \<Rightarrow> Raised e | Inr v_pattern \<Rightarrow>
          (case bind description of Inl e \<Rightarrow> Raised e | Inr v_description \<Rightarrow>
          (case text_column v_tool of
             None \<Rightarrow> Raised IntegrityError
           | Some tool_text \<Rightarrow>
               Exit 0 (rows @
                 [\<lparr>tc_id = next_id (map tc_id rows),
                   tc_session_id = session_id,
                   tc_timestamp = now env,
                   tc_tool_type = tool_text,
                   tc_file_path = text_column v_file,
                   tc_command = text_column v_command,
                   tc_pattern = text_column v_pattern,
                   tc_description = text_column v_description,
                   tc_params_json = tool_input,
                   tc_success = 1\<rparr>])))))))))))))))"

text \<open>The store after a run: a run that raised has committed nothing.\<close>

fun store_after :: "'a list \<Rightarrow> 'a list run \<Rightarrow> 'a list" where
  "store_after rows (Raised e) = rows"
| "store_after rows (Exit n rows') = rows'"

text \<open>A sequence of invocations of the logger on a store that can be written.\<close>

fun log_calls :: "(logger_env \<times> json option) list \<Rightarrow> tool_call list \<Rightarrow> tool_call list" where
  "log_calls [] rows = rows"
| "log_calls ((env, stdin) # calls) rows =
     log_calls calls (store_after rows (command_tracker env stdin (Some rows)))"

section \<open>session-tracker.py\<close>

record session =
  s_id :: string
  s_timestamp :: int
  s_duration_seconds :: int
  s_model :: string
  s_summary :: string
  s_tool_count :: int
  s_file_count :: int
  s_command_count :: int

text \<open>The four queries on the rows of the tool-call table.\<close>

definition count_calls :: "tool_call list \<Rightarrow> string \<Rightarrow> int" where
  "count_calls rows sid = int (length (filter (\<lambda>r. tc_session_id r = sid) rows))"

definition count_files :: "tool_call list \<Rightarrow> string \<Rightarrow> int" where
  "count_files rows sid =
     int (length (remdups (map tc_file_path
       (filter (\<lambda>r. tc_session_id r = sid \<and> tc_file_path r \<noteq> None) rows))))"

definition count_bash :: "tool_call list \<Rightarrow> string \<Rightarrow> int" where
  "count_bash rows sid =
     int (length (filter (\<lambda>r. tc_session_id r = sid \<and> tc_tool_type r = ''Bash'') rows))"

text \<open>
  \<^verbatim>\<open>CAST((julianday(MAX(timestamp)) - julianday(MIN(timestamp))) * 24 * 60 * 60 AS INTEGER)\<close>:
  \<^verbatim>\<open>NULL\<close> when the session has no row.
\<close>

definition span_query :: "tool_call list \<Rightarrow> string \<Rightarrow> int option" where
  "span_query rows sid =
     (case map tc_timestamp (filter (\<lambda>r. tc_session_id r = sid) rows) of
        [] \<Rightarrow> None
      | t # ts \<Rightarrow>
          Some (cast_integer
            (binary64 (binary64 (binary64
               (binary64 (julianday (fold max ts t) - julianday (fold min ts t)) * 24) * 60) * 60))))"

text \<open>
  The block under \<^verbatim>\<open>try\<close>. \<open>failure = Some k\<close>: the first \<open>k\<close> queries answer and the next
  statement raises (\<open>k = 0\<close>: the database cannot be opened, or has no such table);
  \<open>None\<close>: nothing raises. The handler prints a warning; the four variables keep what
  they held.
\<close>

record stats =
  st_tools :: int
  st_files :: int
  st_commands :: int
  st_duration :: int

definition answers :: "nat option \<Rightarrow> nat \<Rightarrow> bool" where
  "answers failure k = (case failure of None \<Rightarrow> True | Some n \<Rightarrow> k < n)"

definition read_stats :: "nat option \<Rightarrow> tool_call list \<Rightarrow> string \<Rightarrow> stats" where
  "read_stats failure rows sid =
     (let tool_count = 0; file_count = 0; command_count = 0; duration_seconds = 0 in
      if \<not> answers failure 0 then
        \<lparr>st_tools = tool_count, st_files = file_count, st_commands = command_count,
         st_duration = duration_seconds\<rparr>
      else let tool_count = count_calls rows sid in
      if \<not> answers failure 1 then
        \<lparr>st_tools = tool_count, st_files = file_count, st_commands = command_count,
         st_duration = duration_seconds\<rparr>
      else let file_count = count_files rows sid in
      if \<not> answers failure 2 then
        \<lparr>st_tools = tool_count, st_files = file_count, st_commands = command_count,
         st_duration = duration_seconds\<rparr>
      else let command_count = count_bash rows sid in
      if \<not> answers failure 3 then
        \<lparr>st_tools = tool_count, st_files = file_count, st_commands = command_count,
         st_duration = duration_seconds\<rparr>
      else let duration_seconds =
                 (case span_query rows sid of
                    None \<Rightarrow> 0
                  | Some d \<Rightarrow> if d \<noteq> 0 then d else 0)
      in \<lparr>st_tools = tool_count, st_files = file_count, st_commands = command_count,
          st_duration = duration_seconds\<rparr>)"

definition session_summary :: "stats \<Rightarrow> string" where
  "session_summary st =
     ''Session completed: '' @ show_int (st_tools st) @ '' tools, ''
       @ show_int (st_files st) @ '' files, '' @ show_int (st_commands st) @ '' commands''"

text \<open>\<^verbatim>\<open>INSERT OR REPLACE\<close> on the primary key: the row of that key goes, the new one comes.\<close>

definition insert_or_replace :: "session \<Rightarrow> session list \<Rightarrow> session list" where
  "insert_or_replace row rows = filter (\<lambda>r. s_id r \<noteq> s_id row) rows @ [row]"

definition session_tracker ::
  "logger_env \<Rightarrow> json option \<Rightarrow> nat option \<Rightarrow> tool_call list \<Rightarrow> session list option
     \<Rightarrow> session list run" where
  "session_tracker env stdin failure tool_rows db =
     (if \<not> makedirs_ok env then Raised OSError
      else case stdin of
        None \<Rightarrow> Raised JSONDecodeError
      | Some input_data \<Rightarrow>
          let session_id = getenv (CLAUDE_SESSION_ID env) ''unknown'';
              model = getenv (CLAUDE_MODEL env) ''unknown''
          in (case db of
                None \<Rightarrow> Raised OperationalError
              | Some rows \<Rightarrow>
                  let st = read_stats failure tool_rows session_id
                  in Exit 0 (insert_or_replace
                       \<lparr>s_id = session_id, s_timestamp = now env,
                        s_duration_seconds = st_duration st, s_model = model,
                        s_summary = session_summary st, s_tool_count = st_tools st,
                        s_file_count = st_files st, s_command_count = st_commands st\<rparr> rows)))"

subsection \<open>Vocabulary of the logger properties\<close>

text \<open>
  A scalar is a value that is neither a list nor an object. A storable value is a
  scalar that a statement of the store takes: \<open>null\<close>, a boolean, a string, or an
  integer of the signed 64-bit range.

  A well-formed input of the Tool-Call Logger: an object; \<open>tool_name\<close>, when present, a
  storable value other than \<open>null\<close>; \<open>tool_input\<close>, when present, an object; each of
  the four extracted fields, when present, a storable value.
\<close>

definition scalar :: "json \<Rightarrow> bool" where
  "scalar v = (case v of JArr xs \<Rightarrow> False | JObj kvs \<Rightarrow> False | _ \<Rightarrow> True)"

definition storable :: "json \<Rightarrow> bool" where
  "storable v =
     (case v of
        JArr xs \<Rightarrow> False
      | JObj kvs \<Rightarrow> False
      | JNum n \<Rightarrow> - (2 ^ 63) \<le> n \<and> n < 2 ^ 63
      | _ \<Rightarrow> True)"

definition tool_input_of :: "json \<Rightarrow> (string \<times> json) list" where
  "tool_input_of input_data =
     (case input_data of
        JObj obj \<Rightarrow> (case map_of obj ''tool_input'' of Some (JObj ti) \<Rightarrow> ti | _ \<Rightarrow> [])
      | _ \<Rightarrow> [])"

definition scalar_field :: "(string \<times> json) list \<Rightarrow> string \<Rightarrow> bool" where
  "scalar_field ti k = (case map_of ti k of None \<Rightarrow> True | Some v \<Rightarrow> storable v)"

definition well_formed_call :: "json \<Rightarrow> bool" where
  "well_formed_call input_data =
     (case input_data of
        JObj obj \<Rightarrow>
          (case map_of obj ''tool_name'' of None \<Rightarrow> True | Some v \<Rightarrow> storable v \<and> v \<noteq> JNull)
          \<and> (case map_of obj ''tool_input'' of
                None \<Rightarrow> True
              | Some (JObj ti) \<Rightarrow>
                  scalar_field ti ''file_path'' \<and> scalar_field ti ''command''
                  \<and> scalar_field ti ''pattern'' \<and> scalar_field ti ''description''
              | Some _ \<Rightarrow> False)
      | _ \<Rightarrow> False)"

text \<open>What a \<^verbatim>\<open>TEXT\<close> column holds for a field of \<open>tool_input\<close> (\<open>None\<close> is \<^verbatim>\<open>NULL\<close>).\<close>

definition stored_text :: "json option \<Rightarrow> string option" where
  "stored_text v =
     (case v of
        None \<Rightarrow> None
      | Some j \<Rightarrow> (case bind j of Inl e \<Rightarrow> None | Inr sv \<Rightarrow> text_column sv))"

text \<open>The rows of one session.\<close>

definition rows_of :: "string \<Rightarrow> tool_call list \<Rightarrow> tool_call list" where
  "rows_of sid rows = filter (\<lambda>r. tc_session_id r = sid) rows"

text \<open>
  Sample data: the environment of session \<open>S\<close>, and a shell call of that session logged
  at a given second. Second 212570827200 is 2024-01-01 00:00:00.
\<close>

definition session_S :: logger_env where
  "session_S = \<lparr>CLAUDE_SESSION_ID = Some ''S'', CLAUDE_MODEL = Some ''m'', now = 212570830000,
                 makedirs_ok = True\<rparr>"

definition call_at :: "nat \<Rightarrow> int \<Rightarrow> tool_call" where
  "call_at i t =
     \<lparr>tc_id = i, tc_session_id = ''S'', tc_timestamp = t, tc_tool_type = ''Bash'',
      tc_file_path = None, tc_command = Some ''ls'', tc_pattern = None, tc_description = None,
      tc_params_json = JObj [(''command'', JStr ''ls'')], tc_success = 1\<rparr>"

text \<open>Sample inputs of the Tool-Call Logger: an edit of \<open>a.py\<close> and a shell call.\<close>

definition edit_call :: json where
  "edit_call = JObj [(''tool_name'', JStr ''Edit''), (''tool_input'', JObj [(''file_path'', JStr ''a.py'')])]"

definition bash_call :: json where
  "bash_call = JObj [(''tool_name'', JStr ''Bash''), (''tool_input'', JObj [(''command'', JStr ''ls'')])]"

definition no_session :: logger_env where
  "no_session = \<lparr>CLAUDE_SESSION_ID = None, CLAUDE_MODEL = None, now = 212570830000,
                  makedirs_ok = True\<rparr>"

section \<open>deploy\_hooks.py\<close>

text \<open>The operations on parsed JSON that the script uses, with the exceptions of Python.\<close>

fun dict_set :: "(string \<times> json) list \<Rightarrow> string \<Rightarrow> json \<Rightarrow> (string \<times> json) list" where
  "dict_set [] k v = [(k, v)]"
| "dict_set ((k', v') # kvs) k v = (if k' = k then (k, v) # kvs else (k', v') # dict_set kvs k v)"

text \<open>\<^verbatim>\<open>k in x\<close> for a string \<open>k\<close>.\<close>

fun py_in :: "string \<Rightarrow> json \<Rightarrow> py_exc + bool" where
  "py_in k (JObj kvs) = Inr (map_of kvs k \<noteq> None)"
| "py_in k (JArr xs) = Inr (JStr k \<in> set xs)"
| "py_in k (JStr s) = Inr (str_contains k s)"
| "py_in k _ = Inl TypeError"

text \<open>\<^verbatim>\<open>x[k]\<close> and \<^verbatim>\<open>x[k] = v\<close> for a string \<open>k\<close>, and \<^verbatim>\<open>x[0]\<close>.\<close>

fun py_getitem :: "json \<Rightarrow> string \<Rightarrow> py_exc + json" where
  "py_getitem (JObj kvs) k = (case map_of kvs k of None \<Rightarrow> Inl KeyError | Some v \<Rightarrow> Inr v)"
| "py_getitem _ k = Inl TypeError"

fun py_setitem :: "json \<Rightarrow> string \<Rightarrow> json \<Rightarrow> py_exc + json" where
  "py_setitem (JObj kvs) k v = Inr (JObj (dict_set kvs k v))"
| "py_setitem _ k v = Inl TypeError"

fun py_first :: "json \<Rightarrow> py_exc + json" where
  "py_first (JArr []) = Inl IndexError"
| "py_first (JArr (x # xs)) = Inr x"
| "py_first (JStr []) = Inl IndexError"
| "py_first (JStr (c # cs)) = Inr (JStr [c])"
| "py_first (JObj kvs) = Inl KeyError"
| "py_first _ = Inl TypeError"

text \<open>The truth value of \<^verbatim>\<open>x\<close> in a condition.\<close>

fun truthy :: "json \<Rightarrow> bool" where
  "truthy JNull = False"
| "truthy (JBool b) = b"
| "truthy (JNum n) = (n \<noteq> 0)"
| "truthy (JStr s) = (s \<noteq> [])"
| "truthy (JArr xs) = (xs \<noteq> [])"
| "truthy (JObj kvs) = (kvs \<noteq> [])"

text \<open>The values \<^verbatim>\<open>for h in x\<close> runs through.\<close>

fun py_iter :: "json \<Rightarrow> py_exc + json list" where
  "py_iter (JArr xs) = Inr xs"
| "py_iter (JObj kvs) = Inr (map (\<lambda>kv. JStr (fst kv)) kvs)"
| "py_iter (JStr s) = Inr (map (\<lambda>c. JStr [c]) s)"
| "py_iter _ = Inl TypeError"

text \<open>Sequencing: the first exception ends the computation.\<close>

fun and_then :: "py_exc + 'a \<Rightarrow> ('a \<Rightarrow> py_exc + 'b) \<Rightarrow> py_exc + 'b" where
  "and_then (Inl e) f = Inl e"
| "and_then (Inr x) f = f x"

text \<open>
  A deployed hook is the string of its path. \<^verbatim>\<open>Path.stem\<close> is the last component
  without its last suffix; a leading or a trailing dot starts no suffix.
\<close>

definition path_name :: "string \<Rightarrow> string" where
  "path_name p = rev (takeWhile (\<lambda>c. c \<noteq> CHR ''/'') (rev p))"

definition path_stem :: "string \<Rightarrow> string" where
  "path_stem p =
     (let name = path_name p;
          suffix = rev (takeWhile (\<lambda>c. c \<noteq> CHR ''.'') (rev name))
      in if CHR ''.'' \<in> set name \<and> suffix \<noteq> [] \<and> length suffix + 1 < length name
         then take (length name - length suffix - 1) name
         else name)"

text \<open>\<^verbatim>\<open>s.lower()\<close> on code points below 256.\<close>

definition lower_char :: "char \<Rightarrow> char" where
  "lower_char c =
     (let n = (of_char c :: nat)
      in if (65 \<le> n \<and> n \<le> 90) \<or> (192 \<le> n \<and> n \<le> 222 \<and> n \<noteq> 215) then char_of (n + 32)
         else c)"

definition str_lower :: "string \<Rightarrow> string" where
  "str_lower s = map lower_char s"

text \<open>The event type inferred from the name of a hook.\<close>

definition event_type_of :: "string \<Rightarrow> string" where
  "event_type_of hook_name =
     (if str_contains ''pre-tool'' (str_lower hook_name)
         \<or> str_contains ''grep-to-rg'' (str_lower hook_name) then ''PreToolUse''
      else if str_contains ''post-tool'' (str_lower hook_name) then ''PostToolUse''
      else if str_contains ''prompt'' (str_lower hook_name) then ''UserPromptSubmit''
      else ''PreToolUse'')"

definition hook_entry :: "string \<Rightarrow> json" where
  "hook_entry hook_path =
     JObj [(''name'', JStr (path_stem hook_path)), (''type'', JStr ''command''),
           (''command'', JStr hook_path)]"

text \<open>
  The dict \<^verbatim>\<open>hook_configs\<close>, in insertion order:
  \<^verbatim>\<open>hook_configs[event_type].append(entry)\<close>, with a new key at the end.
\<close>

fun config_append :: "(string \<times> json list) list \<Rightarrow> string \<Rightarrow> json \<Rightarrow> (string \<times> json list) list" where
  "config_append [] event_type entry = [(event_type, [entry])]"
| "config_append ((e, hs) # rest) event_type entry =
     (if e = event_type then (e, hs @ [entry]) # rest
      else (e, hs) # config_append rest event_type entry)"

fun hook_configs :: "string list \<Rightarrow> (string \<times> json list) list \<Rightarrow> (string \<times> json list) list" where
  "hook_configs [] configs = configs"
| "hook_configs (hook_path # rest) configs =
     hook_configs rest
       (config_append configs (event_type_of (path_stem hook_path)) (hook_entry hook_path))"

text \<open>\<^verbatim>\<open>h["command"]\<close> of the entries the script has just built.\<close>

definition existing_commands :: "json list \<Rightarrow> json list" where
  "existing_commands new_hooks =
     concat (map (\<lambda>h. case h of JObj kvs \<Rightarrow> (case map_of kvs ''command'' of Some c \<Rightarrow> [c] | None \<Rightarrow> [])
                           | _ \<Rightarrow> []) new_hooks)"

text \<open>
  \<^verbatim>\<open>[h for h in hooks_array if h.get("command") not in existing_commands]\<close>: an entry
  that is no dict has no \<^verbatim>\<open>get\<close>, a list or a dict cannot be looked up in a set.
\<close>

fun keep_others :: "json list \<Rightarrow> json list \<Rightarrow> py_exc + json list" where
  "keep_others commands [] = Inr []"
| "keep_others commands (h # hs) =
     and_then (py_get h ''command'' JNull) (\<lambda>c.
       (case c of
          JArr xs \<Rightarrow> Inl TypeError
        | JObj kvs \<Rightarrow> Inl TypeError
        | _ \<Rightarrow> and_then (keep_others commands hs) (\<lambda>kept.
                 Inr (if c \<in> set commands then kept else h # kept))))"

text \<open>The body of the loop over \<^verbatim>\<open>hook_configs.items()\<close>.\<close>

definition empty_groups :: json where
  "empty_groups = JArr [JObj [(''hooks'', JArr [])]]"

definition merge_event :: "json \<Rightarrow> string \<times> json list \<Rightarrow> py_exc + json" where
  "merge_event settings config =
     (let event_type = fst config; new_hooks = snd config in
      and_then (py_getitem settings ''hooks'') (\<lambda>hooks.
      and_then (py_in event_type hooks) (\<lambda>present.
      and_then (if \<not> present then py_setitem hooks event_type empty_groups else Inr hooks) (\<lambda>hooks.
      and_then (py_getitem hooks event_type) (\<lambda>groups.
      and_then (if \<not> truthy groups then py_setitem hooks event_type empty_groups else Inr hooks) (\<lambda>hooks.
      and_then (py_getitem hooks event_type) (\<lambda>groups.
      and_then (py_first groups) (\<lambda>group.
      and_then (py_get group ''hooks'' (JArr [])) (\<lambda>hooks_array.
      and_then (py_iter hooks_array) (\<lambda>items.
      and_then (keep_others (existing_commands new_hooks) items) (\<lambda>kept.
      and_then (py_setitem group ''hooks'' (JArr (kept @ new_hooks))) (\<lambda>group.
      (case groups of
         JArr (g # rest) \<Rightarrow>
           and_then (py_setitem hooks event_type (JArr (group # rest))) (\<lambda>hooks.
             py_setitem settings ''hooks'' hooks)
       | _ \<Rightarrow> Inl TypeError)))))))))))))"

fun merge_all :: "json \<Rightarrow> (string \<times> json list) list \<Rightarrow> py_exc + json" where
  "merge_all settings [] = Inr settings"
| "merge_all settings (config # configs) =
     and_then (merge_event settings config) (\<lambda>settings. merge_all settings configs)"

text \<open>\<^verbatim>\<open>update_settings\<close>, from the loaded settings to the settings it writes and returns.\<close>

definition update_settings :: "json \<Rightarrow> string list \<Rightarrow> py_exc + json" where
  "update_settings settings deployed_hooks =
     and_then (py_in ''hooks'' settings) (\<lambda>present.
     and_then (if \<not> present then py_setitem settings ''hooks'' (JObj []) else Inr settings)
       (\<lambda>settings. merge_all settings (hook_configs deployed_hooks [])))"

subsection \<open>Vocabulary of the deployer properties\<close>

text \<open>
  The registrations of a settings document: the groups of an event type, the entries of
  a group, the command of an entry. A part of the document that is missing or has
  another shape holds no registration.
\<close>

definition event_groups :: "json \<Rightarrow> string \<Rightarrow> json list" where
  "event_groups doc ev =
     (case doc of
        JObj kvs \<Rightarrow>
          (case map_of kvs ''hooks'' of
             Some (JObj evs) \<Rightarrow> (case map_of evs ev of Some (JArr gs) \<Rightarrow> gs | _ \<Rightarrow> [])
           | _ \<Rightarrow> [])
      | _ \<Rightarrow> [])"

definition group_entries :: "json \<Rightarrow> json list" where
  "group_entries g =
     (case g of
        JObj kvs \<Rightarrow> (case map_of kvs ''hooks'' of Some (JArr es) \<Rightarrow> es | _ \<Rightarrow> [])
      | _ \<Rightarrow> [])"

definition first_group :: "json \<Rightarrow> string \<Rightarrow> json list" where
  "first_group doc ev = (case event_groups doc ev of [] \<Rightarrow> [] | g # gs \<Rightarrow> group_entries g)"

definition later_groups :: "json \<Rightarrow> string \<Rightarrow> json list" where
  "later_groups doc ev = tl (event_groups doc ev)"

definition registrations :: "json \<Rightarrow> string \<Rightarrow> json list" where
  "registrations doc ev = concat (map group_entries (event_groups doc ev))"

text \<open>\<^verbatim>\<open>h.get("command")\<close> of an entry (\<open>JNull\<close> for \<^verbatim>\<open>None\<close>).\<close>

definition entry_command :: "json \<Rightarrow> json" where
  "entry_command h =
     (case h of
        JObj kvs \<Rightarrow> (case map_of kvs ''command'' of None \<Rightarrow> JNull | Some c \<Rightarrow> c)
      | _ \<Rightarrow> JNull)"

text \<open>The entries registered for a command path.\<close>

definition entries_for :: "string \<Rightarrow> json list \<Rightarrow> json list" where
  "entries_for p entries = filter (\<lambda>h. entry_command h = JStr p) entries"

text \<open>The event type of a deployed hook, and the deployed hooks of an event type.\<close>

definition hook_event :: "string \<Rightarrow> string" where
  "hook_event hook_path = event_type_of (path_stem hook_path)"

definition hooks_of_event :: "string \<Rightarrow> string list \<Rightarrow> string list" where
  "hooks_of_event ev deployed_hooks = filter (\<lambda>p. hook_event p = ev) deployed_hooks"

text \<open>The command paths of a list of entries (an entry without a command has none).\<close>

definition commands_of :: "json list \<Rightarrow> json list" where
  "commands_of entries = filter (\<lambda>c. c \<noteq> JNull) (map entry_command entries)"

text \<open>The entries whose command is a deployed path, and the others.\<close>

definition deployed_entry :: "string list \<Rightarrow> json \<Rightarrow> bool" where
  "deployed_entry deployed_hooks h = (entry_command h \<in> set (map JStr deployed_hooks))"

text \<open>
  A settings document the merge step can work on: an object whose \<open>hooks\<close>, when
  present, is an object; the value of each event type is empty (or another false value)
  or a list whose first group is an object; the \<open>hooks\<close> of that group, when present,
  is a list of objects whose \<open>command\<close>, when present, is a scalar.
\<close>

definition wf_entry :: "json \<Rightarrow> bool" where
  "wf_entry h = (case h of JObj kvs \<Rightarrow> scalar (entry_command h) | _ \<Rightarrow> False)"

definition wf_groups :: "json \<Rightarrow> bool" where
  "wf_groups v =
     (\<not> truthy v \<or>
      (case v of
         JArr (JObj g0 # rest) \<Rightarrow>
           (case map_of g0 ''hooks'' of
              None \<Rightarrow> True
            | Some (JArr es) \<Rightarrow> list_all wf_entry es
            | Some _ \<Rightarrow> False)
       | _ \<Rightarrow> False))"

definition wf_events :: "(string \<times> json) list \<Rightarrow> bool" where
  "wf_events evs = list_all (\<lambda>kv. wf_groups (snd kv)) evs"

definition wf_settings :: "json \<Rightarrow> bool" where
  "wf_settings s =
     (case s of
        JObj kvs \<Rightarrow>
          (case map_of kvs ''hooks'' of
             None \<Rightarrow> True
           | Some (JObj evs) \<Rightarrow> wf_events evs
           | Some _ \<Rightarrow> False)
      | _ \<Rightarrow> False)"

text \<open>
  Sample data of the deployer: two deployed hooks (both registered before a tool runs),
  a settings document that registers the first of them in its second group, and what
  the merge step makes of that document.
\<close>

definition rg_hook :: string where
  "rg_hook = ''/home/u/.claude/hooks/grep-to-rg.py''"

definition fmt_hook :: string where
  "fmt_hook = ''/home/u/.claude/hooks/format.sh''"

definition grouped_settings :: json where
  "grouped_settings =
     JObj [(''hooks'', JObj [(''PreToolUse'',
       JArr [JObj [(''matcher'', JStr ''Edit''), (''hooks'', JArr [])],
             JObj [(''matcher'', JStr ''Bash''), (''hooks'', JArr [hook_entry rg_hook])]])])]"

definition grouped_settings_after :: json where
  "grouped_settings_after =
     JObj [(''hooks'', JObj [(''PreToolUse'',
       JArr [JObj [(''matcher'', JStr ''Edit''), (''hooks'', JArr [hook_entry rg_hook])],
             JObj [(''matcher'', JStr ''Bash''), (''hooks'', JArr [hook_entry rg_hook])]])])]"

definition fresh_settings_after :: json where
  "fresh_settings_after =
     JObj [(''hooks'', JObj [(''PreToolUse'',
       JArr [JObj [(''hooks'', JArr [hook_entry rg_hook, hook_entry fmt_hook])]])])]"

section \<open>subagent-tracker.py\<close>

record subagent_session =
  sa_id :: nat
  sa_parent_session_id :: string
  sa_subagent_type :: string
  sa_timestamp :: int
  sa_summary :: "string option"
  sa_files_modified_json :: json
  sa_file_count :: int

text \<open>\<^verbatim>\<open>len(x)\<close>.\<close>

fun py_len :: "json \<Rightarrow> py_exc + int" where
  "py_len (JArr xs) = Inr (int (length xs))"
| "py_len (JObj kvs) = Inr (int (length kvs))"
| "py_len (JStr s) = Inr (int (length s))"
| "py_len _ = Inl TypeError"

definition subagent_tracker ::
  "logger_env \<Rightarrow> json option \<Rightarrow> subagent_session list option \<Rightarrow> subagent_session list run" where
  "subagent_tracker env stdin db =
     (if \<not> makedirs_ok env then Raised OSError
      else case stdin of
        None \<Rightarrow> Raised JSONDecodeError
      | Some input_data \<Rightarrow>
          let session_id = getenv (CLAUDE_SESSION_ID env) ''unknown'' in
          (case py_get input_data ''subagent_type'' (JStr ''unknown'') of
             Inl e \<Rightarrow> Raised e
           | Inr subagent_type \<Rightarrow>
          (case py_get input_data ''summary'' (JStr []) of
             Inl e \<Rightarrow> Raised e
           | Inr summary \<Rightarrow>
          (case py_get input_data ''files_modified'' (JArr []) of
             Inl e \<Rightarrow> Raised e
           | Inr files_modified \<Rightarrow>
          (case db of
             None \<Rightarrow> Raised OperationalError
           | Some rows \<Rightarrow>
          (case py_len files_modified of Inl e \<Rightarrow> Raised e | Inr n \<Rightarrow>
          (case bind subagent_type of Inl e \<Rightarrow> Raised e | Inr v_type \<Rightarrow>
          (case bind summary of Inl e \<Rightarrow> Raised e | Inr v_summary \<Rightarrow>
          (case text_column v_type of
             None \<Rightarrow> Raised IntegrityError
           | Some type_text \<Rightarrow>
               Exit 0 (rows @
                 [\<lparr>sa_id = next_id (map sa_id rows),
                   sa_parent_session_id = session_id,
                   sa_subagent_type = type_text,
                   sa_timestamp = now env,
                   sa_summary = text_column v_summary,
                   sa_files_modified_json = files_modified,
                   sa_file_count = n\<rparr>]))))))))))"

section \<open>deploy\_hooks.py: the whole run\<close>

text \<open>\<^verbatim>\<open>display_summary\<close>: the name and the command of every entry it prints, by event type.\<close>

definition summary_hook :: "json \<Rightarrow> py_exc + (json \<times> json) list" where
  "summary_hook hook =
     and_then (py_get hook ''name'' (JStr ''unnamed'')) (\<lambda>name.
     and_then (py_get hook ''command'' (JStr [])) (\<lambda>command.
     and_then (py_in ''/.claude/hooks/'' command) (\<lambda>shown.
       Inr (if shown then [(name, command)] else []))))"

fun summary_hooks :: "json list \<Rightarrow> py_exc + (json \<times> json) list" where
  "summary_hooks [] = Inr []"
| "summary_hooks (hook # hooks) =
     and_then (summary_hook hook) (\<lambda>printed.
     and_then (summary_hooks hooks) (\<lambda>more. Inr (printed @ more)))"

definition summary_group :: "json \<Rightarrow> py_exc + (json \<times> json) list" where
  "summary_group g =
     and_then (py_get g ''hooks'' (JArr [])) (\<lambda>hooks.
     and_then (py_iter hooks) (\<lambda>items. summary_hooks items))"

fun summary_groups :: "json list \<Rightarrow> py_exc + (json \<times> json) list" where
  "summary_groups [] = Inr []"
| "summary_groups (g # gs) =
     and_then (summary_group g) (\<lambda>printed.
     and_then (summary_groups gs) (\<lambda>more. Inr (printed @ more)))"

fun summary_events :: "(string \<times> json) list \<Rightarrow> py_exc + (string \<times> (json \<times> json) list) list" where
  "summary_events [] = Inr []"
| "summary_events ((event_type, hook_groups) # rest) =
     and_then (py_iter hook_groups) (\<lambda>groups.
     and_then (summary_groups groups) (\<lambda>printed.
     and_then (summary_events rest) (\<lambda>more. Inr ((event_type, printed) # more))))"

definition display_summary :: "json \<Rightarrow> py_exc + (string \<times> (json \<times> json) list) list" where
  "display_summary settings =
     and_then (py_in ''hooks'' settings) (\<lambda>present.
       if present then
         and_then (py_getitem settings ''hooks'') (\<lambda>hooks.
           (case hooks of JObj evs \<Rightarrow> summary_events evs | _ \<Rightarrow> Inl AttributeError))
       else Inr [])"

text \<open>
  What the deployer finds: the names of the files in the source directory (\<open>None\<close>: no
  such directory), the destination directory, the settings file, and whether making
  the directories, copying the files and writing the settings succeed.
\<close>

datatype settings_file = NoFile | NotJson | Loaded json

record deploy_env =
  source_files :: "string list option"
  claude_hooks_dir :: string
  settings_json :: settings_file
  mkdir_ok :: bool
  copy_ok :: bool
  write_ok :: bool

definition get_hook_files :: "deploy_env \<Rightarrow> string list" where
  "get_hook_files env =
     (case source_files env of
        None \<Rightarrow> []
      | Some names \<Rightarrow> filter (\<lambda>name. name \<noteq> ''__init__.py'') names)"

definition load_settings :: "deploy_env \<Rightarrow> py_exc + json" where
  "load_settings env =
     (case settings_json env of
        NoFile \<Rightarrow> Inr (JObj [])
      | NotJson \<Rightarrow> Inl JSONDecodeError
      | Loaded settings \<Rightarrow> Inr settings)"

text \<open>
  \<^verbatim>\<open>main\<close>: the result is the settings document it has written, if any. Leaving with
  status 1 is the \<^verbatim>\<open>sys.exit(1)\<close> after an empty list of hooks.
\<close>

definition deploy_main :: "deploy_env \<Rightarrow> json option run" where
  "deploy_main env =
     (if \<not> mkdir_ok env then Raised OSError
      else
        let hooks = get_hook_files env in
        if hooks = [] then Exit 1 None
        else if \<not> copy_ok env then Raised OSError
        else
          let deployed = map (\<lambda>name. claude_hooks_dir env @ ''/'' @ name) hooks in
          (case and_then (load_settings env) (\<lambda>settings. update_settings settings deployed) of
             Inl e \<Rightarrow> Raised e
           | Inr settings \<Rightarrow>
               if \<not> write_ok env then Raised OSError
               else (case display_summary settings of
                       Inl e \<Rightarrow> Raised e
                     | Inr printed \<Rightarrow> Exit 0 (Some settings))))"

subsection \<open>Vocabulary of the exit-status property\<close>

text \<open>
  A well-formed input of the Subagent Logger: an object; \<open>subagent_type\<close>, when present,
  a storable value other than \<open>null\<close>; \<open>summary\<close>, when present, a storable value;
  \<open>files_modified\<close>, when present, a list.
\<close>

definition well_formed_subagent :: "json \<Rightarrow> bool" where
  "well_formed_subagent input_data =
     (case input_data of
        JObj obj \<Rightarrow>
          (case map_of obj ''subagent_type'' of None \<Rightarrow> True | Some v \<Rightarrow> storable v \<and> v \<noteq> JNull)
          \<and> (case map_of obj ''summary'' of None \<Rightarrow> True | Some v \<Rightarrow> storable v)
          \<and> (case map_of obj ''files_modified'' of
                None \<Rightarrow> True | Some (JArr xs) \<Rightarrow> True | Some _ \<Rightarrow> False)
      | _ \<Rightarrow> False)"

text \<open>A run ended by an uncaught exception.\<close>

fun raised :: "'a run \<Rightarrow> bool" where
  "raised (Raised e) = True"
| "raised (Exit n x) = False"

text \<open>Sample environments of the deployer: a first deployment, with and without hooks.\<close>

definition first_deploy :: deploy_env where
  "first_deploy =
     \<lparr>source_files = Some [''__init__.py'', ''grep-to-rg.py''],
      claude_hooks_dir = ''/home/u/.claude/hooks'', settings_json = NoFile,
      mkdir_ok = True, copy_ok = True, write_ok = True\<rparr>"

definition empty_deploy :: deploy_env where
  "empty_deploy =
     \<lparr>source_files = Some [''__init__.py''],
      claude_hooks_dir = ''/home/u/.claude/hooks'', settings_json = NoFile,
      mkdir_ok = True, copy_ok = True, write_ok = True\<rparr>"

text \<open>
  A settings document whose registrations all have the shape the deployer writes: the
  value of every event type is a list of groups, every group an object whose \<open>hooks\<close>,
  when present, is a list of objects whose \<open>command\<close>, when present, is a string.
\<close>

definition tidy_entry :: "json \<Rightarrow> bool" where
  "tidy_entry h =
     (case h of
        JObj kvs \<Rightarrow> (case map_of kvs ''command'' of None \<Rightarrow> True | Some (JStr c) \<Rightarrow> True
                      | Some _ \<Rightarrow> False)
      | _ \<Rightarrow> False)"

definition tidy_group :: "json \<Rightarrow> bool" where
  "tidy_group g =
     (case g of
        JObj kvs \<Rightarrow> (case map_of kvs ''hooks'' of None \<Rightarrow> True
                      | Some (JArr es) \<Rightarrow> list_all tidy_entry es | Some _ \<Rightarrow> False)
      | _ \<Rightarrow> False)"

definition tidy_groups :: "json \<Rightarrow> bool" where
  "tidy_groups v = (case v of JArr gs \<Rightarrow> list_all tidy_group gs | _ \<Rightarrow> False)"

definition tidy_events :: "(string \<times> json) list \<Rightarrow> bool" where
  "tidy_events evs = list_all (\<lambda>kv. tidy_groups (snd kv)) evs"

definition tidy_settings :: "json \<Rightarrow> bool" where
  "tidy_settings s =
     (case s of
        JObj kvs \<Rightarrow>
          (case map_of kvs ''hooks'' of
             None \<Rightarrow> True
           | Some (JObj evs) \<Rightarrow> tidy_events evs
           | Some _ \<Rightarrow> False)
      | _ \<Rightarrow> False)"

text \<open>
  The arguments of an installation: a text that begins with a character that is
  neither whitespace, nor a hyphen, nor the start of a shell operator, and that holds no
  whole-word \<open>npm\<close>.
\<close>

definition package_args :: "string \<Rightarrow> bool" where
  "package_args args =
     (case args of
        [] \<Rightarrow> False
      | c # cs \<Rightarrow> \<not> is_space c \<and> c \<notin> set ''-&|;'' \<and> \<not> re_search rx_npm args)"

section \<open>Properties\<close>

subsection \<open>The generic npm rule leaves no npm token\<close>

lemma is_word_npm [simp]: "is_word CHR ''n''" "is_word CHR ''p''" "is_word CHR ''m''"
  by (simp_all add: is_word_def)

lemma rmatch_rx_npm:
  "rmatch rx_npm prev s = (if npm_here prev s then [(Some CHR ''m'', drop 3 s)] else [])"
proof (cases "prefix ''npm'' s")
  case True
  then obtain t where s: "s = ''npm'' @ t" by (auto simp: prefix_def)
  show ?thesis
    by (auto simp: rx_npm_def npm_here_def s)
next
  case False
  then have "\<And>t. s \<noteq> ''npm'' @ t" by (auto simp: prefix_def)
  with False show ?thesis
    by (auto simp: rx_npm_def npm_here_def)
qed

lemma sub_npm_unfold:
  "sub_from rx_npm ''pnpm'' prev s =
     (if npm_here prev s then ''pnpm'' @ sub_from rx_npm ''pnpm'' (Some CHR ''m'') (drop 3 s)
      else (case s of [] \<Rightarrow> [] | c # cs \<Rightarrow> c # sub_from rx_npm ''pnpm'' (Some c) cs))"
  by (subst sub_from.simps) (auto simp: rmatch_rx_npm npm_here_def)

lemma npm_here_word [simp]: "word_opt prev \<Longrightarrow> \<not> npm_here prev s"
  by (simp add: npm_here_def)

lemma sub_npm_word:
  "word_opt prev \<Longrightarrow>
   sub_from rx_npm ''pnpm'' prev s =
     (case s of [] \<Rightarrow> [] | c # cs \<Rightarrow> c # sub_from rx_npm ''pnpm'' (Some c) cs)"
  by (subst sub_npm_unfold) simp

text \<open>A token at the head of the output was a token at the head of the input.\<close>

lemma npm_here_sub:
  assumes "npm_here prev (sub_from rx_npm ''pnpm'' prev s)"
  shows "npm_here prev s"
proof (rule ccontr)
  assume n: "\<not> npm_here prev s"
  from assms have np: "\<not> word_opt prev" by (simp add: npm_here_def)
  from assms obtain t where
    t: "sub_from rx_npm ''pnpm'' prev s = ''npm'' @ t" "\<not> word_opt (next_char t)"
    by (auto simp: npm_here_def)
  from n t(1) obtain cs where s1: "s = CHR ''n'' # cs"
    and c1: "sub_from rx_npm ''pnpm'' (Some CHR ''n'') cs = ''pm'' @ t"
    by (subst (asm) sub_npm_unfold) (auto split: list.splits)
  from c1 obtain ds where s2: "cs = CHR ''p'' # ds"
    and c2: "sub_from rx_npm ''pnpm'' (Some CHR ''p'') ds = ''m'' @ t"
    by (subst (asm) sub_npm_word) (auto split: list.splits)
  from c2 obtain es where s3: "ds = CHR ''m'' # es"
    and c3: "sub_from rx_npm ''pnpm'' (Some CHR ''m'') es = t"
    by (subst (asm) sub_npm_word) (auto split: list.splits)
  from c3 have "next_char t = next_char es"
    by (subst (asm) sub_npm_word) (auto split: list.splits)
  with t(2) np have "npm_here prev s"
    by (simp add: npm_here_def s1 s2 s3)
  with n show False by simp
qed

lemma no_npm_after_sub:
  "\<not> search_from rx_npm prev (sub_from rx_npm ''pnpm'' prev s)"
proof (induction "length s" arbitrary: prev s rule: less_induct)
  case less
  show ?case
  proof (cases "npm_here prev s")
    case True
    then obtain t where s: "s = ''npm'' @ t" by (auto simp: npm_here_def)
    have "\<not> search_from rx_npm (Some CHR ''m'') (sub_from rx_npm ''pnpm'' (Some CHR ''m'') t)"
      using less [of t] by (simp add: s)
    moreover have "sub_from rx_npm ''pnpm'' prev s
        = ''pnpm'' @ sub_from rx_npm ''pnpm'' (Some CHR ''m'') t"
      using True by (subst sub_npm_unfold) (simp add: s)
    ultimately show ?thesis
      by (simp add: rmatch_rx_npm npm_here_def)
  next
    case False
    show ?thesis
    proof (cases s)
      case Nil
      then show ?thesis by (subst sub_npm_unfold) (simp add: rmatch_rx_npm npm_here_def)
    next
      case (Cons c cs)
      have eq: "sub_from rx_npm ''pnpm'' prev s = c # sub_from rx_npm ''pnpm'' (Some c) cs"
        using False by (subst sub_npm_unfold) (simp add: Cons)
      have "\<not> search_from rx_npm (Some c) (sub_from rx_npm ''pnpm'' (Some c) cs)"
        using less [of cs] by (simp add: Cons)
      moreover have "\<not> npm_here prev (c # sub_from rx_npm ''pnpm'' (Some c) cs)"
        using False npm_here_sub [of prev s] by (auto simp: eq)
      ultimately show ?thesis
        by (simp add: eq rmatch_rx_npm)
    qed
  qed
qed

lemma npm_rewrite_clean: "\<not> re_search rx_npm (npm_rewrite command)"
  by (simp add: re_search_def npm_rewrite_def re_sub_def no_npm_after_sub)

subsection \<open>The rewriters on a shell invocation\<close>

lemma npm_to_pnpm_bash:
  "bash_command stdin = Some command \<Longrightarrow>
   npm_to_pnpm stdin =
     (if re_search rx_npm command then Exit 0 (Some (rewrite_response (npm_rewrite command)))
      else Exit 0 None)"
  by (auto simp: bash_command_def npm_to_pnpm_def
      split: option.splits json.splits if_splits)

lemma npm_to_pnpm_output:
  "stdout_of (npm_to_pnpm stdin) = Some out \<Longrightarrow>
   \<exists>command. bash_command stdin = Some command \<and> re_search rx_npm command
     \<and> out = rewrite_response (npm_rewrite command)"
  by (cases stdin)
     (auto simp: bash_command_def npm_to_pnpm_def
       split: option.splits json.splits if_splits sum.splits elim!: py_get.elims)

lemma grep_to_rg_bash:
  "bash_command stdin = Some command \<Longrightarrow>
   grep_to_rg stdin =
     (if str_contains ''grep'' command
      then Exit 0 (Some (rewrite_response (str_replace ''grep'' ''rg'' command)))
      else Exit 0 None)"
  by (auto simp: bash_command_def grep_to_rg_def
      split: option.splits json.splits if_splits)

lemma grep_to_rg_output:
  "stdout_of (grep_to_rg stdin) = Some out \<Longrightarrow>
   \<exists>command. bash_command stdin = Some command \<and> str_contains ''grep'' command
     \<and> out = rewrite_response (str_replace ''grep'' ''rg'' command)"
  by (cases stdin)
     (auto simp: bash_command_def grep_to_rg_def
       split: option.splits json.splits if_splits sum.splits elim!: py_get.elims)

lemma bash_command_bash_input [simp]: "bash_command (bash_input command) = Some command"
  by (simp add: bash_command_def bash_input_def)

subsection \<open>Replacing is splitting and joining\<close>


lemma str_split_nonempty: "sep \<noteq> [] \<Longrightarrow> str_split sep s \<noteq> []"
  by (subst str_split.simps) (auto split: list.splits)

lemma str_join_Cons: "xs \<noteq> [] \<Longrightarrow> str_join sep (x # xs) = x @ sep @ str_join sep xs"
  by (cases xs) auto

lemma str_join_Cons_head: "str_join sep ((c # x) # xs) = c # str_join sep (x # xs)"
  by (cases xs) auto

lemma str_join_split: "sep \<noteq> [] \<Longrightarrow> str_join sep (str_split sep s) = s"
proof (induction sep s rule: str_split.induct)
  case (1 sep s)
  show ?case
  proof (cases "prefix sep s")
    case True
    then obtain t where s: "s = sep @ t" by (auto simp: prefix_def)
    have "str_join sep (str_split sep (drop (length sep) s)) = drop (length sep) s"
      using 1 True by simp
    then show ?thesis
      using 1(3) True
      by (subst str_split.simps) (simp add: str_join_Cons str_split_nonempty s)
  next
    case False
    show ?thesis
    proof (cases s)
      case Nil
      then show ?thesis using False 1(3) by (subst str_split.simps) simp
    next
      case (Cons c cs)
      have ih: "str_join sep (str_split sep cs) = cs"
        using 1 False Cons by simp
      obtain x xs where sp: "str_split sep cs = x # xs"
        using str_split_nonempty [OF 1(3), of cs] by (cases "str_split sep cs") auto
      show ?thesis
        using False 1(3) ih
        by (subst str_split.simps) (simp add: Cons sp str_join_Cons_head)
    qed
  qed
qed

lemma str_replace_split:
  "sep \<noteq> [] \<Longrightarrow> str_replace sep new s = str_join new (str_split sep s)"
proof (induction sep s rule: str_split.induct)
  case (1 sep s)
  show ?case
  proof (cases "prefix sep s")
    case True
    have "str_replace sep new (drop (length sep) s)
          = str_join new (str_split sep (drop (length sep) s))"
      using 1 True by simp
    then show ?thesis
      using 1(3) True
      by (subst str_split.simps, subst str_replace.simps)
         (simp add: str_join_Cons str_split_nonempty)
  next
    case False
    show ?thesis
    proof (cases s)
      case Nil
      then show ?thesis using False 1(3)
        by (subst str_split.simps, subst str_replace.simps) simp
    next
      case (Cons c cs)
      have ih: "str_replace sep new cs = str_join new (str_split sep cs)"
        using 1 False Cons by simp
      obtain x xs where sp: "str_split sep cs = x # xs"
        using str_split_nonempty [OF 1(3), of cs] by (cases "str_split sep cs") auto
      show ?thesis
        using False 1(3) ih
        by (subst str_split.simps, subst str_replace.simps)
           (simp add: Cons sp str_join_Cons_head)
    qed
  qed
qed

lemma str_split_hd_prefix: "sep \<noteq> [] \<Longrightarrow> prefix (hd (str_split sep s)) s"
proof (induction sep s rule: str_split.induct)
  case (1 sep s)
  show ?case
  proof (cases "prefix sep s")
    case True
    then show ?thesis using 1(3) by (subst str_split.simps) simp
  next
    case False
    show ?thesis
    proof (cases s)
      case Nil
      then show ?thesis using False 1(3) by (subst str_split.simps) simp
    next
      case (Cons c cs)
      have ih: "prefix (hd (str_split sep cs)) cs"
        using 1 False Cons by simp
      obtain x xs where sp: "str_split sep cs = x # xs"
        using str_split_nonempty [OF 1(3), of cs] by (cases "str_split sep cs") auto
      show ?thesis
        using False 1(3) ih
        by (subst str_split.simps) (simp add: Cons sp)
    qed
  qed
qed

lemma str_split_clean:
  "sep \<noteq> [] \<Longrightarrow> seg \<in> set (str_split sep s) \<Longrightarrow> \<not> str_contains sep seg"
proof (induction sep s arbitrary: seg rule: str_split.induct)
  case (1 sep s)
  show ?case
  proof (cases "prefix sep s")
    case True
    then have "str_split sep s = [] # str_split sep (drop (length sep) s)"
      using 1(3) by (subst str_split.simps) simp
    with 1(4) have "seg = [] \<or> seg \<in> set (str_split sep (drop (length sep) s))" by auto
    then show ?thesis
      using 1(1) [OF 1(3) True] 1(3) by auto
  next
    case False
    show ?thesis
    proof (cases s)
      case Nil
      then have "str_split sep s = [[]]" using False 1(3) by (subst str_split.simps) simp
      with 1(4) 1(3) show ?thesis by simp
    next
      case (Cons c cs)
      obtain x xs where sp: "str_split sep cs = x # xs"
        using str_split_nonempty [OF 1(3), of cs] by (cases "str_split sep cs") auto
      have eq: "str_split sep s = (c # x) # xs"
        using False 1(3) by (subst str_split.simps) (simp add: Cons sp)
      have ih: "\<And>g. g \<in> set (x # xs) \<Longrightarrow> \<not> str_contains sep g"
        using 1(2) [OF 1(3) False Cons] 1(3) sp by simp
      have px: "prefix x cs" using str_split_hd_prefix [OF 1(3), of cs] sp by simp
      have "\<not> prefix sep (c # x)"
      proof
        assume "prefix sep (c # x)"
        moreover have "prefix (c # x) (c # cs)" using px by simp
        ultimately have "prefix sep (c # cs)" by (rule prefix_order.trans)
        with False Cons show False by simp
      qed
      then have "\<not> str_contains sep (c # x)" using ih [of x] by simp
      with 1(4) ih show ?thesis by (auto simp: eq)
    qed
  qed
qed

lemma count_grep_step:
  "count_occurrences ''grep'' (''grep'' @ t) = Suc (count_occurrences ''grep'' t)"
  by simp

lemma str_split_grep_count:
  "length (str_split ''grep'' s) = Suc (count_occurrences ''grep'' s)"
proof (induction "length s" arbitrary: s rule: less_induct)
  case less
  show ?case
  proof (cases "prefix ''grep'' s")
    case True
    then obtain t where s: "s = ''grep'' @ t" by (auto simp: prefix_def)
    have "length (str_split ''grep'' t) = Suc (count_occurrences ''grep'' t)"
      using less [of t] by (simp add: s)
    then show ?thesis
      by (subst str_split.simps) (simp add: s)
  next
    case False
    show ?thesis
    proof (cases s)
      case Nil
      then show ?thesis by (subst str_split.simps) simp
    next
      case (Cons c cs)
      have "length (str_split ''grep'' cs) = Suc (count_occurrences ''grep'' cs)"
        using less [of cs] by (simp add: Cons)
      then show ?thesis using False
        by (subst str_split.simps) (auto simp: Cons split: list.splits)
    qed
  qed
qed

lemma str_contains_count: "str_contains sub s = (0 < count_occurrences sub s)"
  by (induction s) auto

subsection \<open>Claims on the command rewriters\<close>



text \<open>
  C10. The command the npm rewriter produces never holds the whole-word token \<open>npm\<close>
  (the \<open>npm\<close> inside an introduced \<open>pnpm\<close> is not one), so the rewriter run on a shell
  invocation of its own output prints nothing and exits with status 0: the command
  stays as it is.
\<close>

theorem npm_rewriter_fixpoint:
  "\<not> re_search rx_npm (npm_rewrite command)
   \<and> \<not> re_search rx_npm ''pnpm''
   \<and> npm_to_pnpm (bash_input (npm_rewrite command)) = Exit 0 None
   \<and> (stdout_of (npm_to_pnpm stdin) = Some (rewrite_response new_command)
        \<and> bash_command stdin2 = Some new_command \<longrightarrow>
      \<not> re_search rx_npm new_command \<and> npm_to_pnpm stdin2 = Exit 0 None)"
proof -
  have a: "\<not> re_search rx_npm (npm_rewrite command)" by (rule npm_rewrite_clean)
  have b: "\<not> re_search rx_npm ''pnpm''" by code_simp
  have c: "npm_to_pnpm (bash_input (npm_rewrite command)) = Exit 0 None"
    by (simp add: npm_to_pnpm_bash npm_rewrite_clean)
  have d: "stdout_of (npm_to_pnpm stdin) = Some (rewrite_response new_command)
        \<and> bash_command stdin2 = Some new_command \<longrightarrow>
      \<not> re_search rx_npm new_command \<and> npm_to_pnpm stdin2 = Exit 0 None"
  proof (intro impI, elim conjE)
    assume o: "stdout_of (npm_to_pnpm stdin) = Some (rewrite_response new_command)"
      and i: "bash_command stdin2 = Some new_command"
    from npm_to_pnpm_output [OF o] obtain c0 where
      "rewrite_response new_command = rewrite_response (npm_rewrite c0)" by blast
    then have n: "new_command = npm_rewrite c0" by (simp add: rewrite_response_def)
    then have "\<not> re_search rx_npm new_command" by (simp add: npm_rewrite_clean)
    then show "\<not> re_search rx_npm new_command \<and> npm_to_pnpm stdin2 = Exit 0 None"
      using i by (simp add: npm_to_pnpm_bash)
  qed
  from a b c d show ?thesis by blast
qed

theorem npm_rewriter_fixpoint_witness:
  "stdout_of (npm_to_pnpm (bash_input ''npm i lodash && npm test''))
     = Some (rewrite_response ''pnpm add lodash && pnpm test'')
   \<and> bash_command (bash_input ''pnpm add lodash && pnpm test'')
       = Some ''pnpm add lodash && pnpm test''
   \<and> npm_to_pnpm (bash_input ''pnpm add lodash && pnpm test'') = Exit 0 None"
proof -
  have h0: "re_search rx_npm ''npm i lodash && npm test''" by code_simp
  have h1: "npm_rewrite ''npm i lodash && npm test'' = ''pnpm add lodash && pnpm test''"
    by code_simp
  have h2: "stdout_of (npm_to_pnpm (bash_input ''npm i lodash && npm test''))
     = Some (rewrite_response ''pnpm add lodash && pnpm test'')"
    by (simp add: npm_to_pnpm_bash h0 h1)
  have h3: "bash_command (bash_input ''pnpm add lodash && pnpm test'')
       = Some ''pnpm add lodash && pnpm test''" by simp
  from npm_rewriter_fixpoint [of "''x''" "bash_input ''npm i lodash && npm test''"
      "''pnpm add lodash && pnpm test''" "bash_input ''pnpm add lodash && pnpm test''"] h2 h3
  show ?thesis by blast
qed

text \<open>
  C4. On a shell invocation whose command holds the substring \<open>grep\<close>, the grep
  rewriter prints a response whose command is the old one with every occurrence of
  \<open>grep\<close> replaced by \<open>rg\<close>: the old command is its pieces joined by \<open>grep\<close>, the new
  one the same pieces joined by \<open>rg\<close>, no piece holds \<open>grep\<close>, and there is one piece
  more than there are occurrences of \<open>grep\<close>; no word boundary is looked at, so
  \<open>grepfoo\<close> becomes \<open>rgfoo\<close>. On any other input (another tool, a command without
  \<open>grep\<close>, an input the script cannot read) nothing is printed, and the first two
  exit with status 0.
\<close>

theorem grep_rewriter:
  "(bash_command stdin = Some command \<and> str_contains ''grep'' command \<longrightarrow>
      grep_to_rg stdin = Exit 0 (Some (rewrite_response (str_replace ''grep'' ''rg'' command)))
      \<and> command = str_join ''grep'' (str_split ''grep'' command)
      \<and> str_replace ''grep'' ''rg'' command = str_join ''rg'' (str_split ''grep'' command)
      \<and> (\<forall>seg \<in> set (str_split ''grep'' command). \<not> str_contains ''grep'' seg)
      \<and> length (str_split ''grep'' command) = Suc (count_occurrences ''grep'' command))
   \<and> str_replace ''grep'' ''rg'' ''grepfoo'' = ''rgfoo''
   \<and> (\<not> (\<exists>c. bash_command stdin = Some c \<and> str_contains ''grep'' c) \<longrightarrow>
        stdout_of (grep_to_rg stdin) = None)
   \<and> (bash_command stdin = Some command \<and> \<not> str_contains ''grep'' command \<longrightarrow>
        grep_to_rg stdin = Exit 0 None)
   \<and> (py_get input_data ''tool_name'' JNull = Inr tool_name \<and> tool_name \<noteq> JStr ''Bash'' \<longrightarrow>
        grep_to_rg (Some input_data) = Exit 0 None)"
proof -
  have a: "bash_command stdin = Some command \<and> str_contains ''grep'' command \<longrightarrow>
      grep_to_rg stdin = Exit 0 (Some (rewrite_response (str_replace ''grep'' ''rg'' command)))
      \<and> command = str_join ''grep'' (str_split ''grep'' command)
      \<and> str_replace ''grep'' ''rg'' command = str_join ''rg'' (str_split ''grep'' command)
      \<and> (\<forall>seg \<in> set (str_split ''grep'' command). \<not> str_contains ''grep'' seg)
      \<and> length (str_split ''grep'' command) = Suc (count_occurrences ''grep'' command)"
    using str_split_clean [of "''grep''" _ command]
    by (simp add: grep_to_rg_bash str_join_split str_replace_split str_split_grep_count)
  have b: "str_replace ''grep'' ''rg'' ''grepfoo'' = ''rgfoo''" by code_simp
  have c: "\<not> (\<exists>c. bash_command stdin = Some c \<and> str_contains ''grep'' c) \<longrightarrow>
        stdout_of (grep_to_rg stdin) = None"
    using grep_to_rg_output [of stdin] by (cases "stdout_of (grep_to_rg stdin)") auto
  have d: "bash_command stdin = Some command \<and> \<not> str_contains ''grep'' command \<longrightarrow>
        grep_to_rg stdin = Exit 0 None"
    by (simp add: grep_to_rg_bash)
  have e: "py_get input_data ''tool_name'' JNull = Inr tool_name \<and> tool_name \<noteq> JStr ''Bash'' \<longrightarrow>
        grep_to_rg (Some input_data) = Exit 0 None"
    by (simp add: grep_to_rg_def)
  from a b c d e show ?thesis by blast
qed

theorem grep_rewriter_witness:
  "bash_command (bash_input ''ps aux | egrep -c grepfoo'') = Some ''ps aux | egrep -c grepfoo''
   \<and> str_contains ''grep'' ''ps aux | egrep -c grepfoo''
   \<and> grep_to_rg (bash_input ''ps aux | egrep -c grepfoo'')
       = Exit 0 (Some (rewrite_response ''ps aux | erg -c rgfoo''))
   \<and> str_split ''grep'' ''ps aux | egrep -c grepfoo'' = [''ps aux | e'', '' -c '', ''foo'']
   \<and> count_occurrences ''grep'' ''ps aux | egrep -c grepfoo'' = 2
   \<and> \<not> (\<exists>c. bash_command (bash_input ''ls -la'') = Some c \<and> str_contains ''grep'' c)
   \<and> grep_to_rg (bash_input ''ls -la'') = Exit 0 None
   \<and> py_get (JObj [(''tool_name'', JStr ''Read'')]) ''tool_name'' JNull = Inr (JStr ''Read'')
   \<and> grep_to_rg (Some (JObj [(''tool_name'', JStr ''Read'')])) = Exit 0 None"
proof -
  have h1: "bash_command (bash_input ''ps aux | egrep -c grepfoo'')
      = Some ''ps aux | egrep -c grepfoo''" by simp
  have h2: "str_contains ''grep'' ''ps aux | egrep -c grepfoo''" by code_simp
  have h3: "str_replace ''grep'' ''rg'' ''ps aux | egrep -c grepfoo'' = ''ps aux | erg -c rgfoo''"
    by code_simp
  have h4: "str_split ''grep'' ''ps aux | egrep -c grepfoo'' = [''ps aux | e'', '' -c '', ''foo'']"
    by code_simp
  have h5: "count_occurrences ''grep'' ''ps aux | egrep -c grepfoo'' = 2" by code_simp
  have h6: "\<not> str_contains ''grep'' ''ls -la''" by code_simp
  have h7: "bash_command (bash_input ''ls -la'') = Some ''ls -la''" by simp
  have h8: "py_get (JObj [(''tool_name'', JStr ''Read'')]) ''tool_name'' JNull
      = Inr (JStr ''Read'')" by simp
  from grep_rewriter [of "bash_input ''ps aux | egrep -c grepfoo''"
      "''ps aux | egrep -c grepfoo''" "JObj [(''tool_name'', JStr ''Read'')]" "JStr ''Read''"]
    h1 h2
  have p1: "grep_to_rg (bash_input ''ps aux | egrep -c grepfoo'')
       = Exit 0 (Some (rewrite_response ''ps aux | erg -c rgfoo''))"
    and p3: "grep_to_rg (Some (JObj [(''tool_name'', JStr ''Read'')])) = Exit 0 None"
    by (simp_all add: h3)
  from grep_rewriter [of "bash_input ''ls -la''" "''ls -la''" JNull JNull] h6 h7
  have p2: "grep_to_rg (bash_input ''ls -la'') = Exit 0 None" by simp
  from h1 h2 h4 h5 h6 h7 h8 p1 p2 p3 show ?thesis by simp
qed

subsection \<open>Test runner: classification and scope\<close>

lemma is_test_file_True: "fst (is_test_file p) \<Longrightarrow> is_test_file p = (True, snd (is_test_file p))"
  by (cases "is_test_file p") auto

lemma is_test_file_False: "\<not> fst (is_test_file p) \<Longrightarrow> is_test_file p = (False, snd (is_test_file p))"
  by (cases "is_test_file p") auto

lemma test_language_named:
  "fst (test_language table f) \<Longrightarrow> snd (test_language table f) \<in> Some ` fst ` set table"
  by (induction table) (auto split: if_splits)

lemma classify_filter:
  "classify isf file_paths (test_files, language) =
     (test_files @ classified isf file_paths,
      if language = None
      then (case classified isf file_paths of [] \<Rightarrow> None | f # _ \<Rightarrow> snd (is_test_file f))
      else language)"
proof (induction file_paths arbitrary: test_files language)
  case Nil
  then show ?case by (simp add: classified_def)
next
  case (Cons p ps)
  obtain b l where it: "is_test_file p = (b, l)" by (cases "is_test_file p")
  have "b \<Longrightarrow> l \<noteq> None"
    using test_language_named [of TEST_PATTERNS p] it by (auto simp: is_test_file_def)
  then show ?case
    using Cons by (cases b) (auto simp: classified_def it)
qed

lemma test_language_find:
  "test_language table file_path =
     (case find (\<lambda>(language, patterns). list_ex (\<lambda>p. re_search p file_path) patterns) table of
        None \<Rightarrow> (False, None)
      | Some (language, patterns) \<Rightarrow> (True, Some language))"
  by (induction table) auto

lemma is_test_file_languages: "fst (is_test_file f) \<Longrightarrow> snd (is_test_file f) \<in> languages"
  using test_language_named [of TEST_PATTERNS f]
  by (simp add: is_test_file_def) (auto simp: TEST_PATTERNS_def languages_def)

lemma detect_frameworks:
  "language \<in> languages \<Longrightarrow>
   \<exists>test_command. detect_test_framework ex language project_dir = Some test_command
     \<and> test_command \<in> frameworks"
  by (auto simp: detect_test_framework_def languages_def frameworks_def)

lemma test_cmd_pytest:
  "test_cmd ''pytest'' fs d =
     Inr (if length fs \<le> 3 then ''cd '' @ d @ '' && pytest '' @ str_join '' '' fs @ '' -v''
          else full_suite ''pytest'' d)"
  by (simp add: test_cmd_def full_suite_def)

lemma test_cmd_unittest:
  "test_cmd ''python -m unittest'' fs d = Inr (full_suite ''python -m unittest'' d)"
  by (simp add: test_cmd_def full_suite_def)

lemma test_cmd_npm:
  "test_cmd ''npm test'' (f # fs) d =
     Inr (if length (f # fs) \<le> 3
          then ''cd '' @ d @ '' && npm test -- --testPathPattern='' @ [CHR 0x22] @ f @ [CHR 0x22]
          else full_suite ''npm test'' d)"
  by (auto simp: test_cmd_def full_suite_def)

lemma test_cmd_go:
  "test_cmd ''go test'' fs d =
     Inr (if length fs \<le> 3 then ''cd '' @ d @ '' && go test -v '' @ str_join '' '' fs
          else full_suite ''go test'' d)"
  by (simp add: test_cmd_def full_suite_def)

text \<open>\<^verbatim>\<open>'go test' in 'cargo test'\<close> holds, and the branch for Go comes first.\<close>

lemma test_cmd_cargo:
  "test_cmd ''cargo test'' fs d =
     Inr (if length fs \<le> 3 then ''cd '' @ d @ '' && go test -v '' @ str_join '' '' fs
          else full_suite ''cargo test'' d)"
  by (simp add: test_cmd_def full_suite_def)

lemma test_runner_unfold:
  assumes "py_get input_data ''tool_name'' (JStr []) = Inr tool_name"
    and "tool_name = JStr ''Edit'' \<or> tool_name = JStr ''Write''"
    and "CLAUDE_FILE_PATHS env = Some fps" and "fps \<noteq> []"
  shows "test_runner env (Some input_data) =
     (let test_files = classified (isfile env) (parse_file_paths fps);
          project_dir = (case CLAUDE_PROJECT_DIR env of None \<Rightarrow> getcwd env | Some v \<Rightarrow> v)
      in if test_files = [] then Exit 0 no_effect
         else
           (case detect_test_framework (path_exists env) (snd (is_test_file (hd test_files)))
                   project_dir of
              None \<Rightarrow> Exit 0 \<lparr>executed = [], diags = [NoFramework]\<rparr>
            | Some test_command \<Rightarrow>
                if test_command = [] then Exit 0 \<lparr>executed = [], diags = [NoFramework]\<rparr>
                else
                  (case run_tests (shell env) test_command test_files project_dir of
                     Inl e \<Rightarrow> Raised e
                   | Inr eff \<Rightarrow> Exit 0 eff)))"
  using assms
  by (auto simp: test_runner_def classify_filter Let_def split: list.splits)
lemma classified_test_file: "f \<in> set (classified isf ps) \<Longrightarrow> fst (is_test_file f)"
  by (simp add: classified_def)

lemma test_cmd_total:
  assumes "test_command \<in> frameworks"
  shows "\<exists>cmd. test_cmd test_command (f # fs) d = Inr cmd"
  using assms test_cmd_pytest [of "f # fs" d] test_cmd_unittest [of "f # fs" d]
    test_cmd_npm [of f fs d] test_cmd_go [of "f # fs" d] test_cmd_cargo [of "f # fs" d]
  unfolding frameworks_def by (elim insertE emptyE) simp_all

lemma test_cmd_big:
  "3 < length fs \<Longrightarrow> test_cmd test_command fs d = Inr (''cd '' @ d @ '' && '' @ test_command)"
  by (simp add: test_cmd_def)

text \<open>A run that reaches the shell: which framework, which command line.\<close>

lemma test_runner_runs:
  assumes "py_get input_data ''tool_name'' (JStr []) = Inr tool_name"
    and "tool_name = JStr ''Edit'' \<or> tool_name = JStr ''Write''"
    and "CLAUDE_FILE_PATHS env = Some fps" and "fps \<noteq> []"
    and "classified (isfile env) (parse_file_paths fps) = f # fs"
    and "project_dir = (case CLAUDE_PROJECT_DIR env of None \<Rightarrow> getcwd env | Some v \<Rightarrow> v)"
  shows "\<exists>test_command cmd.
      detect_test_framework (path_exists env) (snd (is_test_file f)) project_dir = Some test_command
    \<and> test_command \<in> frameworks
    \<and> test_cmd test_command (f # fs) project_dir = Inr cmd
    \<and> test_runner env (Some input_data) = Exit 0
         \<lparr>executed = [cmd],
          diags = [Running test_command,
report (shell env cmd)]\<rparr>"
proof -
  have "f \<in> set (classified (isfile env) (parse_file_paths fps))" using assms(5) by simp
  then have "fst (is_test_file f)" by (rule classified_test_file)
  then have "snd (is_test_file f) \<in> languages"
    by (rule is_test_file_languages)
  from detect_frameworks [OF this, of "path_exists env" project_dir]
  obtain test_command where
    d: "detect_test_framework (path_exists env) (snd (is_test_file f)) project_dir = Some test_command"
    and t: "test_command \<in> frameworks"
    by (elim exE conjE)
  from test_cmd_total [OF t, of f fs project_dir]
  obtain cmd where c: "test_cmd test_command (f # fs) project_dir = Inr cmd" by (elim exE)
  from t have ne: "test_command \<noteq> []" by (auto simp: frameworks_def)
  have "test_runner env (Some input_data) = Exit 0
         \<lparr>executed = [cmd],
          diags = [Running test_command,
report (shell env cmd)]\<rparr>"
    using d c ne assms(5) assms(6)
    by (simp add: test_runner_unfold [OF assms(1-4)] run_tests_def)
  with d t c show ?thesis by (intro exI [of _ test_command] exI [of _ cmd] conjI)
qed

lemma test_runner_nothing:
  assumes "py_get input_data ''tool_name'' (JStr []) = Inr tool_name"
    and "\<forall>p \<in> set (parse_file_paths (case CLAUDE_FILE_PATHS env of None \<Rightarrow> [] | Some v \<Rightarrow> v)).
           isfile env p \<longrightarrow> \<not> fst (is_test_file p)"
  shows "test_runner env (Some input_data) = Exit 0 no_effect"
proof -
  have "classified (isfile env)
          (parse_file_paths (case CLAUDE_FILE_PATHS env of None \<Rightarrow> [] | Some v \<Rightarrow> v)) = []"
    using assms(2) by (auto simp: classified_def filter_empty_conv)
  then show ?thesis
    using assms(1)
    by (auto simp: test_runner_def classify_filter Let_def split: option.splits)
qed

subsection \<open>Claims on the test runner\<close>

text \<open>
  C1, as amended. When the hook reaches the shell, it runs exactly one command line,
  built from the framework detected for the language of the first classified file. With
  more than three classified files the command is the unscoped one of that framework.
  With at most three classified files: \<open>pytest\<close> gets all the classified paths and
  \<open>-v\<close>; \<open>go test\<close> gets \<open>-v\<close> and all the classified paths; \<open>npm test\<close> gets a path
  pattern made of the first classified path only; \<open>python -m unittest\<close>, the fallback for
  Python without a pytest configuration, is run unscoped. (What is run for at most three
  Rust files is not part of this statement.)
\<close>

theorem test_runner_scope_amended:
  assumes "py_get input_data ''tool_name'' (JStr []) = Inr tool_name"
    and "tool_name = JStr ''Edit'' \<or> tool_name = JStr ''Write''"
    and "CLAUDE_FILE_PATHS env = Some fps" and "fps \<noteq> []"
    and "test_files = classified (isfile env) (parse_file_paths fps)" and "test_files \<noteq> []"
    and "project_dir = (case CLAUDE_PROJECT_DIR env of None \<Rightarrow> getcwd env | Some v \<Rightarrow> v)"
  shows "\<exists>test_command cmd.
      detect_test_framework (path_exists env) (snd (is_test_file (hd test_files))) project_dir
        = Some test_command
    \<and> test_command \<in> frameworks
    \<and> executed_by (test_runner env (Some input_data)) = [cmd]
    \<and> (3 < length test_files \<longrightarrow> cmd = ''cd '' @ project_dir @ '' && '' @ test_command)
    \<and> (length test_files \<le> 3 \<longrightarrow>
          (test_command = ''pytest'' \<longrightarrow>
             cmd = ''cd '' @ project_dir @ '' && pytest '' @ str_join '' '' test_files @ '' -v'')
        \<and> (test_command = ''go test'' \<longrightarrow>
             cmd = ''cd '' @ project_dir @ '' && go test -v '' @ str_join '' '' test_files)
        \<and> (test_command = ''npm test'' \<longrightarrow>
             cmd = ''cd '' @ project_dir @ '' && npm test -- --testPathPattern=''
                     @ [CHR 0x22] @ hd test_files @ [CHR 0x22])
        \<and> (test_command = ''python -m unittest'' \<longrightarrow>
             cmd = ''cd '' @ project_dir @ '' && python -m unittest''))"
proof -
  obtain f fs where tf: "test_files = f # fs" using assms(6) by (cases test_files) auto
  from test_runner_runs [OF assms(1-4) tf [unfolded assms(5)] assms(7)]
  obtain test_command cmd where
    d: "detect_test_framework (path_exists env) (snd (is_test_file f)) project_dir = Some test_command"
    and t: "test_command \<in> frameworks"
    and c: "test_cmd test_command (f # fs) project_dir = Inr cmd"
    and r: "executed_by (test_runner env (Some input_data)) = [cmd]"
    by (elim exE conjE) simp
  have big: "3 < length test_files \<longrightarrow> cmd = ''cd '' @ project_dir @ '' && '' @ test_command"
    using c test_cmd_big [of "f # fs" test_command project_dir] by (simp add: tf)
  have p: "length test_files \<le> 3 \<longrightarrow> test_command = ''pytest'' \<longrightarrow>
      cmd = ''cd '' @ project_dir @ '' && pytest '' @ str_join '' '' test_files @ '' -v''"
    using c test_cmd_pytest [of "f # fs" project_dir] by (auto simp: tf)
  have g: "length test_files \<le> 3 \<longrightarrow> test_command = ''go test'' \<longrightarrow>
      cmd = ''cd '' @ project_dir @ '' && go test -v '' @ str_join '' '' test_files"
    using c test_cmd_go [of "f # fs" project_dir] by (auto simp: tf)
  have n: "length test_files \<le> 3 \<longrightarrow> test_command = ''npm test'' \<longrightarrow>
      cmd = ''cd '' @ project_dir @ '' && npm test -- --testPathPattern=''
                     @ [CHR 0x22] @ hd test_files @ [CHR 0x22]"
    using c test_cmd_npm [of f fs project_dir] by (auto simp: tf)
  have u: "test_command = ''python -m unittest'' \<longrightarrow>
      cmd = ''cd '' @ project_dir @ '' && python -m unittest''"
    using c test_cmd_unittest [of "f # fs" project_dir] by (auto simp: full_suite_def)
  from d have d': "detect_test_framework (path_exists env) (snd (is_test_file (hd test_files)))
      project_dir = Some test_command" by (simp add: tf)
  have small: "length test_files \<le> 3 \<longrightarrow>
          (test_command = ''pytest'' \<longrightarrow>
             cmd = ''cd '' @ project_dir @ '' && pytest '' @ str_join '' '' test_files @ '' -v'')
        \<and> (test_command = ''go test'' \<longrightarrow>
             cmd = ''cd '' @ project_dir @ '' && go test -v '' @ str_join '' '' test_files)
        \<and> (test_command = ''npm test'' \<longrightarrow>
             cmd = ''cd '' @ project_dir @ '' && npm test -- --testPathPattern=''
                     @ [CHR 0x22] @ hd test_files @ [CHR 0x22])
        \<and> (test_command = ''python -m unittest'' \<longrightarrow>
             cmd = ''cd '' @ project_dir @ '' && python -m unittest'')"
    using p g n u by simp
  show ?thesis
    by (intro exI [of _ test_command] exI [of _ cmd] conjI d' t r big small)
qed
theorem test_runner_scope_amended_witness:
  "py_get edit_input ''tool_name'' (JStr []) = Inr (JStr ''Edit'')
   \<and> CLAUDE_FILE_PATHS (sample_env ''tests/test_a.py, tests/test_b.py,src/util.py''
         [''/proj/pytest.ini'']) = Some ''tests/test_a.py, tests/test_b.py,src/util.py''
   \<and> classified (isfile (sample_env ''tests/test_a.py, tests/test_b.py,src/util.py''
         [''/proj/pytest.ini'']))
         (parse_file_paths ''tests/test_a.py, tests/test_b.py,src/util.py'')
       = [''tests/test_a.py'', ''tests/test_b.py'']
   \<and> executed_by (test_runner (sample_env ''tests/test_a.py, tests/test_b.py,src/util.py''
         [''/proj/pytest.ini'']) (Some edit_input))
       = [''cd /proj && pytest tests/test_a.py tests/test_b.py -v'']"
proof -
  let ?fps = "''tests/test_a.py, tests/test_b.py,src/util.py''"
  let ?env = "sample_env ?fps [''/proj/pytest.ini'']"
  let ?tfs = "[''tests/test_a.py'', ''tests/test_b.py'']"
  have h1: "py_get edit_input ''tool_name'' (JStr []) = Inr (JStr ''Edit'')"
    by (simp add: edit_input_def)
  have h2: "JStr ''Edit'' = JStr ''Edit'' \<or> JStr ''Edit'' = JStr ''Write''" by simp
  have h3: "CLAUDE_FILE_PATHS ?env = Some ?fps" by (simp add: sample_env_def)
  have h4: "?fps \<noteq> []" by simp
  have h5: "?tfs = classified (isfile ?env) (parse_file_paths ?fps)" by code_simp
  have h6: "?tfs \<noteq> []" by simp
  have h7: "''/proj'' = (case CLAUDE_PROJECT_DIR ?env of None \<Rightarrow> getcwd ?env | Some v \<Rightarrow> v)"
    by (simp add: sample_env_def)
  have d: "detect_test_framework (path_exists ?env) (snd (is_test_file (hd ?tfs))) ''/proj''
      = Some ''pytest''" by code_simp
  from test_runner_scope_amended [OF h1 h2 h3 h4 h5 h6 h7] obtain test_command cmd where
    d': "detect_test_framework (path_exists ?env) (snd (is_test_file (hd ?tfs))) ''/proj''
        = Some test_command"
    and r: "executed_by (test_runner ?env (Some edit_input)) = [cmd]"
    and s: "length ?tfs \<le> 3 \<longrightarrow> test_command = ''pytest'' \<longrightarrow>
             cmd = ''cd '' @ ''/proj'' @ '' && pytest '' @ str_join '' '' ?tfs @ '' -v''"
    by (elim exE conjE) simp
  from d d' have "test_command = ''pytest''" by simp
  with s have "cmd = ''cd /proj && pytest tests/test_a.py tests/test_b.py -v''" by simp
  with r have "executed_by (test_runner ?env (Some edit_input))
      = [''cd /proj && pytest tests/test_a.py tests/test_b.py -v'']" by simp
  with h1 h3 h5 show ?thesis by simp
qed

text \<open>
  C1 as stated fails. Three touched Python test files in a project without
  \<open>pytest.ini\<close> and \<open>pyproject.toml\<close>: the command is the unscoped
  \<open>python -m unittest\<close> and names none of the files. One touched Rust test file: the
  command is not \<open>cargo test\<close>.
\<close>

theorem test_runner_scope_counterexample:
  "classified (isfile (sample_env ''tests/test_a.py,tests/test_b.py,tests/test_c.py'' []))
       (parse_file_paths ''tests/test_a.py,tests/test_b.py,tests/test_c.py'')
     = [''tests/test_a.py'', ''tests/test_b.py'', ''tests/test_c.py'']
   \<and> executed_by (test_runner
         (sample_env ''tests/test_a.py,tests/test_b.py,tests/test_c.py'' []) (Some edit_input))
       = [''cd /proj && python -m unittest'']
   \<and> \<not> str_contains ''tests/test_a.py'' ''cd /proj && python -m unittest''
   \<and> executed_by (test_runner (sample_env ''tests/api.rs'' []) (Some edit_input))
       = [''cd /proj && go test -v tests/api.rs'']"
proof -
  have a: "classified (isfile (sample_env ''tests/test_a.py,tests/test_b.py,tests/test_c.py'' []))
       (parse_file_paths ''tests/test_a.py,tests/test_b.py,tests/test_c.py'')
     = [''tests/test_a.py'', ''tests/test_b.py'', ''tests/test_c.py'']" by code_simp
  have b: "executed_by (test_runner
         (sample_env ''tests/test_a.py,tests/test_b.py,tests/test_c.py'' []) (Some edit_input))
       = [''cd /proj && python -m unittest'']" by code_simp
  have c: "\<not> str_contains ''tests/test_a.py'' ''cd /proj && python -m unittest''" by code_simp
  have d: "executed_by (test_runner (sample_env ''tests/api.rs'' []) (Some edit_input))
       = [''cd /proj && go test -v tests/api.rs'']" by code_simp
  from a b c d show ?thesis by simp
qed

text \<open>
  C9. The languages are tried in the order Python, JavaScript, Go, Rust, and a file
  gets the first language one of whose patterns is found in its path. The loop over the
  touched files keeps those that exist and are test files, in their order, and the
  language of the run is the language of the first of them; the framework and the
  command of the run are those of that language. If no existing touched file is a test
  file, the hook exits with status 0 without running or writing anything.
\<close>

theorem test_runner_classification:
  "map fst TEST_PATTERNS = [''python'', ''javascript'', ''go'', ''rust'']
   \<and> is_test_file file_path =
       (case find (\<lambda>(language, patterns). list_ex (\<lambda>p. re_search p file_path) patterns)
               TEST_PATTERNS of
          None \<Rightarrow> (False, None)
        | Some (language, patterns) \<Rightarrow> (True, Some language))
   \<and> classify isf file_paths ([], None) =
       (classified isf file_paths,
        case classified isf file_paths of [] \<Rightarrow> None | f # _ \<Rightarrow> snd (is_test_file f))
   \<and> (py_get input_data ''tool_name'' (JStr []) = Inr tool_name
        \<and> (tool_name = JStr ''Edit'' \<or> tool_name = JStr ''Write'')
        \<and> CLAUDE_FILE_PATHS env = Some fps \<and> fps \<noteq> []
        \<and> classified (isfile env) (parse_file_paths fps) = f # fs
        \<and> project_dir = (case CLAUDE_PROJECT_DIR env of None \<Rightarrow> getcwd env | Some v \<Rightarrow> v)
      \<longrightarrow> (\<exists>test_command cmd.
             detect_test_framework (path_exists env) (snd (is_test_file f)) project_dir
               = Some test_command
           \<and> test_cmd test_command (f # fs) project_dir = Inr cmd
           \<and> test_runner env (Some input_data) = Exit 0
                \<lparr>executed = [cmd], diags = [Running test_command, report (shell env cmd)]\<rparr>))
   \<and> (py_get input_data ''tool_name'' (JStr []) = Inr tool_name
        \<and> (\<forall>p \<in> set (parse_file_paths (case CLAUDE_FILE_PATHS env of None \<Rightarrow> [] | Some v \<Rightarrow> v)).
              isfile env p \<longrightarrow> \<not> fst (is_test_file p))
      \<longrightarrow> test_runner env (Some input_data) = Exit 0 no_effect)"
proof -
  have a: "map fst TEST_PATTERNS = [''python'', ''javascript'', ''go'', ''rust'']"
    by (simp add: TEST_PATTERNS_def)
  have b: "is_test_file file_path =
       (case find (\<lambda>(language, patterns). list_ex (\<lambda>p. re_search p file_path) patterns)
               TEST_PATTERNS of
          None \<Rightarrow> (False, None)
        | Some (language, patterns) \<Rightarrow> (True, Some language))"
    unfolding is_test_file_def by (rule test_language_find)
  have c: "classify isf file_paths ([], None) =
       (classified isf file_paths,
        case classified isf file_paths of [] \<Rightarrow> None | f # _ \<Rightarrow> snd (is_test_file f))"
    by (simp add: classify_filter)
  have d: "py_get input_data ''tool_name'' (JStr []) = Inr tool_name
        \<and> (tool_name = JStr ''Edit'' \<or> tool_name = JStr ''Write'')
        \<and> CLAUDE_FILE_PATHS env = Some fps \<and> fps \<noteq> []
        \<and> classified (isfile env) (parse_file_paths fps) = f # fs
        \<and> project_dir = (case CLAUDE_PROJECT_DIR env of None \<Rightarrow> getcwd env | Some v \<Rightarrow> v)
      \<longrightarrow> (\<exists>test_command cmd.
             detect_test_framework (path_exists env) (snd (is_test_file f)) project_dir
               = Some test_command
           \<and> test_cmd test_command (f # fs) project_dir = Inr cmd
           \<and> test_runner env (Some input_data) = Exit 0
                \<lparr>executed = [cmd], diags = [Running test_command, report (shell env cmd)]\<rparr>)"
  proof (intro impI, elim conjE)
    assume h: "py_get input_data ''tool_name'' (JStr []) = Inr tool_name"
      "tool_name = JStr ''Edit'' \<or> tool_name = JStr ''Write''"
      "CLAUDE_FILE_PATHS env = Some fps" "fps \<noteq> []"
      "classified (isfile env) (parse_file_paths fps) = f # fs"
      "project_dir = (case CLAUDE_PROJECT_DIR env of None \<Rightarrow> getcwd env | Some v \<Rightarrow> v)"
    from test_runner_runs [OF h] obtain test_command cmd where
      "detect_test_framework (path_exists env) (snd (is_test_file f)) project_dir
         = Some test_command"
      "test_cmd test_command (f # fs) project_dir = Inr cmd"
      "test_runner env (Some input_data) = Exit 0
         \<lparr>executed = [cmd], diags = [Running test_command, report (shell env cmd)]\<rparr>"
      by (elim exE conjE)
    then show "\<exists>test_command cmd.
             detect_test_framework (path_exists env) (snd (is_test_file f)) project_dir
               = Some test_command
           \<and> test_cmd test_command (f # fs) project_dir = Inr cmd
           \<and> test_runner env (Some input_data) = Exit 0
                \<lparr>executed = [cmd], diags = [Running test_command, report (shell env cmd)]\<rparr>"
      by (intro exI [of _ test_command] exI [of _ cmd] conjI)
  qed
  have e: "py_get input_data ''tool_name'' (JStr []) = Inr tool_name
        \<and> (\<forall>p \<in> set (parse_file_paths (case CLAUDE_FILE_PATHS env of None \<Rightarrow> [] | Some v \<Rightarrow> v)).
              isfile env p \<longrightarrow> \<not> fst (is_test_file p))
      \<longrightarrow> test_runner env (Some input_data) = Exit 0 no_effect"
    using test_runner_nothing [of input_data tool_name env] by simp
  show ?thesis by (intro conjI a b c d e)
qed

theorem test_runner_classification_witness:
  "py_get edit_input ''tool_name'' (JStr []) = Inr (JStr ''Edit'')
   \<and> classified (isfile (sample_env ''README.md, src/x_test.go ,tests/test_a.py'' []))
        (parse_file_paths ''README.md, src/x_test.go ,tests/test_a.py'')
       = [''src/x_test.go'', ''tests/test_a.py'']
   \<and> is_test_file ''src/x_test.go'' = (True, Some ''go'')
   \<and> test_runner (sample_env ''README.md, src/x_test.go ,tests/test_a.py'' []) (Some edit_input)
       = Exit 0 \<lparr>executed = [''cd /proj && go test -v src/x_test.go tests/test_a.py''],
                 diags = [Running ''go test'', AllPassed]\<rparr>
   \<and> classified (isfile (sample_env ''README.md,src/main.py'' []))
        (parse_file_paths ''README.md,src/main.py'') = []
   \<and> test_runner (sample_env ''README.md,src/main.py'' []) (Some edit_input) = Exit 0 no_effect"
proof -
  let ?fps = "''README.md, src/x_test.go ,tests/test_a.py''"
  let ?env = "sample_env ?fps []"
  let ?env2 = "sample_env ''README.md,src/main.py'' []"
  have h1: "py_get edit_input ''tool_name'' (JStr []) = Inr (JStr ''Edit'')"
    by (simp add: edit_input_def)
  have h2: "JStr ''Edit'' = JStr ''Edit'' \<or> JStr ''Edit'' = JStr ''Write''" by simp
  have h3: "CLAUDE_FILE_PATHS ?env = Some ?fps" by (simp add: sample_env_def)
  have h4: "?fps \<noteq> []" by simp
  have h5: "classified (isfile ?env) (parse_file_paths ?fps) = [''src/x_test.go'', ''tests/test_a.py'']"
    by code_simp
  have h6: "''/proj'' = (case CLAUDE_PROJECT_DIR ?env of None \<Rightarrow> getcwd ?env | Some v \<Rightarrow> v)"
    by (simp add: sample_env_def)
  have h7: "\<forall>p \<in> set (parse_file_paths (case CLAUDE_FILE_PATHS ?env2 of None \<Rightarrow> [] | Some v \<Rightarrow> v)).
        isfile ?env2 p \<longrightarrow> \<not> fst (is_test_file p)"
    by code_simp
  have k1: "is_test_file ''src/x_test.go'' = (True, Some ''go'')" by code_simp
  have k2: "detect_test_framework (path_exists ?env) (Some ''go'') ''/proj'' = Some ''go test''"
    by (simp add: detect_test_framework_def)
  have k3: "test_cmd ''go test'' [''src/x_test.go'', ''tests/test_a.py''] ''/proj''
      = Inr ''cd /proj && go test -v src/x_test.go tests/test_a.py''"
    by (simp add: test_cmd_go)
  have k4: "report (shell ?env c) = AllPassed" for c
    by (simp add: sample_env_def report_def)
  note T4 = test_runner_classification [of "''src/x_test.go''" "\<lambda>p. True" "[]" edit_input
      "JStr ''Edit''" ?env ?fps "''src/x_test.go''" "[''tests/test_a.py'']" "''/proj''",
      THEN conjunct2, THEN conjunct2, THEN conjunct2, THEN conjunct1]
  have hy: "py_get edit_input ''tool_name'' (JStr []) = Inr (JStr ''Edit'')
        \<and> (JStr ''Edit'' = JStr ''Edit'' \<or> JStr ''Edit'' = JStr ''Write'')
        \<and> CLAUDE_FILE_PATHS ?env = Some ?fps \<and> ?fps \<noteq> []
        \<and> classified (isfile ?env) (parse_file_paths ?fps) = [''src/x_test.go'', ''tests/test_a.py'']
        \<and> ''/proj'' = (case CLAUDE_PROJECT_DIR ?env of None \<Rightarrow> getcwd ?env | Some v \<Rightarrow> v)"
    by (intro conjI h1 h2 h3 h4 h5 h6)
  from mp [OF T4 hy] obtain test_command cmd where
    o1: "detect_test_framework (path_exists ?env) (snd (is_test_file ''src/x_test.go'')) ''/proj''
       = Some test_command"
    and o2: "test_cmd test_command [''src/x_test.go'', ''tests/test_a.py''] ''/proj'' = Inr cmd"
    and o3: "test_runner ?env (Some edit_input) = Exit 0
       \<lparr>executed = [cmd], diags = [Running test_command, report (shell ?env cmd)]\<rparr>"
    by (elim exE conjE)
  from o1 k1 k2 have tc: "test_command = ''go test''" by simp
  from o2 k3 tc have cm: "cmd = ''cd /proj && go test -v src/x_test.go tests/test_a.py''" by simp
  have p1: "test_runner ?env (Some edit_input)
       = Exit 0 \<lparr>executed = [''cd /proj && go test -v src/x_test.go tests/test_a.py''],
                 diags = [Running ''go test'', AllPassed]\<rparr>"
    using o3 by (simp add: tc cm k4)
  note T5 = test_runner_classification [of "''src/x_test.go''" "\<lambda>p. True" "[]" edit_input
      "JStr ''Edit''" ?env2 "[]" "[]" "[]" "[]",
      THEN conjunct2, THEN conjunct2, THEN conjunct2, THEN conjunct2]
  have p2: "test_runner ?env2 (Some edit_input) = Exit 0 no_effect"
    by (rule mp [OF T5]) (intro conjI h1 h7)
  have h8: "classified (isfile ?env2) (parse_file_paths ''README.md,src/main.py'') = []"
    by code_simp
  from h1 h5 k1 p1 h8 p2 show ?thesis by (intro conjI)
qed

subsection \<open>Tool-call logger\<close>

lemma bind_storable: "storable v \<Longrightarrow> \<exists>sv. bind v = Inr sv \<and> (sv = Null \<longleftrightarrow> v = JNull)"
  by (cases v) (auto simp: storable_def)

lemma text_column_Some: "sv \<noteq> Null \<Longrightarrow> \<exists>t. text_column sv = Some t"
  by (cases sv) auto

lemma scalar_field_get:
  "scalar_field ti k \<Longrightarrow> storable (case map_of ti k of None \<Rightarrow> JNull | Some v \<Rightarrow> v)"
  by (auto simp: scalar_field_def storable_def split: option.splits)

lemma stored_text_get:
  "bind (case map_of ti k of None \<Rightarrow> JNull | Some v \<Rightarrow> v) = Inr sv \<Longrightarrow>
   text_column sv = stored_text (map_of ti k)"
  by (auto simp: stored_text_def split: option.splits)

lemma well_formed_call_parts:
  assumes "well_formed_call input_data"
  shows "\<exists>tool_name. py_get input_data ''tool_name'' (JStr ''unknown'') = Inr tool_name
           \<and> storable tool_name \<and> tool_name \<noteq> JNull"
    and "py_get input_data ''tool_input'' (JObj []) = Inr (JObj (tool_input_of input_data))"
    and "scalar_field (tool_input_of input_data) ''file_path''"
    and "scalar_field (tool_input_of input_data) ''command''"
    and "scalar_field (tool_input_of input_data) ''pattern''"
    and "scalar_field (tool_input_of input_data) ''description''"
proof -
  from assms obtain obj where obj: "input_data = JObj obj"
    by (cases input_data) (simp_all add: well_formed_call_def)
  from assms have
    tn: "case map_of obj ''tool_name'' of None \<Rightarrow> True | Some v \<Rightarrow> storable v \<and> v \<noteq> JNull"
    and ti: "case map_of obj ''tool_input'' of
                None \<Rightarrow> True
              | Some (JObj ti) \<Rightarrow>
                  scalar_field ti ''file_path'' \<and> scalar_field ti ''command''
                  \<and> scalar_field ti ''pattern'' \<and> scalar_field ti ''description''
              | Some _ \<Rightarrow> False"
    by (simp_all add: well_formed_call_def obj)
  show "\<exists>tool_name. py_get input_data ''tool_name'' (JStr ''unknown'') = Inr tool_name
           \<and> storable tool_name \<and> tool_name \<noteq> JNull"
    using tn by (cases "map_of obj ''tool_name''") (simp_all add: obj storable_def)
  have "py_get input_data ''tool_input'' (JObj []) = Inr (JObj (tool_input_of input_data))
      \<and> scalar_field (tool_input_of input_data) ''file_path''
      \<and> scalar_field (tool_input_of input_data) ''command''
      \<and> scalar_field (tool_input_of input_data) ''pattern''
      \<and> scalar_field (tool_input_of input_data) ''description''"
  proof (cases "map_of obj ''tool_input''")
    case None
    then show ?thesis by (simp add: obj tool_input_of_def scalar_field_def)
  next
    case (Some v)
    with ti show ?thesis
      by (cases v) (simp_all add: obj tool_input_of_def)
  qed
  then show "py_get input_data ''tool_input'' (JObj []) = Inr (JObj (tool_input_of input_data))"
    and "scalar_field (tool_input_of input_data) ''file_path''"
    and "scalar_field (tool_input_of input_data) ''command''"
    and "scalar_field (tool_input_of input_data) ''pattern''"
    and "scalar_field (tool_input_of input_data) ''description''"
    by simp_all
qed

lemma command_tracker_inserts:
  assumes "well_formed_call input_data" and "makedirs_ok env"
  shows "\<exists>row. command_tracker env (Some input_data) (Some rows) = Exit 0 (rows @ [row])
      \<and> tc_session_id row = getenv (CLAUDE_SESSION_ID env) ''unknown''
      \<and> tc_timestamp row = now env
      \<and> tc_file_path row = stored_text (map_of (tool_input_of input_data) ''file_path'')
      \<and> tc_command row = stored_text (map_of (tool_input_of input_data) ''command'')
      \<and> tc_pattern row = stored_text (map_of (tool_input_of input_data) ''pattern'')
      \<and> tc_description row = stored_text (map_of (tool_input_of input_data) ''description'')
      \<and> tc_params_json row = JObj (tool_input_of input_data)
      \<and> tc_success row = 1"
proof -
  let ?ti = "tool_input_of input_data"
  let ?get = "\<lambda>k. case map_of ?ti k of None \<Rightarrow> JNull | Some v \<Rightarrow> v"
  from well_formed_call_parts(1) [OF assms(1)] obtain tool_name where
    tn: "py_get input_data ''tool_name'' (JStr ''unknown'') = Inr tool_name"
    and ts: "storable tool_name" and tnn: "tool_name \<noteq> JNull" by (elim exE conjE)
  note ti = well_formed_call_parts(2) [OF assms(1)]
  from bind_storable [OF ts] tnn obtain tv where tv: "bind tool_name = Inr tv" "tv \<noteq> Null"
    by auto
  from text_column_Some [OF tv(2)] obtain tt where tt: "text_column tv = Some tt" by (elim exE)
  from bind_storable [OF scalar_field_get [OF well_formed_call_parts(3) [OF assms(1)]]]
  obtain v1 where v1: "bind (?get ''file_path'') = Inr v1" by (elim exE conjE)
  from bind_storable [OF scalar_field_get [OF well_formed_call_parts(4) [OF assms(1)]]]
  obtain v2 where v2: "bind (?get ''command'') = Inr v2" by (elim exE conjE)
  from bind_storable [OF scalar_field_get [OF well_formed_call_parts(5) [OF assms(1)]]]
  obtain v3 where v3: "bind (?get ''pattern'') = Inr v3" by (elim exE conjE)
  from bind_storable [OF scalar_field_get [OF well_formed_call_parts(6) [OF assms(1)]]]
  obtain v4 where v4: "bind (?get ''description'') = Inr v4" by (elim exE conjE)
  have run: "command_tracker env (Some input_data) (Some rows) = Exit 0 (rows @
       [\<lparr>tc_id = next_id (map tc_id rows),
         tc_session_id = getenv (CLAUDE_SESSION_ID env) ''unknown'',
         tc_timestamp = now env, tc_tool_type = tt,
         tc_file_path = text_column v1, tc_command = text_column v2,
         tc_pattern = text_column v3, tc_description = text_column v4,
         tc_params_json = JObj ?ti, tc_success = 1\<rparr>])"
    using assms(2) by (simp add: command_tracker_def tn ti v1 v2 v3 v4 tv tt)
  show ?thesis
    unfolding run
    by (rule exI [of _ "\<lparr>tc_id = next_id (map tc_id rows),
         tc_session_id = getenv (CLAUDE_SESSION_ID env) ''unknown'',
         tc_timestamp = now env, tc_tool_type = tt,
         tc_file_path = text_column v1, tc_command = text_column v2,
         tc_pattern = text_column v3, tc_description = text_column v4,
         tc_params_json = JObj ?ti, tc_success = 1\<rparr>"])
       (simp add: stored_text_get [OF v1] stored_text_get [OF v2] stored_text_get [OF v3]
          stored_text_get [OF v4])
qed

text \<open>The invocations of a sequence that are well-formed and belong to session \<open>sid\<close>.\<close>

lemma log_calls_append:
  assumes "\<forall>c \<in> set calls. makedirs_ok (fst c)
             \<and> getenv (CLAUDE_SESSION_ID (fst c)) ''unknown'' = sid
             \<and> (\<exists>i. snd c = Some i \<and> well_formed_call i)"
  shows "\<exists>new. log_calls calls rows = rows @ new \<and> length new = length calls
           \<and> (\<forall>r \<in> set new. tc_session_id r = sid \<and> tc_success r = 1)"
  using assms
proof (induction calls arbitrary: rows)
  case Nil
  then show ?case by simp
next
  case (Cons c calls)
  obtain env stdin where c: "c = (env, stdin)" by (cases c)
  from Cons.prems c obtain i where i: "stdin = Some i" "well_formed_call i"
    and m: "makedirs_ok env" and s: "getenv (CLAUDE_SESSION_ID env) ''unknown'' = sid"
    by auto
  from command_tracker_inserts [OF i(2) m, of rows] obtain row where
    r: "command_tracker env (Some i) (Some rows) = Exit 0 (rows @ [row])"
    and rs: "tc_session_id row = sid" and ok: "tc_success row = 1"
    using s by auto
  from Cons.IH [of "rows @ [row]"] Cons.prems obtain new where
    n: "log_calls calls (rows @ [row]) = (rows @ [row]) @ new" "length new = length calls"
      "\<forall>r \<in> set new. tc_session_id r = sid \<and> tc_success r = 1"
    by auto
  show ?case
    by (rule exI [of _ "row # new"]) (simp add: c i(1) r n rs ok)
qed
lemma rows_of_append: "rows_of sid (xs @ ys) = rows_of sid xs @ rows_of sid ys"
  by (simp add: rows_of_def)

lemma rows_of_all: "\<forall>r \<in> set new. tc_session_id r = sid \<Longrightarrow> rows_of sid new = new"
  by (simp add: rows_of_def)

subsection \<open>Claim on the tool-call logger\<close>

text \<open>
  C8. An invocation with a well-formed input (an object whose tool name and extracted
  fields are values the store takes; an integer outside the signed 64-bit range is not
  one, the script ends on it with \<^verbatim>\<open>OverflowError\<close> and stores nothing) and a store
  that can be written appends
  exactly one row to the table: its session identifier is the environment variable, or
  \<open>unknown\<close> when that is unset; its success flag is 1; each of \<open>file_path\<close>,
  \<open>command\<close>, \<open>pattern\<close>, \<open>description\<close> that is absent from \<open>tool_input\<close> is stored
  as \<open>NULL\<close>. After \<open>N\<close> such invocations with the same session identifier the table
  holds \<open>N\<close> more rows, all of that session and all with success flag 1.
\<close>

theorem tool_call_logger_inserts:
  "(well_formed_call input_data \<and> makedirs_ok env \<longrightarrow>
      (\<exists>row. command_tracker env (Some input_data) (Some rows) = Exit 0 (rows @ [row])
         \<and> tc_session_id row = (case CLAUDE_SESSION_ID env of None \<Rightarrow> ''unknown'' | Some v \<Rightarrow> v)
         \<and> tc_success row = 1
         \<and> (map_of (tool_input_of input_data) ''file_path'' = None \<longrightarrow> tc_file_path row = None)
         \<and> (map_of (tool_input_of input_data) ''command'' = None \<longrightarrow> tc_command row = None)
         \<and> (map_of (tool_input_of input_data) ''pattern'' = None \<longrightarrow> tc_pattern row = None)
         \<and> (map_of (tool_input_of input_data) ''description'' = None
               \<longrightarrow> tc_description row = None)))
   \<and> ((\<forall>c \<in> set calls. makedirs_ok (fst c)
             \<and> getenv (CLAUDE_SESSION_ID (fst c)) ''unknown'' = sid
             \<and> (\<exists>i. snd c = Some i \<and> well_formed_call i)) \<longrightarrow>
        length (rows_of sid (log_calls calls rows)) = length (rows_of sid rows) + length calls
        \<and> (\<exists>new. log_calls calls rows = rows @ new \<and> length new = length calls
              \<and> (\<forall>r \<in> set new. tc_success r = 1)))"
proof (intro conjI impI)
  assume "well_formed_call input_data \<and> makedirs_ok env"
  then have wf: "well_formed_call input_data" and m: "makedirs_ok env" by simp_all
  from command_tracker_inserts [OF wf m, of rows] obtain row where
    r: "command_tracker env (Some input_data) (Some rows) = Exit 0 (rows @ [row])"
      "tc_session_id row = getenv (CLAUDE_SESSION_ID env) ''unknown''"
      "tc_file_path row = stored_text (map_of (tool_input_of input_data) ''file_path'')"
      "tc_command row = stored_text (map_of (tool_input_of input_data) ''command'')"
      "tc_pattern row = stored_text (map_of (tool_input_of input_data) ''pattern'')"
      "tc_description row = stored_text (map_of (tool_input_of input_data) ''description'')"
      "tc_success row = 1"
    by (elim exE conjE)
  show "\<exists>row. command_tracker env (Some input_data) (Some rows) = Exit 0 (rows @ [row])
         \<and> tc_session_id row = (case CLAUDE_SESSION_ID env of None \<Rightarrow> ''unknown'' | Some v \<Rightarrow> v)
         \<and> tc_success row = 1
         \<and> (map_of (tool_input_of input_data) ''file_path'' = None \<longrightarrow> tc_file_path row = None)
         \<and> (map_of (tool_input_of input_data) ''command'' = None \<longrightarrow> tc_command row = None)
         \<and> (map_of (tool_input_of input_data) ''pattern'' = None \<longrightarrow> tc_pattern row = None)
         \<and> (map_of (tool_input_of input_data) ''description'' = None
               \<longrightarrow> tc_description row = None)"
    by (rule exI [of _ row]) (simp add: r getenv_def stored_text_def)
next
  assume a: "\<forall>c \<in> set calls. makedirs_ok (fst c)
             \<and> getenv (CLAUDE_SESSION_ID (fst c)) ''unknown'' = sid
             \<and> (\<exists>i. snd c = Some i \<and> well_formed_call i)"
  from log_calls_append [OF a, of rows] obtain new where
    n: "log_calls calls rows = rows @ new" "length new = length calls"
      "\<forall>r \<in> set new. tc_session_id r = sid \<and> tc_success r = 1"
    by (elim exE conjE)
  from n(3) have "rows_of sid new = new" by (simp add: rows_of_all)
  then show "length (rows_of sid (log_calls calls rows)) = length (rows_of sid rows) + length calls"
    by (simp add: n rows_of_append)
  show "\<exists>new. log_calls calls rows = rows @ new \<and> length new = length calls
              \<and> (\<forall>r \<in> set new. tc_success r = 1)"
    using n by (intro exI [of _ new]) simp
qed
theorem tool_call_logger_inserts_witness:
  "well_formed_call edit_call \<and> makedirs_ok no_session
   \<and> command_tracker no_session (Some edit_call) (Some []) = Exit 0
        [\<lparr>tc_id = 1, tc_session_id = ''unknown'', tc_timestamp = 212570830000,
          tc_tool_type = ''Edit'', tc_file_path = Some ''a.py'', tc_command = None,
          tc_pattern = None, tc_description = None,
          tc_params_json = JObj [(''file_path'', JStr ''a.py'')], tc_success = 1\<rparr>]
   \<and> length (rows_of ''unknown''
         (log_calls [(no_session, Some edit_call), (no_session, Some bash_call)] [])) = 2"
proof -
  have h1: "well_formed_call edit_call"
    by (simp add: well_formed_call_def edit_call_def scalar_field_def storable_def)
  have h1': "well_formed_call bash_call"
    by (simp add: well_formed_call_def bash_call_def scalar_field_def storable_def)
  have h2: "makedirs_ok no_session" by (simp add: no_session_def)
  have h3: "\<forall>c \<in> set [(no_session, Some edit_call), (no_session, Some bash_call)].
      makedirs_ok (fst c) \<and> getenv (CLAUDE_SESSION_ID (fst c)) ''unknown'' = ''unknown''
      \<and> (\<exists>i. snd c = Some i \<and> well_formed_call i)"
    using h1 h1' h2 by (simp add: getenv_def no_session_def)
  have e: "command_tracker no_session (Some edit_call) (Some []) = Exit 0
        [\<lparr>tc_id = 1, tc_session_id = ''unknown'', tc_timestamp = 212570830000,
          tc_tool_type = ''Edit'', tc_file_path = Some ''a.py'', tc_command = None,
          tc_pattern = None, tc_description = None,
          tc_params_json = JObj [(''file_path'', JStr ''a.py'')], tc_success = 1\<rparr>]"
    by (simp add: command_tracker_def no_session_def edit_call_def getenv_def next_id_def)
  note T = tool_call_logger_inserts [of edit_call no_session "[]"
      "[(no_session, Some edit_call), (no_session, Some bash_call)]" "''unknown''"]
  from T [THEN conjunct2] h3
  have "length (rows_of ''unknown''
         (log_calls [(no_session, Some edit_call), (no_session, Some bash_call)] []))
       = length (rows_of ''unknown'' []) + length [(no_session, Some edit_call), (no_session, Some bash_call)]"
    by (elim impE conjE) assumption+
  then have c: "length (rows_of ''unknown''
         (log_calls [(no_session, Some edit_call), (no_session, Some bash_call)] [])) = 2"
    by (simp add: rows_of_def)
  from h1 h2 e c show ?thesis by (intro conjI)
qed

subsection \<open>Session logger\<close>

lemma bitlen_numeral [simp]:
  "bitlen 0 = 0"
  "bitlen (Suc 0) = Suc 0"
  "bitlen (numeral k) = Suc (bitlen (numeral k div 2))"
  by (subst bitlen.simps, simp)+

lemma floor_numeral_quotient [simp]:
  "\<lfloor>(numeral a :: rat) / numeral b\<rfloor> = numeral a div numeral b"
  using floor_divide_of_int_eq [of "numeral a" "numeral b", where ?'a = rat] by simp

lemma ceiling_numeral_quotient [simp]:
  "\<lceil>(numeral a :: rat) / numeral b\<rceil> = - ((- numeral a) div numeral b)"
  using floor_divide_of_int_eq [of "- numeral a" "numeral b", where ?'a = rat]
  by (simp add: ceiling_def)

text \<open>
  The two Julian days of 2024-01-01 00:00:00 and of the second after it, and the
  products of their difference: only the second Julian day is rounded.
\<close>

lemma julianday_midnight: "julianday 212570827200 = 4920621 / 2"
proof -
  have l: "floor_log2 (4920621 / 2) = 21" by (simp add: floor_log2_def)
  have r: "round_half_even 5283476567752704 = 5283476567752704"
    by (simp add: round_half_even_def Let_def)
  show ?thesis
    by (simp add: julianday_def binary64_def Let_def l r power_int_minus)
qed

lemma julianday_midnight_1: "julianday 212570827201 = 5283476567777559 / 2147483648"
proof -
  have l: "floor_log2 (212570827201 / 86400) = 21" by (simp add: floor_log2_def)
  have r: "round_half_even (3566346683249852416 / 675) = 5283476567777559"
    by (simp add: round_half_even_def Let_def)
  show ?thesis
    by (simp add: julianday_def binary64_def Let_def l r power_int_minus)
qed

lemma one_second_products:
  "binary64 (24855 / 2147483648) = 24855 / 2147483648"
  "binary64 (74565 / 268435456) = 74565 / 268435456"
  "binary64 (1118475 / 67108864) = 1118475 / 67108864"
  "binary64 (16777125 / 16777216) = 16777125 / 16777216"
proof -
  have l: "floor_log2 (24855 / 2147483648) = - 17" "floor_log2 (74565 / 268435456) = - 12"
    "floor_log2 (1118475 / 67108864) = - 6" "floor_log2 (16777125 / 16777216) = - 1"
    by (simp_all add: floor_log2_def)
  show "binary64 (24855 / 2147483648) = 24855 / 2147483648"
    by (simp add: binary64_def Let_def l power_int_minus round_half_even_def)
  show "binary64 (74565 / 268435456) = 74565 / 268435456"
    by (simp add: binary64_def Let_def l power_int_minus round_half_even_def)
  show "binary64 (1118475 / 67108864) = 1118475 / 67108864"
    by (simp add: binary64_def Let_def l power_int_minus round_half_even_def)
  show "binary64 (16777125 / 16777216) = 16777125 / 16777216"
    by (simp add: binary64_def Let_def l power_int_minus round_half_even_def)
qed

lemma span_one_second:
  "span_query [call_at 1 212570827200, call_at 2 212570827201] ''S'' = Some 0"
  by (simp add: span_query_def call_at_def julianday_midnight julianday_midnight_1
      one_second_products cast_integer_def)

lemma read_stats_None:
  "read_stats None rows sid =
     \<lparr>st_tools = count_calls rows sid, st_files = count_files rows sid,
      st_commands = count_bash rows sid,
      st_duration = (case span_query rows sid of None \<Rightarrow> 0 | Some d \<Rightarrow> d)\<rparr>"
  by (auto simp: read_stats_def answers_def Let_def split: option.splits)

lemma read_stats_Some:
  "read_stats (Some k) rows sid =
     \<lparr>st_tools = (if k = 0 then 0 else count_calls rows sid),
      st_files = (if k \<le> 1 then 0 else count_files rows sid),
      st_commands = (if k \<le> 2 then 0 else count_bash rows sid),
      st_duration = (if k \<le> 3 then 0
                     else case span_query rows sid of None \<Rightarrow> 0 | Some d \<Rightarrow> d)\<rparr>"
  by (auto simp: read_stats_def answers_def Let_def split: option.splits)

lemma insert_or_replace_one:
  "length (filter (\<lambda>r. s_id r = s_id row) (insert_or_replace row rows)) = 1"
  by (simp add: insert_or_replace_def)

lemma insert_or_replace_twice:
  "s_id row2 = s_id row1 \<Longrightarrow>
   insert_or_replace row2 (insert_or_replace row1 rows) = insert_or_replace row2 rows"
  by (simp add: insert_or_replace_def)

text \<open>
  When every query answers: one row for the session, with the three counts of the
  session's rows; a second run replaces it.
\<close>

lemma session_tracker_counts:
  assumes "makedirs_ok env" and "sid = getenv (CLAUDE_SESSION_ID env) ''unknown''"
  shows "\<exists>row. session_tracker env (Some input_data) None tool_rows (Some rows)
           = Exit 0 (insert_or_replace row rows)
      \<and> s_id row = sid
      \<and> s_tool_count row = int (length (rows_of sid tool_rows))
      \<and> s_command_count row
          = int (length (filter (\<lambda>r. tc_tool_type r = ''Bash'') (rows_of sid tool_rows)))
      \<and> s_file_count row
          = int (card (tc_file_path ` set (rows_of sid tool_rows) - {None}))
      \<and> length (filter (\<lambda>r. s_id r = sid) (insert_or_replace row rows)) = 1"
proof -
  let ?st = "read_stats None tool_rows sid"
  let ?row = "\<lparr>s_id = sid, s_timestamp = now env, s_duration_seconds = st_duration ?st,
      s_model = getenv (CLAUDE_MODEL env) ''unknown'', s_summary = session_summary ?st,
      s_tool_count = st_tools ?st, s_file_count = st_files ?st,
      s_command_count = st_commands ?st\<rparr>"
  have run: "session_tracker env (Some input_data) None tool_rows (Some rows)
      = Exit 0 (insert_or_replace ?row rows)"
    using assms by (simp add: session_tracker_def Let_def)
  have files: "set (map tc_file_path
        (filter (\<lambda>r. tc_session_id r = sid \<and> tc_file_path r \<noteq> None) tool_rows))
      = tc_file_path ` set (rows_of sid tool_rows) - {None}"
    by (auto simp: rows_of_def)
  have "length (remdups (map tc_file_path
        (filter (\<lambda>r. tc_session_id r = sid \<and> tc_file_path r \<noteq> None) tool_rows)))
      = card (tc_file_path ` set (rows_of sid tool_rows) - {None})"
    unfolding length_remdups_card_conv files ..
  then have f: "st_files ?st = int (card (tc_file_path ` set (rows_of sid tool_rows) - {None}))"
    unfolding read_stats_None count_files_def by simp
  have c: "st_commands ?st
      = int (length (filter (\<lambda>r. tc_tool_type r = ''Bash'') (rows_of sid tool_rows)))"
    by (simp add: read_stats_None count_bash_def rows_of_def conj_commute)
  have t: "st_tools ?st = int (length (rows_of sid tool_rows))"
    by (simp add: read_stats_None count_calls_def rows_of_def)
  have one: "length (filter (\<lambda>r. s_id r = sid) (insert_or_replace ?row rows)) = 1"
    using insert_or_replace_one [of ?row rows] by simp
  show ?thesis
    unfolding run using one by (intro exI [of _ ?row] conjI) (simp_all add: f c t)
qed

lemma session_tracker_twice:
  assumes "session_tracker env1 (Some i1) f1 t1 (Some rows) = Exit 0 rows1"
    and "session_tracker env2 (Some i2) f2 t2 (Some rows1) = Exit 0 rows2"
    and "getenv (CLAUDE_SESSION_ID env1) ''unknown'' = getenv (CLAUDE_SESSION_ID env2) ''unknown''"
  shows "session_tracker env2 (Some i2) f2 t2 (Some rows) = Exit 0 rows2"
    and "length (filter (\<lambda>r. s_id r = getenv (CLAUDE_SESSION_ID env2) ''unknown'') rows2) = 1"
  using assms
  by (auto simp: session_tracker_def insert_or_replace_def Let_def split: if_splits)
lemma summary_2_0_2:
  "session_summary \<lparr>st_tools = 2, st_files = 0, st_commands = 2, st_duration = 0\<rparr>
     = ''Session completed: 2 tools, 0 files, 2 commands''"
  by code_simp

lemma summary_2_0_0:
  "session_summary \<lparr>st_tools = 2, st_files = 0, st_commands = 0, st_duration = 0\<rparr>
     = ''Session completed: 2 tools, 0 files, 0 commands''"
  by code_simp

lemma summary_0_0_0:
  "session_summary \<lparr>st_tools = 0, st_files = 0, st_commands = 0, st_duration = 0\<rparr>
     = ''Session completed: 0 tools, 0 files, 0 commands''"
  by code_simp

lemma session_S_id: "getenv (CLAUDE_SESSION_ID session_S) ''unknown'' = ''S''"
  by (simp add: session_S_def getenv_def)

lemma two_calls_stats:
  "read_stats None [call_at 1 212570827200, call_at 2 212570827201] ''S''
     = \<lparr>st_tools = 2, st_files = 0, st_commands = 2, st_duration = 0\<rparr>"
  unfolding read_stats_None span_one_second
  by (simp add: count_calls_def count_files_def count_bash_def call_at_def)

lemma two_calls_stats_partial:
  "read_stats (Some 1) [call_at 1 212570827200, call_at 2 212570827201] ''S''
     = \<lparr>st_tools = 2, st_files = 0, st_commands = 0, st_duration = 0\<rparr>"
  unfolding read_stats_Some
  by (simp add: count_calls_def call_at_def)

subsection \<open>Claims on the session logger\<close>

text \<open>
  C2, at a store the code can meet. Session \<open>S\<close> has two shell calls, logged at
  2024-01-01 00:00:00 and one second later. Every query answers. The row written for
  \<open>S\<close> has the counts the claim states (2 tools, 0 files, 2 commands), and
  \<open>duration_seconds = 0\<close>, although one second lies between the two timestamps: the
  difference of the two Julian days, times 86400, is the double 0.99999457..., and the
  cast to an integer drops the fraction.
\<close>

theorem session_logger_duration_truncated:
  "session_tracker session_S (Some (JObj [])) None
       [call_at 1 212570827200, call_at 2 212570827201] (Some [])
     = Exit 0
         [\<lparr>s_id = ''S'', s_timestamp = 212570830000, s_duration_seconds = 0, s_model = ''m'',
           s_summary = ''Session completed: 2 tools, 0 files, 2 commands'',
           s_tool_count = 2, s_file_count = 0, s_command_count = 2\<rparr>]
   \<and> tc_timestamp (call_at 2 212570827201) - tc_timestamp (call_at 1 212570827200) = 1"
proof
  show "session_tracker session_S (Some (JObj [])) None
       [call_at 1 212570827200, call_at 2 212570827201] (Some [])
     = Exit 0
         [\<lparr>s_id = ''S'', s_timestamp = 212570830000, s_duration_seconds = 0, s_model = ''m'',
           s_summary = ''Session completed: 2 tools, 0 files, 2 commands'',
           s_tool_count = 2, s_file_count = 0, s_command_count = 2\<rparr>]"
    unfolding session_tracker_def Let_def session_S_id two_calls_stats
    by (simp add: session_S_def getenv_def summary_2_0_2 insert_or_replace_def)
  show "tc_timestamp (call_at 2 212570827201) - tc_timestamp (call_at 1 212570827200) = 1"
    by (simp add: call_at_def)
qed

text \<open>
  C7 as stated fails. The same store, but the second query raises (a table without the
  column \<open>file_path\<close>, or a lock taken after the first query): the first query has
  answered, and the row written for \<open>S\<close> has \<open>tool_count = 2\<close>, not 0.
\<close>

theorem session_logger_fallback_counterexample:
  "session_tracker session_S (Some (JObj [])) (Some 1)
       [call_at 1 212570827200, call_at 2 212570827201] (Some [])
     = Exit 0
         [\<lparr>s_id = ''S'', s_timestamp = 212570830000, s_duration_seconds = 0, s_model = ''m'',
           s_summary = ''Session completed: 2 tools, 0 files, 0 commands'',
           s_tool_count = 2, s_file_count = 0, s_command_count = 0\<rparr>]"
  unfolding session_tracker_def Let_def session_S_id two_calls_stats_partial
  by (simp add: session_S_def getenv_def summary_2_0_0 insert_or_replace_def)

text \<open>
  C7, as amended. When reading the tool-call store fails after \<open>k\<close> of the four queries
  have answered, the failure is caught: the script (given an input that is JSON and a
  sessions store that can be written) still replaces the row of its session, so that the
  table holds exactly one row for it, and exits with status 0. In that row every
  statistic whose query did not answer is 0, and the others are what their queries
  returned. When the store cannot be opened or the first query fails (\<open>k = 0\<close>: missing
  file, locked file, no such table), all four are 0.
\<close>

theorem session_logger_fallback_amended:
  assumes "makedirs_ok env" and "sid = getenv (CLAUDE_SESSION_ID env) ''unknown''"
  shows "\<exists>row. session_tracker env (Some input_data) (Some k) tool_rows (Some rows)
           = Exit 0 (insert_or_replace row rows)
      \<and> exit_status (session_tracker env (Some input_data) (Some k) tool_rows (Some rows)) = 0
      \<and> s_id row = sid
      \<and> length (filter (\<lambda>r. s_id r = sid) (insert_or_replace row rows)) = 1
      \<and> s_tool_count row = (if k = 0 then 0 else count_calls tool_rows sid)
      \<and> s_file_count row = (if k \<le> 1 then 0 else count_files tool_rows sid)
      \<and> s_command_count row = (if k \<le> 2 then 0 else count_bash tool_rows sid)
      \<and> s_duration_seconds row
          = (if k \<le> 3 then 0 else case span_query tool_rows sid of None \<Rightarrow> 0 | Some d \<Rightarrow> d)
      \<and> (k = 0 \<longrightarrow> s_tool_count row = 0 \<and> s_file_count row = 0 \<and> s_command_count row = 0
             \<and> s_duration_seconds row = 0)"
proof -
  let ?st = "read_stats (Some k) tool_rows sid"
  let ?row = "\<lparr>s_id = sid, s_timestamp = now env, s_duration_seconds = st_duration ?st,
      s_model = getenv (CLAUDE_MODEL env) ''unknown'', s_summary = session_summary ?st,
      s_tool_count = st_tools ?st, s_file_count = st_files ?st,
      s_command_count = st_commands ?st\<rparr>"
  have run: "session_tracker env (Some input_data) (Some k) tool_rows (Some rows)
      = Exit 0 (insert_or_replace ?row rows)"
    using assms by (simp add: session_tracker_def Let_def)
  have one: "length (filter (\<lambda>r. s_id r = sid) (insert_or_replace ?row rows)) = 1"
    using insert_or_replace_one [of ?row rows] by simp
  show ?thesis
    unfolding run using one
    by (intro exI [of _ ?row] conjI) (simp_all add: read_stats_Some)
qed

theorem session_logger_fallback_amended_witness:
  "makedirs_ok session_S
   \<and> session_tracker session_S (Some (JObj [])) (Some 0)
        [call_at 1 212570827200, call_at 2 212570827201] (Some [])
     = Exit 0
         [\<lparr>s_id = ''S'', s_timestamp = 212570830000, s_duration_seconds = 0, s_model = ''m'',
           s_summary = ''Session completed: 0 tools, 0 files, 0 commands'',
           s_tool_count = 0, s_file_count = 0, s_command_count = 0\<rparr>]
   \<and> exit_status (session_tracker session_S (Some (JObj [])) (Some 0)
        [call_at 1 212570827200, call_at 2 212570827201] (Some [])) = 0"
proof -
  let ?run = "session_tracker session_S (Some (JObj [])) (Some 0)
        [call_at 1 212570827200, call_at 2 212570827201] (Some [])"
  have h1: "makedirs_ok session_S" by (simp add: session_S_def)
  have h2: "''S'' = getenv (CLAUDE_SESSION_ID session_S) ''unknown''"
    by (simp add: session_S_def getenv_def)
  from session_logger_fallback_amended [OF h1 h2, of "JObj []" 0
      "[call_at 1 212570827200, call_at 2 212570827201]" "[]"]
  have x: "exit_status ?run = 0" by (elim exE conjE)
  have st: "read_stats (Some 0) [call_at 1 212570827200, call_at 2 212570827201] ''S''
      = \<lparr>st_tools = 0, st_files = 0, st_commands = 0, st_duration = 0\<rparr>"
    by (simp add: read_stats_Some)
  have r: "?run = Exit 0
         [\<lparr>s_id = ''S'', s_timestamp = 212570830000, s_duration_seconds = 0, s_model = ''m'',
           s_summary = ''Session completed: 0 tools, 0 files, 0 commands'',
           s_tool_count = 0, s_file_count = 0, s_command_count = 0\<rparr>]"
    unfolding session_tracker_def Let_def session_S_id st
    by (simp add: session_S_def getenv_def summary_0_0_0 insert_or_replace_def)
  from h1 r x show ?thesis by (intro conjI)
qed

subsection \<open>Deployer: the merge step\<close>

lemma and_then_Inr: "and_then x f = Inr y \<longleftrightarrow> (\<exists>a. x = Inr a \<and> f a = Inr y)"
  by (cases x) auto

lemma py_getitem_Inr:
  "py_getitem j k = Inr v \<longleftrightarrow> (\<exists>kvs. j = JObj kvs \<and> map_of kvs k = Some v)"
  by (cases j) (auto split: option.splits)

lemma py_setitem_Inr:
  "py_setitem j k v = Inr r \<longleftrightarrow> (\<exists>kvs. j = JObj kvs \<and> r = JObj (dict_set kvs k v))"
  by (cases j) auto

lemma py_get_Inr:
  "py_get j k d = Inr v \<longleftrightarrow>
     (\<exists>kvs. j = JObj kvs \<and> v = (case map_of kvs k of None \<Rightarrow> d | Some x \<Rightarrow> x))"
  by (cases j) auto

lemma map_of_dict_set:
  "map_of (dict_set kvs k v) k' = (if k' = k then Some v else map_of kvs k')"
  by (induction kvs) auto

lemma keep_others_filter:
  "keep_others commands items = Inr kept \<Longrightarrow>
   kept = filter (\<lambda>h. entry_command h \<notin> set commands) items"
proof (induction items arbitrary: kept)
  case Nil
  then show ?case by simp
next
  case (Cons h hs)
  from Cons.prems obtain c where
    c: "py_get h ''command'' JNull = Inr c"
    and rest: "(case c of
          JArr xs \<Rightarrow> Inl TypeError
        | JObj kvs \<Rightarrow> Inl TypeError
        | _ \<Rightarrow> and_then (keep_others commands hs) (\<lambda>kept.
                 Inr (if c \<in> set commands then kept else h # kept))) = Inr kept"
    by (auto simp: and_then_Inr)
  from rest have "and_then (keep_others commands hs) (\<lambda>kept.
                 Inr (if c \<in> set commands then kept else h # kept)) = Inr kept"
    by (cases c) simp_all
  then obtain kept' where
    k: "keep_others commands hs = Inr kept'"
    and r: "kept = (if c \<in> set commands then kept' else h # kept')"
    by (auto simp: and_then_Inr)
  from c have "entry_command h = c"
    by (auto simp: py_get_Inr entry_command_def)
  with Cons.IH [OF k] r show ?case by simp
qed

lemma keep_others_strings:
  "keep_others commands (map (\<lambda>x. JStr (f x)) xs) = Inr kept \<Longrightarrow> xs = []"
  by (cases xs) (auto simp: and_then_Inr)

text \<open>The entries the loop looks at are the entries of the first group.\<close>

lemma first_entries:
  assumes "py_get g ''hooks'' (JArr []) = Inr hooks_array"
    and "py_iter hooks_array = Inr items"
    and "keep_others commands items = Inr kept"
  shows "kept = filter (\<lambda>h. entry_command h \<notin> set commands) (group_entries g)"
proof -
  from assms(1) obtain g0 where g: "g = JObj g0"
    and h: "hooks_array = (case map_of g0 ''hooks'' of None \<Rightarrow> JArr [] | Some x \<Rightarrow> x)"
    by (auto simp: py_get_Inr)
  show ?thesis
  proof (cases hooks_array)
    case (JArr es)
    with assms(2) have "items = es" by simp
    moreover from JArr h have "group_entries g = es"
      by (auto simp: group_entries_def g split: option.splits)
    ultimately show ?thesis using keep_others_filter [OF assms(3)] by simp
  next
    case (JObj kvs)
    with assms(2) have "items = map (\<lambda>kv. JStr (fst kv)) kvs" by simp
    with assms(3) have "kvs = []" using keep_others_strings [of commands fst kvs kept] by simp
    with \<open>items = map (\<lambda>kv. JStr (fst kv)) kvs\<close> have "items = []" by simp
    moreover from JObj h have "group_entries g = []"
      by (auto simp: group_entries_def g split: option.splits)
    ultimately show ?thesis using assms(3) by simp
  next
    case (JStr s)
    with assms(2) have i: "items = map (\<lambda>c. JStr [c]) s" by simp
    with assms(3) have "s = []" using keep_others_strings [of commands "\<lambda>c. [c]" s kept] by simp
    with i have "items = []" by simp
    moreover from JStr h have "group_entries g = []"
      by (auto simp: group_entries_def g split: option.splits)
    ultimately show ?thesis using assms(3) by simp
  qed (use assms(2) in simp_all)
qed
lemma falsy_no_groups: "\<not> truthy v \<Longrightarrow> (case v of JArr gs \<Rightarrow> gs | _ \<Rightarrow> []) = []"
  by (cases v) auto

lemma merge_event_result:
  assumes "merge_event s (ev, new) = Inr s'"
  shows "first_group s' ev =
           filter (\<lambda>h. entry_command h \<notin> set (existing_commands new)) (first_group s ev) @ new"
    and "later_groups s' ev = later_groups s ev"
    and "ev' \<noteq> ev \<Longrightarrow> event_groups s' ev' = event_groups s ev'"
proof -
  from assms obtain hooks0 present hooks1 groups1 hooks2 groups2 group hooks_array items kept group'
    where a1: "py_getitem s ''hooks'' = Inr hooks0"
      and a2: "py_in ev hooks0 = Inr present"
      and a3: "(if \<not> present then py_setitem hooks0 ev empty_groups else Inr hooks0) = Inr hooks1"
      and a4: "py_getitem hooks1 ev = Inr groups1"
      and a5: "(if \<not> truthy groups1 then py_setitem hooks1 ev empty_groups else Inr hooks1)
                 = Inr hooks2"
      and a6: "py_getitem hooks2 ev = Inr groups2"
      and a7: "py_first groups2 = Inr group"
      and a8: "py_get group ''hooks'' (JArr []) = Inr hooks_array"
      and a9: "py_iter hooks_array = Inr items"
      and a10: "keep_others (existing_commands new) items = Inr kept"
      and a11: "py_setitem group ''hooks'' (JArr (kept @ new)) = Inr group'"
      and a12: "(case groups2 of
                   JArr (g # rest) \<Rightarrow>
                     and_then (py_setitem hooks2 ev (JArr (group' # rest)))
                       (\<lambda>hooks. py_setitem s ''hooks'' hooks)
                 | _ \<Rightarrow> Inl TypeError) = Inr s'"
    unfolding merge_event_def Let_def fst_conv snd_conv and_then_Inr by (elim exE conjE)
  from a1 obtain obj where s: "s = JObj obj" and h0: "map_of obj ''hooks'' = Some hooks0"
    by (auto simp: py_getitem_Inr)
  from a4 obtain evs1 where hooks1: "hooks1 = JObj evs1" and g1: "map_of evs1 ev = Some groups1"
    by (auto simp: py_getitem_Inr)
  from a3 hooks1 obtain evs0 where hooks0: "hooks0 = JObj evs0"
    and evs1: "evs1 = (if \<not> present then dict_set evs0 ev empty_groups else evs0)"
    by (auto simp: py_setitem_Inr split: if_splits)
  from a2 hooks0 have present: "present = (map_of evs0 ev \<noteq> None)" by auto
  from a5 hooks1 obtain evs2 where hooks2: "hooks2 = JObj evs2"
    and evs2: "evs2 = (if \<not> truthy groups1 then dict_set evs1 ev empty_groups else evs1)"
    by (auto simp: py_setitem_Inr split: if_splits)
  from a6 hooks2 have g2: "map_of evs2 ev = Some groups2" by (auto split: option.splits)
  from a12 obtain g rest where gr: "groups2 = JArr (g # rest)"
    and s': "s' = JObj (dict_set obj ''hooks'' (JObj (dict_set evs2 ev (JArr (group' # rest)))))"
    by (cases groups2; cases "case groups2 of JArr xs \<Rightarrow> xs | _ \<Rightarrow> []")
       (auto simp: and_then_Inr py_setitem_Inr hooks2 s)
  from a7 gr have gg: "g = group" by simp
  from a8 obtain g0 where group: "group = JObj g0" by (auto simp: py_get_Inr)
  from a11 group have group': "group' = JObj (dict_set g0 ''hooks'' (JArr (kept @ new)))"
    by (simp add: py_setitem_Inr)
  have after: "event_groups s' ev = group' # rest"
    by (simp add: event_groups_def s' map_of_dict_set)
  have entries': "group_entries group' = kept @ new"
    by (simp add: group_entries_def group' map_of_dict_set)
  have kept: "kept = filter (\<lambda>h. entry_command h \<notin> set (existing_commands new))
      (group_entries group)"
    by (rule first_entries [OF a8 a9 a10])
  have before: "event_groups s ev = (case map_of evs0 ev of Some (JArr gs) \<Rightarrow> gs | _ \<Rightarrow> [])"
    by (simp add: event_groups_def s h0 hooks0)
  have rel: "filter (\<lambda>h. entry_command h \<notin> set (existing_commands new)) (first_group s ev) = kept
      \<and> later_groups s ev = rest"
  proof (cases "present \<and> truthy groups1")
    case True
    then have "evs2 = evs0" by (simp add: evs2 evs1)
    with g2 gr gg have "map_of evs0 ev = Some (JArr (group # rest))" by simp
    then have "event_groups s ev = group # rest" by (simp add: before)
    then show ?thesis by (simp add: first_group_def later_groups_def kept)
  next
    case False
    have e: "groups2 = empty_groups"
    proof (cases present)
      case True
      with False have "\<not> truthy groups1" by simp
      then have "evs2 = dict_set evs1 ev empty_groups" by (simp add: evs2)
      with g2 show ?thesis by (simp add: map_of_dict_set)
    next
      case False
      then have "evs1 = dict_set evs0 ev empty_groups" by (simp add: evs1)
      with g1 have "groups1 = empty_groups" by (simp add: map_of_dict_set)
      then have "truthy groups1" by (simp add: empty_groups_def)
      then have "evs2 = evs1" by (simp add: evs2)
      with g2 g1 show ?thesis using \<open>groups1 = empty_groups\<close> by simp
    qed
    with gr gg have "group = JObj [(''hooks'', JArr [])]" and r: "rest = []"
      by (simp_all add: empty_groups_def)
    then have ge: "group_entries group = []" by (simp add: group_entries_def)
    have "event_groups s ev = []"
    proof (cases present)
      case True
      with False have nt: "\<not> truthy groups1" by simp
      from True have "evs1 = evs0" by (simp add: evs1)
      with g1 have "map_of evs0 ev = Some groups1" by simp
      then show ?thesis using falsy_no_groups [OF nt] by (simp add: before)
    next
      case False
      then show ?thesis by (simp add: before present)
    qed
    then show ?thesis by (simp add: first_group_def later_groups_def kept ge r)
  qed
  show "first_group s' ev =
           filter (\<lambda>h. entry_command h \<notin> set (existing_commands new)) (first_group s ev) @ new"
    using rel by (simp add: first_group_def after entries')
  show "later_groups s' ev = later_groups s ev"
    using rel by (simp add: later_groups_def after)
  show "event_groups s' ev' = event_groups s ev'" if "ev' \<noteq> ev"
  proof -
    have "map_of evs2 ev' = map_of evs0 ev'"
      using that by (simp add: evs2 evs1 map_of_dict_set)
    then show ?thesis
      using that by (simp add: event_groups_def s' s h0 hooks0 map_of_dict_set)
  qed
qed
lemma config_append_lookup:
  "map_of (config_append cfg e x) e' =
     (if e' = e then Some ((case map_of cfg e of None \<Rightarrow> [] | Some hs \<Rightarrow> hs) @ [x])
      else map_of cfg e')"
  by (induction cfg) auto

lemma config_append_keys: "fst ` set (config_append cfg e x) = insert e (fst ` set cfg)"
proof (induction cfg)
  case Nil
  then show ?case by simp
next
  case (Cons kv cfg)
  obtain k hs where kv: "kv = (k, hs)" by (cases kv)
  show ?case
  proof (cases "k = e")
    case True
    then show ?thesis by (simp add: kv)
  next
    case False
    then show ?thesis using Cons.IH by (simp add: kv insert_commute)
  qed
qed

lemma config_append_distinct:
  "distinct (map fst cfg) \<Longrightarrow> distinct (map fst (config_append cfg e x))"
proof (induction cfg)
  case Nil
  then show ?case by simp
next
  case (Cons kv cfg)
  obtain k hs where kv: "kv = (k, hs)" by (cases kv)
  from Cons.prems have k: "k \<notin> fst ` set cfg" and d: "distinct (map fst cfg)"
    by (simp_all add: kv)
  show ?case
  proof (cases "k = e")
    case True
    with k d show ?thesis by (simp add: kv)
  next
    case False
    with k have "k \<notin> fst ` set (config_append cfg e x)" by (simp add: config_append_keys)
    with False Cons.IH [OF d] show ?thesis by (simp add: kv)
  qed
qed

lemma hook_configs_distinct:
  "distinct (map fst cfg) \<Longrightarrow> distinct (map fst (hook_configs ps cfg))"
  by (induction ps arbitrary: cfg) (auto simp: config_append_distinct)

lemma hook_configs_lookup:
  "map_of (hook_configs ps cfg) ev =
     (if map_of cfg ev = None \<and> hooks_of_event ev ps = [] then None
      else Some ((case map_of cfg ev of None \<Rightarrow> [] | Some hs \<Rightarrow> hs)
                   @ map hook_entry (hooks_of_event ev ps)))"
proof (induction ps arbitrary: cfg)
  case Nil
  then show ?case by (auto simp: hooks_of_event_def split: option.splits)
next
  case (Cons p ps)
  show ?case
    by (simp add: Cons.IH config_append_lookup)
       (auto simp: hooks_of_event_def hook_event_def split: option.splits)
qed

lemma existing_commands_entries: "existing_commands (map hook_entry ps) = map JStr ps"
  by (induction ps) (auto simp: existing_commands_def hook_entry_def)

lemma first_group_cong:
  "event_groups s' ev = event_groups s ev \<Longrightarrow> first_group s' ev = first_group s ev"
  by (simp add: first_group_def)

lemma later_groups_cong:
  "event_groups s' ev = event_groups s ev \<Longrightarrow> later_groups s' ev = later_groups s ev"
  by (simp add: later_groups_def)

lemma merge_all_result:
  assumes "merge_all s cfgs = Inr s'" and "distinct (map fst cfgs)"
  shows "first_group s' ev =
           (case map_of cfgs ev of
              None \<Rightarrow> first_group s ev
            | Some new \<Rightarrow>
                filter (\<lambda>h. entry_command h \<notin> set (existing_commands new)) (first_group s ev)
                  @ new)
         \<and> later_groups s' ev = later_groups s ev"
  using assms
proof (induction cfgs arbitrary: s)
  case Nil
  then show ?case by simp
next
  case (Cons cfg cfgs)
  obtain e new where cfg: "cfg = (e, new)" by (cases cfg)
  from Cons.prems(1) obtain s1 where
    m: "merge_event s (e, new) = Inr s1" and r: "merge_all s1 cfgs = Inr s'"
    by (auto simp: and_then_Inr cfg)
  from Cons.prems(2) have d: "distinct (map fst cfgs)" and ne: "e \<notin> fst ` set cfgs"
    by (simp_all add: cfg)
  note ih = Cons.IH [OF r d]
  show ?case
  proof (cases "ev = e")
    case True
    from ne have "map_of cfgs e = None" by (simp add: map_of_eq_None_iff)
    with ih True merge_event_result(1,2) [OF m] show ?thesis
      by (simp add: cfg)
  next
    case False
    then have "event_groups s1 ev = event_groups s ev"
      by (rule merge_event_result(3) [OF m])
    then have "first_group s1 ev = first_group s ev" "later_groups s1 ev = later_groups s ev"
      by (simp_all add: first_group_def later_groups_def)
    with ih False show ?thesis by (simp add: cfg split: option.splits)
  qed
qed

lemma hooks_key_added:
  assumes "py_in ''hooks'' s = Inr present"
    and "(if \<not> present then py_setitem s ''hooks'' (JObj []) else Inr s) = Inr s1"
  shows "event_groups s1 ev = event_groups s ev"
proof (cases present)
  case True
  with assms(2) show ?thesis by simp
next
  case False
  with assms(2) obtain kvs where s: "s = JObj kvs" and s1: "s1 = JObj (dict_set kvs ''hooks'' (JObj []))"
    by (auto simp: py_setitem_Inr)
  from assms(1) False s have "map_of kvs ''hooks'' = None" by simp
  then show ?thesis by (simp add: event_groups_def s s1 map_of_dict_set)
qed

text \<open>What \<^verbatim>\<open>update_settings\<close> does to the registrations, when it returns.\<close>

lemma update_settings_result:
  assumes "update_settings s ps = Inr s'"
  shows "first_group s' ev =
           (if hooks_of_event ev ps = [] then first_group s ev
            else filter (\<lambda>h. \<not> deployed_entry (hooks_of_event ev ps) h) (first_group s ev)
                   @ map hook_entry (hooks_of_event ev ps))"
    and "later_groups s' ev = later_groups s ev"
proof -
  from assms obtain present s1 where
    p: "py_in ''hooks'' s = Inr present"
    and a: "(if \<not> present then py_setitem s ''hooks'' (JObj []) else Inr s) = Inr s1"
    and m: "merge_all s1 (hook_configs ps []) = Inr s'"
    unfolding update_settings_def and_then_Inr by (elim exE conjE)
  have e: "event_groups s1 ev = event_groups s ev" by (rule hooks_key_added [OF p a])
  have d: "distinct (map fst (hook_configs ps []))" by (rule hook_configs_distinct) simp
  from merge_all_result [OF m d, of ev] e
  show "first_group s' ev =
           (if hooks_of_event ev ps = [] then first_group s ev
            else filter (\<lambda>h. \<not> deployed_entry (hooks_of_event ev ps) h) (first_group s ev)
                   @ map hook_entry (hooks_of_event ev ps))"
    by (simp add: hook_configs_lookup existing_commands_entries first_group_def deployed_entry_def)
  from merge_all_result [OF m d, of ev] e
  show "later_groups s' ev = later_groups s ev" by (simp add: later_groups_def)
qed
subsection \<open>Deployer: the merge step returns on a well-formed document\<close>

lemma keep_others_ok:
  "list_all wf_entry es \<Longrightarrow>
   \<exists>kept. keep_others commands es = Inr kept \<and> list_all wf_entry kept"
proof (induction es)
  case Nil
  then show ?case by simp
next
  case (Cons h hs)
  from Cons.prems have wh0: "wf_entry h" and rest: "list_all wf_entry hs" by simp_all
  from wh0 obtain kvs where h: "h = JObj kvs" and sc: "scalar (entry_command h)"
    by (cases h) (simp_all add: wf_entry_def)
  from Cons.IH [OF rest] obtain kept where
    k: "keep_others commands hs = Inr kept" "list_all wf_entry kept" by (elim exE conjE)
  let ?c = "case map_of kvs ''command'' of None \<Rightarrow> JNull | Some c \<Rightarrow> c"
  have c: "entry_command h = ?c" by (simp add: entry_command_def h)
  with sc have sc': "scalar ?c" by simp
  have wh: "wf_entry h" using sc by (simp add: wf_entry_def h)
  have "keep_others commands (h # hs)
      = Inr (if ?c \<in> set commands then kept else h # kept)"
    using sc' by (cases ?c) (simp_all add: h k scalar_def)
  with k(2) wh show ?case by auto
qed

lemma wf_entry_hook_entry: "wf_entry (hook_entry p)"
  by (simp add: wf_entry_def hook_entry_def entry_command_def scalar_def)

lemma dict_set_subset: "set (dict_set kvs k v) \<subseteq> insert (k, v) (set kvs)"
  by (induction kvs) (auto split: if_splits)

lemma wf_events_dict_set: "wf_events evs \<Longrightarrow> wf_groups v \<Longrightarrow> wf_events (dict_set evs k v)"
  using dict_set_subset [of evs k v] by (auto simp: wf_events_def list_all_iff)

lemma wf_events_lookup: "wf_events evs \<Longrightarrow> map_of evs k = Some v \<Longrightarrow> wf_groups v"
proof -
  assume w: "wf_events evs" and m: "map_of evs k = Some v"
  from m have "(k, v) \<in> set evs" by (rule map_of_SomeD)
  with w have "wf_groups (snd (k, v))" unfolding wf_events_def list_all_iff by (rule bspec)
  then show ?thesis by simp
qed

lemma wf_groups_new:
  "list_all wf_entry es \<Longrightarrow> wf_groups (JArr (JObj (dict_set g0 ''hooks'' (JArr es)) # rest))"
  by (simp add: wf_groups_def map_of_dict_set)

text \<open>The loop body on an event type without a usable value: one new group.\<close>

lemma merge_event_fresh:
  assumes "map_of obj ''hooks'' = Some (JObj evs)"
    and "case map_of evs ev of None \<Rightarrow> True | Some v \<Rightarrow> \<not> truthy v"
  shows "merge_event (JObj obj) (ev, new)
     = Inr (JObj (dict_set obj ''hooks''
         (JObj (dict_set (dict_set evs ev empty_groups) ev
            (JArr [JObj [(''hooks'', JArr new)]])))))"
proof (cases "map_of evs ev")
  case None
  then show ?thesis
    using assms(1)
    by (simp add: merge_event_def map_of_dict_set empty_groups_def)
next
  case (Some v)
  with assms(2) have "\<not> truthy v" by simp
  then show ?thesis
    using assms(1) Some
    by (simp add: merge_event_def map_of_dict_set empty_groups_def)
qed

lemma merge_event_ok:
  assumes "map_of obj ''hooks'' = Some (JObj evs)" and "wf_events evs"
  shows "\<exists>evs'. merge_event (JObj obj) (ev, map hook_entry ps)
            = Inr (JObj (dict_set obj ''hooks'' (JObj evs')))
          \<and> wf_events evs'"
proof (cases "case map_of evs ev of None \<Rightarrow> True | Some v \<Rightarrow> \<not> truthy v")
  case True
  have e1: "wf_events (dict_set evs ev empty_groups)"
    by (rule wf_events_dict_set [OF assms(2)]) (simp add: wf_groups_def empty_groups_def)
  have "wf_groups (JArr [JObj [(''hooks'', JArr (map hook_entry ps))]])"
    by (auto simp: wf_groups_def list_all_iff wf_entry_hook_entry)
  then have "wf_events (dict_set (dict_set evs ev empty_groups) ev
            (JArr [JObj [(''hooks'', JArr (map hook_entry ps))]]))"
    by (rule wf_events_dict_set [OF e1])
  with merge_event_fresh [OF assms(1) True] show ?thesis by blast
next
  case False
  then obtain v where v: "map_of evs ev = Some v" and t: "truthy v"
    by (auto split: option.splits)
  from wf_events_lookup [OF assms(2) v] t obtain g0 rest where
    vv: "v = JArr (JObj g0 # rest)"
    and h: "case map_of g0 ''hooks'' of None \<Rightarrow> True | Some (JArr es) \<Rightarrow> list_all wf_entry es
              | Some _ \<Rightarrow> False"
    by (auto simp: wf_groups_def split: json.splits list.splits)
  define es where "es = (case map_of g0 ''hooks'' of Some (JArr xs) \<Rightarrow> xs | _ \<Rightarrow> [])"
  from h have ha: "(case map_of g0 ''hooks'' of None \<Rightarrow> JArr [] | Some x \<Rightarrow> x) = JArr es"
    and we: "list_all wf_entry es"
    by (auto simp: es_def split: option.splits json.splits)
  from keep_others_ok [OF we, of "existing_commands (map hook_entry ps)"] obtain kept where
    k: "keep_others (existing_commands (map hook_entry ps)) es = Inr kept"
    and wk: "list_all wf_entry kept" by (elim exE conjE)
  have run: "merge_event (JObj obj) (ev, map hook_entry ps)
      = Inr (JObj (dict_set obj ''hooks'' (JObj (dict_set evs ev
          (JArr (JObj (dict_set g0 ''hooks'' (JArr (kept @ map hook_entry ps))) # rest))))))"
    using assms(1) v t
    by (simp add: merge_event_def vv ha k)
  have "list_all wf_entry (kept @ map hook_entry ps)"
    using wk by (auto simp: list_all_iff wf_entry_hook_entry)
  then have "wf_events (dict_set evs ev
          (JArr (JObj (dict_set g0 ''hooks'' (JArr (kept @ map hook_entry ps))) # rest)))"
    by (intro wf_events_dict_set [OF assms(2)] wf_groups_new)
  with run show ?thesis by blast
qed

lemma merge_all_ok:
  assumes "map_of obj ''hooks'' = Some (JObj evs)" and "wf_events evs"
    and "\<forall>cfg \<in> set cfgs. \<exists>ps. snd cfg = map hook_entry ps"
  shows "\<exists>s'. merge_all (JObj obj) cfgs = Inr s' \<and> wf_settings s'"
  using assms
proof (induction cfgs arbitrary: obj evs)
  case Nil
  then show ?case by (simp add: wf_settings_def)
next
  case (Cons cfg cfgs)
  from Cons.prems(3) obtain ev ps where cfg: "cfg = (ev, map hook_entry ps)"
    by (cases cfg) auto
  from merge_event_ok [OF Cons.prems(1,2), of ev ps] obtain evs' where
    m: "merge_event (JObj obj) (ev, map hook_entry ps)
          = Inr (JObj (dict_set obj ''hooks'' (JObj evs')))"
    and w: "wf_events evs'" by (elim exE conjE)
  have l: "map_of (dict_set obj ''hooks'' (JObj evs')) ''hooks'' = Some (JObj evs')"
    by (simp add: map_of_dict_set)
  from Cons.prems(3) have r: "\<forall>cfg \<in> set cfgs. \<exists>ps. snd cfg = map hook_entry ps" by simp
  from Cons.IH [OF l w r] show ?case by (simp add: cfg m)
qed

lemma hook_configs_entries:
  "\<forall>cfg \<in> set (hook_configs ps []). \<exists>qs. snd cfg = map hook_entry qs"
proof
  fix cfg assume c: "cfg \<in> set (hook_configs ps [])"
  obtain ev hs where cfg: "cfg = (ev, hs)" by (cases cfg)
  have "distinct (map fst (hook_configs ps []))" by (rule hook_configs_distinct) simp
  with c cfg have "map_of (hook_configs ps []) ev = Some hs" by simp
  then have "hs = map hook_entry (hooks_of_event ev ps)"
    by (simp add: hook_configs_lookup split: if_splits)
  then show "\<exists>qs. snd cfg = map hook_entry qs" by (auto simp: cfg)
qed

lemma update_settings_ok:
  assumes "wf_settings s"
  shows "\<exists>s'. update_settings s ps = Inr s' \<and> wf_settings s'"
proof -
  from assms obtain obj where s: "s = JObj obj"
    by (cases s) (simp_all add: wf_settings_def)
  show ?thesis
  proof (cases "map_of obj ''hooks''")
    case None
    have l: "map_of (dict_set obj ''hooks'' (JObj [])) ''hooks'' = Some (JObj [])"
      by (simp add: map_of_dict_set)
    have w: "wf_events []" by (simp add: wf_events_def)
    from merge_all_ok [OF l w hook_configs_entries [of ps]] None
    show ?thesis by (simp add: update_settings_def s)
  next
    case (Some h)
    with assms obtain evs where h: "h = JObj evs" and w: "wf_events evs"
      by (cases h) (simp_all add: wf_settings_def s)
    from Some h have l: "map_of obj ''hooks'' = Some (JObj evs)" by simp
    from merge_all_ok [OF l w hook_configs_entries [of ps]] l
    show ?thesis by (simp add: update_settings_def s)
  qed
qed
subsection \<open>Deployer: what the merged first group holds\<close>

lemma entry_command_hook_entry [simp]: "entry_command (hook_entry p) = JStr p"
  by (simp add: entry_command_def hook_entry_def)

lemma deployed_entry_hook_entry [simp]: "deployed_entry ps (hook_entry p) = (p \<in> set ps)"
  by (auto simp: deployed_entry_def)

lemma registrations_split:
  "registrations doc ev
     = first_group doc ev @ concat (map group_entries (later_groups doc ev))"
  by (cases "event_groups doc ev") (simp_all add: registrations_def first_group_def later_groups_def)

lemma commands_of_append [simp]: "commands_of (xs @ ys) = commands_of xs @ commands_of ys"
  by (simp add: commands_of_def)

lemma commands_of_entries [simp]: "commands_of (map hook_entry ps) = map JStr ps"
  by (induction ps) (simp_all add: commands_of_def)

lemma commands_of_kept:
  "commands_of (filter (\<lambda>h. \<not> deployed_entry qs h) fs)
     = filter (\<lambda>c. c \<notin> set (map JStr qs)) (commands_of fs)"
  by (induction fs) (auto simp: commands_of_def deployed_entry_def)

lemma commands_of_set: "c \<in> set (commands_of fs) \<Longrightarrow> \<exists>h \<in> set fs. entry_command h = c"
  by (auto simp: commands_of_def)

lemma distinct_JStr: "distinct (map JStr qs) = distinct qs"
  by (simp add: distinct_map inj_on_def)

lemma merged_count:
  assumes "p \<in> set qs" and "distinct qs"
  shows "length (entries_for p (filter (\<lambda>h. \<not> deployed_entry qs h) fs @ map hook_entry qs)) = 1"
proof -
  have a: "entries_for p (filter (\<lambda>h. \<not> deployed_entry qs h) fs) = []"
    using assms(1) by (auto simp: entries_for_def deployed_entry_def filter_empty_conv)
  have b: "entries_for p (map hook_entry qs) = map hook_entry (filter (\<lambda>q. q = p) qs)"
    by (induction qs) (simp_all add: entries_for_def)
  have "length (filter (\<lambda>q. q = p) qs) = 1"
    using assms by (induction qs) (auto simp: filter_empty_conv)
  with a b show ?thesis by (simp add: entries_for_def)
qed

lemma merged_distinct:
  assumes "distinct (commands_of (fs @ rs))" and "\<forall>h \<in> set rs. \<not> deployed_entry qs h"
    and "distinct qs"
  shows "distinct (commands_of ((filter (\<lambda>h. \<not> deployed_entry qs h) fs @ map hook_entry qs) @ rs))"
proof -
  have r: "set (commands_of rs) \<inter> set (map JStr qs) = {}"
  proof -
    { fix c assume "c \<in> set (commands_of rs)" and q: "c \<in> set (map JStr qs)"
      then obtain h where "h \<in> set rs" "entry_command h = c" by (auto dest: commands_of_set)
      with assms(2) q have False by (auto simp: deployed_entry_def) }
    then show ?thesis by blast
  qed
  from assms(1) have "distinct (commands_of fs)" "distinct (commands_of rs)"
    and d: "set (commands_of fs) \<inter> set (commands_of rs) = {}" by simp_all
  with r assms(3) show ?thesis
    by (auto simp: commands_of_kept distinct_JStr)
qed

lemma merged_others:
  assumes "set qs \<subseteq> set ps"
  shows "filter (\<lambda>h. \<not> deployed_entry ps h) (filter (\<lambda>h. \<not> deployed_entry qs h) fs @ map hook_entry qs)
     = filter (\<lambda>h. \<not> deployed_entry ps h) fs"
proof -
  have "filter (\<lambda>h. \<not> deployed_entry ps h) (map hook_entry qs) = []"
    using assms by (auto simp: filter_empty_conv)
  moreover have "\<And>h. \<not> deployed_entry ps h \<Longrightarrow> \<not> deployed_entry qs h"
    using assms by (auto simp: deployed_entry_def)
  then have "filter (\<lambda>h. \<not> deployed_entry ps h) (filter (\<lambda>h. \<not> deployed_entry qs h) fs)
      = filter (\<lambda>h. \<not> deployed_entry ps h) fs"
    by (auto intro: filter_cong)
  ultimately show ?thesis by simp
qed

lemma merged_again:
  "filter (\<lambda>h. \<not> deployed_entry qs h) (filter (\<lambda>h. \<not> deployed_entry qs h) fs @ map hook_entry qs)
     @ map hook_entry qs
   = filter (\<lambda>h. \<not> deployed_entry qs h) fs @ map hook_entry qs"
proof -
  have "filter (\<lambda>h. \<not> deployed_entry qs h) (map hook_entry qs) = []"
    by (auto simp: filter_empty_conv)
  then show ?thesis by simp
qed

lemma hooks_of_event_props:
  "set (hooks_of_event ev ps) \<subseteq> set ps"
  "distinct ps \<Longrightarrow> distinct (hooks_of_event ev ps)"
  "p \<in> set ps \<Longrightarrow> p \<in> set (hooks_of_event (hook_event p) ps)"
  by (auto simp: hooks_of_event_def)

lemma update_settings_first:
  assumes "update_settings s ps = Inr s'" and "p \<in> set ps"
  shows "first_group s' (hook_event p) =
     filter (\<lambda>h. \<not> deployed_entry (hooks_of_event (hook_event p) ps) h) (first_group s (hook_event p))
       @ map hook_entry (hooks_of_event (hook_event p) ps)"
proof -
  have "hooks_of_event (hook_event p) ps \<noteq> []"
    using hooks_of_event_props(3) [OF assms(2)] by auto
  with update_settings_result(1) [OF assms(1), of "hook_event p"] show ?thesis by simp
qed
lemma length_filter_either:
  assumes "\<And>x. \<not> (P x \<and> Q x)"
  shows "length (filter (\<lambda>x. P x \<or> Q x) xs) = length (filter P xs) + length (filter Q xs)"
  using assms by (induction xs) auto

subsection \<open>Claim on the deployer\<close>

text \<open>
  C5, as amended. On a well-formed settings document and a list of different deployed
  hooks the merge step returns a well-formed document in which
  \<^item> every deployed hook has exactly one entry for its command path in the first group
    of its inferred event type (so two different hooks of one event type have two);
  \<^item> for every event type, if no two entries of the first group shared a command path
    before, none do after; and if no two entries of all its groups shared one before and
    no later group held a command path deployed for it, none do after;
  \<^item> the entries of the first groups whose command paths differ from the deployed
    ones are the same as before, in the same order, and the later groups are untouched;
  \<^item> deploying the same hooks once more returns again and leaves every registration as
    it is: each deployed hook still has exactly one entry in that first group.
\<close>

theorem deployer_merge_amended:
  assumes "wf_settings settings" and "distinct deployed"
  shows "\<exists>settings' settings''.
      update_settings settings deployed = Inr settings' \<and> wf_settings settings'
    \<and> (\<forall>p \<in> set deployed.
          length (entries_for p (first_group settings' (hook_event p))) = 1)
    \<and> (\<forall>p \<in> set deployed. \<forall>q \<in> set deployed. p \<noteq> q \<and> hook_event p = hook_event q \<longrightarrow>
          length (filter (\<lambda>h. entry_command h = JStr p \<or> entry_command h = JStr q)
                    (first_group settings' (hook_event p))) = 2)
    \<and> (\<forall>ev. distinct (commands_of (first_group settings ev)) \<longrightarrow>
              distinct (commands_of (first_group settings' ev)))
    \<and> (\<forall>ev. distinct (commands_of (registrations settings ev))
              \<and> (\<forall>h \<in> set (concat (map group_entries (later_groups settings ev))).
                    \<not> deployed_entry (hooks_of_event ev deployed) h) \<longrightarrow>
              distinct (commands_of (registrations settings' ev)))
    \<and> (\<forall>ev. filter (\<lambda>h. \<not> deployed_entry deployed h) (first_group settings' ev)
               = filter (\<lambda>h. \<not> deployed_entry deployed h) (first_group settings ev)
            \<and> later_groups settings' ev = later_groups settings ev)
    \<and> update_settings settings' deployed = Inr settings''
    \<and> (\<forall>ev. registrations settings'' ev = registrations settings' ev)
    \<and> (\<forall>p \<in> set deployed.
          length (entries_for p (first_group settings'' (hook_event p))) = 1)"
proof -
  from update_settings_ok [OF assms(1), of deployed] obtain s1 where
    u1: "update_settings settings deployed = Inr s1" and w1: "wf_settings s1"
    by (elim exE conjE)
  from update_settings_ok [OF w1, of deployed] obtain s2 where
    u2: "update_settings s1 deployed = Inr s2" by (elim exE conjE)
  note r1 = update_settings_result [OF u1]
  note r2 = update_settings_result [OF u2]
  have count: "length (entries_for p (first_group s' (hook_event p))) = 1"
    if "update_settings s deployed = Inr s'" and "p \<in> set deployed" for s s' p
    unfolding update_settings_first [OF that]
    by (rule merged_count [OF hooks_of_event_props(3) [OF that(2)]
          hooks_of_event_props(2) [OF assms(2)]])
  have c1: "\<forall>p \<in> set deployed. length (entries_for p (first_group s1 (hook_event p))) = 1"
    using count [OF u1] by blast
  have c9: "\<forall>p \<in> set deployed. length (entries_for p (first_group s2 (hook_event p))) = 1"
    using count [OF u2] by blast
  have c2: "\<forall>p \<in> set deployed. \<forall>q \<in> set deployed. p \<noteq> q \<and> hook_event p = hook_event q \<longrightarrow>
          length (filter (\<lambda>h. entry_command h = JStr p \<or> entry_command h = JStr q)
                    (first_group s1 (hook_event p))) = 2"
  proof (intro ballI impI, elim conjE)
    fix p q assume p: "p \<in> set deployed" and q: "q \<in> set deployed"
      and ne: "p \<noteq> q" and e: "hook_event p = hook_event q"
    have "length (filter (\<lambda>h. entry_command h = JStr p \<or> entry_command h = JStr q)
                    (first_group s1 (hook_event p)))
        = length (entries_for p (first_group s1 (hook_event p)))
          + length (entries_for q (first_group s1 (hook_event p)))"
      unfolding entries_for_def using ne by (intro length_filter_either) auto
    also have "\<dots> = 2" using count [OF u1 p] count [OF u1 q] by (simp add: e)
    finally show "length (filter (\<lambda>h. entry_command h = JStr p \<or> entry_command h = JStr q)
                    (first_group s1 (hook_event p))) = 2" .
  qed
  have c3: "\<forall>ev. distinct (commands_of (first_group settings ev)) \<longrightarrow>
              distinct (commands_of (first_group s1 ev))"
  proof (intro allI impI)
    fix ev assume d: "distinct (commands_of (first_group settings ev))"
    show "distinct (commands_of (first_group s1 ev))"
    proof (cases "hooks_of_event ev deployed = []")
      case True
      with d r1(1) [of ev] show ?thesis by simp
    next
      case False
      from merged_distinct [of "first_group settings ev" "[]" "hooks_of_event ev deployed"] d
        hooks_of_event_props(2) [OF assms(2), of ev]
      have "distinct (commands_of (filter (\<lambda>h. \<not> deployed_entry (hooks_of_event ev deployed) h)
          (first_group settings ev) @ map hook_entry (hooks_of_event ev deployed)))" by simp
      with False r1(1) [of ev] show ?thesis by simp
    qed
  qed
  have c4: "\<forall>ev. distinct (commands_of (registrations settings ev))
              \<and> (\<forall>h \<in> set (concat (map group_entries (later_groups settings ev))).
                    \<not> deployed_entry (hooks_of_event ev deployed) h) \<longrightarrow>
              distinct (commands_of (registrations s1 ev))"
  proof (intro allI impI, elim conjE)
    fix ev assume d: "distinct (commands_of (registrations settings ev))"
      and l: "\<forall>h \<in> set (concat (map group_entries (later_groups settings ev))).
                    \<not> deployed_entry (hooks_of_event ev deployed) h"
    show "distinct (commands_of (registrations s1 ev))"
    proof (cases "hooks_of_event ev deployed = []")
      case True
      with d r1 [of ev] show ?thesis by (simp add: registrations_split)
    next
      case False
      from d have "distinct (commands_of (first_group settings ev
          @ concat (map group_entries (later_groups settings ev))))"
        by (simp add: registrations_split)
      from merged_distinct [OF this l hooks_of_event_props(2) [OF assms(2), of ev]]
      show ?thesis using False r1 [of ev] by (simp add: registrations_split)
    qed
  qed
  have c5: "\<forall>ev. filter (\<lambda>h. \<not> deployed_entry deployed h) (first_group s1 ev)
               = filter (\<lambda>h. \<not> deployed_entry deployed h) (first_group settings ev)
            \<and> later_groups s1 ev = later_groups settings ev"
  proof (intro allI conjI)
    fix ev
    show "filter (\<lambda>h. \<not> deployed_entry deployed h) (first_group s1 ev)
               = filter (\<lambda>h. \<not> deployed_entry deployed h) (first_group settings ev)"
    proof (cases "hooks_of_event ev deployed = []")
      case True
      with r1(1) [of ev] show ?thesis by simp
    next
      case False
      with r1(1) [of ev] merged_others [OF hooks_of_event_props(1) [of ev deployed]]
      show ?thesis by simp
    qed
    show "later_groups s1 ev = later_groups settings ev" by (rule r1(2))
  qed
  have c8: "\<forall>ev. registrations s2 ev = registrations s1 ev"
  proof
    fix ev
    have "first_group s2 ev = first_group s1 ev"
    proof (cases "hooks_of_event ev deployed = []")
      case True
      with r2(1) [of ev] show ?thesis by simp
    next
      case False
      with r2(1) [of ev] r1(1) [of ev] show ?thesis by (simp add: merged_again)
    qed
    with r2(2) [of ev] show "registrations s2 ev = registrations s1 ev"
      by (simp add: registrations_split)
  qed
  show ?thesis
    by (intro exI [of _ s1] exI [of _ s2] conjI u1 w1 c1 c2 c3 c4 c5 u2 c8 c9)
qed

theorem deployer_merge_amended_witness:
  "wf_settings (JObj []) \<and> distinct [rg_hook, fmt_hook]
   \<and> update_settings (JObj []) [rg_hook, fmt_hook] = Inr fresh_settings_after
   \<and> hook_event rg_hook = ''PreToolUse'' \<and> hook_event fmt_hook = ''PreToolUse''
   \<and> length (entries_for rg_hook (first_group fresh_settings_after ''PreToolUse'')) = 1
   \<and> update_settings fresh_settings_after [rg_hook, fmt_hook] = Inr fresh_settings_after"
proof -
  have h1: "wf_settings (JObj [])" by (simp add: wf_settings_def)
  have h2: "distinct [rg_hook, fmt_hook]" by (simp add: rg_hook_def fmt_hook_def)
  have e1: "hook_event rg_hook = ''PreToolUse''" by code_simp
  have e2: "hook_event fmt_hook = ''PreToolUse''" by code_simp
  have u: "update_settings (JObj []) [rg_hook, fmt_hook] = Inr fresh_settings_after"
    by code_simp
  have u': "update_settings fresh_settings_after [rg_hook, fmt_hook] = Inr fresh_settings_after"
    by code_simp
  from deployer_merge_amended [OF h1 h2] obtain s1 s2 where
    a: "update_settings (JObj []) [rg_hook, fmt_hook] = Inr s1"
    and c: "\<forall>p \<in> set [rg_hook, fmt_hook].
          length (entries_for p (first_group s1 (hook_event p))) = 1"
    by (elim exE conjE)
  from a u have "s1 = fresh_settings_after" by simp
  with c e1 have "length (entries_for rg_hook (first_group fresh_settings_after ''PreToolUse'')) = 1"
    by auto
  with h1 h2 u e1 e2 u' show ?thesis by (intro conjI)
qed

text \<open>
  C5 as stated fails. In \<open>grouped_settings\<close> no two entries of \<open>PreToolUse\<close> share a
  command path; its second group registers \<open>grep-to-rg.py\<close>. After deploying that hook
  the first group registers it too: two entries of \<open>PreToolUse\<close> share the command
  path, and deploying once more changes nothing.
\<close>

theorem deployer_dedup_counterexample:
  "wf_settings grouped_settings
   \<and> hook_event rg_hook = ''PreToolUse''
   \<and> commands_of (registrations grouped_settings ''PreToolUse'') = [JStr rg_hook]
   \<and> update_settings grouped_settings [rg_hook] = Inr grouped_settings_after
   \<and> commands_of (registrations grouped_settings_after ''PreToolUse'')
       = [JStr rg_hook, JStr rg_hook]
   \<and> \<not> distinct (commands_of (registrations grouped_settings_after ''PreToolUse''))
   \<and> update_settings grouped_settings_after [rg_hook] = Inr grouped_settings_after
   \<and> length (entries_for rg_hook (registrations grouped_settings_after ''PreToolUse'')) = 2"
proof -
  have a: "wf_settings grouped_settings" by code_simp
  have b: "hook_event rg_hook = ''PreToolUse''" by code_simp
  have c: "commands_of (registrations grouped_settings ''PreToolUse'') = [JStr rg_hook]"
    by code_simp
  have d: "update_settings grouped_settings [rg_hook] = Inr grouped_settings_after"
    by code_simp
  have e: "commands_of (registrations grouped_settings_after ''PreToolUse'')
       = [JStr rg_hook, JStr rg_hook]" by code_simp
  have f: "\<not> distinct (commands_of (registrations grouped_settings_after ''PreToolUse''))"
    unfolding e by simp
  have g: "update_settings grouped_settings_after [rg_hook] = Inr grouped_settings_after"
    by code_simp
  have h: "length (entries_for rg_hook (registrations grouped_settings_after ''PreToolUse'')) = 2"
    by code_simp
  from a b c d e f g h show ?thesis by (intro conjI)
qed

subsection \<open>Deployer: the whole run on a tidy document\<close>

lemma tidy_entry_wf: "tidy_entry h \<Longrightarrow> wf_entry h"
  by (auto simp: tidy_entry_def wf_entry_def entry_command_def scalar_def
      split: json.splits option.splits)

lemma tidy_entry_hook_entry: "tidy_entry (hook_entry p)"
  by (simp add: tidy_entry_def hook_entry_def)

lemma tidy_events_dict_set:
  "tidy_events evs \<Longrightarrow> tidy_groups v \<Longrightarrow> tidy_events (dict_set evs k v)"
  using dict_set_subset [of evs k v] by (auto simp: tidy_events_def list_all_iff)

lemma tidy_events_lookup: "tidy_events evs \<Longrightarrow> map_of evs k = Some v \<Longrightarrow> tidy_groups v"
proof -
  assume w: "tidy_events evs" and m: "map_of evs k = Some v"
  from m have "(k, v) \<in> set evs" by (rule map_of_SomeD)
  with w have "tidy_groups (snd (k, v))" unfolding tidy_events_def list_all_iff by (rule bspec)
  then show ?thesis by simp
qed

lemma merge_event_tidy:
  assumes "map_of obj ''hooks'' = Some (JObj evs)" and "tidy_events evs"
  shows "\<exists>evs'. merge_event (JObj obj) (ev, map hook_entry ps)
            = Inr (JObj (dict_set obj ''hooks'' (JObj evs')))
          \<and> tidy_events evs'"
proof (cases "case map_of evs ev of None \<Rightarrow> True | Some v \<Rightarrow> \<not> truthy v")
  case True
  have e1: "tidy_events (dict_set evs ev empty_groups)"
    by (rule tidy_events_dict_set [OF assms(2)])
       (simp add: tidy_groups_def tidy_group_def empty_groups_def)
  have "tidy_groups (JArr [JObj [(''hooks'', JArr (map hook_entry ps))]])"
    by (auto simp: tidy_groups_def tidy_group_def list_all_iff tidy_entry_hook_entry)
  then have "tidy_events (dict_set (dict_set evs ev empty_groups) ev
            (JArr [JObj [(''hooks'', JArr (map hook_entry ps))]]))"
    by (rule tidy_events_dict_set [OF e1])
  with merge_event_fresh [OF assms(1) True] show ?thesis by blast
next
  case False
  then obtain v where v: "map_of evs ev = Some v" and t: "truthy v"
    by (auto split: option.splits)
  from tidy_events_lookup [OF assms(2) v] obtain gs where gs: "v = JArr gs"
    and tg: "list_all tidy_group gs"
    by (cases v) (simp_all add: tidy_groups_def)
  from t gs obtain g rest where gr: "gs = g # rest" by (cases gs) auto
  from tg gr have tgg: "tidy_group g" and tr: "list_all tidy_group rest" by simp_all
  from tgg obtain g0 where g: "g = JObj g0"
    and h: "case map_of g0 ''hooks'' of None \<Rightarrow> True | Some (JArr es) \<Rightarrow> list_all tidy_entry es
              | Some _ \<Rightarrow> False"
    by (cases g) (simp_all add: tidy_group_def)
  define es where "es = (case map_of g0 ''hooks'' of Some (JArr xs) \<Rightarrow> xs | _ \<Rightarrow> [])"
  from h have ha: "(case map_of g0 ''hooks'' of None \<Rightarrow> JArr [] | Some x \<Rightarrow> x) = JArr es"
    and te: "list_all tidy_entry es"
    by (auto simp: es_def split: option.splits json.splits)
  from te have we: "list_all wf_entry es" by (auto simp: list_all_iff tidy_entry_wf)
  from keep_others_ok [OF we, of "existing_commands (map hook_entry ps)"] obtain kept where
    k: "keep_others (existing_commands (map hook_entry ps)) es = Inr kept"
    by (elim exE conjE)
  from keep_others_filter [OF k] te have tk: "list_all tidy_entry kept"
    by (auto simp: list_all_iff)
  have run: "merge_event (JObj obj) (ev, map hook_entry ps)
      = Inr (JObj (dict_set obj ''hooks'' (JObj (dict_set evs ev
          (JArr (JObj (dict_set g0 ''hooks'' (JArr (kept @ map hook_entry ps))) # rest))))))"
    using assms(1) v t
    by (simp add: merge_event_def gs gr g ha k)
  have "list_all tidy_entry (kept @ map hook_entry ps)"
    using tk by (auto simp: list_all_iff tidy_entry_hook_entry)
  then have "tidy_groups
      (JArr (JObj (dict_set g0 ''hooks'' (JArr (kept @ map hook_entry ps))) # rest))"
    using tr by (simp add: tidy_groups_def tidy_group_def map_of_dict_set)
  then have "tidy_events (dict_set evs ev
          (JArr (JObj (dict_set g0 ''hooks'' (JArr (kept @ map hook_entry ps))) # rest)))"
    by (rule tidy_events_dict_set [OF assms(2)])
  with run show ?thesis by blast
qed

lemma merge_all_tidy:
  assumes "map_of obj ''hooks'' = Some (JObj evs)" and "tidy_events evs"
    and "\<forall>cfg \<in> set cfgs. \<exists>ps. snd cfg = map hook_entry ps"
  shows "\<exists>s'. merge_all (JObj obj) cfgs = Inr s' \<and> tidy_settings s'"
  using assms
proof (induction cfgs arbitrary: obj evs)
  case Nil
  then show ?case by (simp add: tidy_settings_def)
next
  case (Cons cfg cfgs)
  from Cons.prems(3) obtain ev ps where cfg: "cfg = (ev, map hook_entry ps)"
    by (cases cfg) auto
  from merge_event_tidy [OF Cons.prems(1,2), of ev ps] obtain evs' where
    m: "merge_event (JObj obj) (ev, map hook_entry ps)
          = Inr (JObj (dict_set obj ''hooks'' (JObj evs')))"
    and w: "tidy_events evs'" by (elim exE conjE)
  have l: "map_of (dict_set obj ''hooks'' (JObj evs')) ''hooks'' = Some (JObj evs')"
    by (simp add: map_of_dict_set)
  from Cons.prems(3) have r: "\<forall>cfg \<in> set cfgs. \<exists>ps. snd cfg = map hook_entry ps" by simp
  from Cons.IH [OF l w r] show ?case by (simp add: cfg m)
qed

lemma update_settings_tidy:
  assumes "tidy_settings s"
  shows "\<exists>s'. update_settings s ps = Inr s' \<and> tidy_settings s'"
proof -
  from assms obtain obj where s: "s = JObj obj"
    by (cases s) (simp_all add: tidy_settings_def)
  show ?thesis
  proof (cases "map_of obj ''hooks''")
    case None
    have l: "map_of (dict_set obj ''hooks'' (JObj [])) ''hooks'' = Some (JObj [])"
      by (simp add: map_of_dict_set)
    have w: "tidy_events []" by (simp add: tidy_events_def)
    from merge_all_tidy [OF l w hook_configs_entries [of ps]] None
    show ?thesis by (simp add: update_settings_def s)
  next
    case (Some h)
    with assms obtain evs where h: "h = JObj evs" and w: "tidy_events evs"
      by (cases h) (simp_all add: tidy_settings_def s)
    from Some h have l: "map_of obj ''hooks'' = Some (JObj evs)" by simp
    from merge_all_tidy [OF l w hook_configs_entries [of ps]] l
    show ?thesis by (simp add: update_settings_def s)
  qed
qed

lemma summary_hooks_tidy: "list_all tidy_entry es \<Longrightarrow> \<exists>out. summary_hooks es = Inr out"
proof (induction es)
  case Nil
  then show ?case by simp
next
  case (Cons h hs)
  from Cons.prems have th: "tidy_entry h" and r: "list_all tidy_entry hs" by simp_all
  from Cons.IH [OF r] obtain more where m: "summary_hooks hs = Inr more" by (elim exE)
  from th obtain kvs where h: "h = JObj kvs" by (cases h) (simp_all add: tidy_entry_def)
  from th h have "\<exists>c. (case map_of kvs ''command'' of None \<Rightarrow> JStr [] | Some x \<Rightarrow> x) = JStr c"
    by (auto simp: tidy_entry_def split: option.splits json.splits)
  then obtain c where c: "(case map_of kvs ''command'' of None \<Rightarrow> JStr [] | Some x \<Rightarrow> x) = JStr c"
    by (elim exE)
  have "\<exists>p. summary_hook h = Inr p" by (simp add: summary_hook_def h c)
  then obtain p where "summary_hook h = Inr p" by (elim exE)
  with m show ?case by simp
qed

lemma summary_groups_tidy: "list_all tidy_group gs \<Longrightarrow> \<exists>out. summary_groups gs = Inr out"
proof (induction gs)
  case Nil
  then show ?case by simp
next
  case (Cons g gs)
  from Cons.prems have tg: "tidy_group g" and r: "list_all tidy_group gs" by simp_all
  from Cons.IH [OF r] obtain more where m: "summary_groups gs = Inr more" by (elim exE)
  from tg obtain g0 where g: "g = JObj g0"
    and h: "case map_of g0 ''hooks'' of None \<Rightarrow> True | Some (JArr es) \<Rightarrow> list_all tidy_entry es
              | Some _ \<Rightarrow> False"
    by (cases g) (simp_all add: tidy_group_def)
  define es where "es = (case map_of g0 ''hooks'' of Some (JArr xs) \<Rightarrow> xs | _ \<Rightarrow> [])"
  from h have ha: "(case map_of g0 ''hooks'' of None \<Rightarrow> JArr [] | Some x \<Rightarrow> x) = JArr es"
    and te: "list_all tidy_entry es"
    by (auto simp: es_def split: option.splits json.splits)
  from summary_hooks_tidy [OF te] obtain p where "summary_hooks es = Inr p" by (elim exE)
  then have "summary_group g = Inr p" by (simp add: summary_group_def g ha)
  with m show ?case by simp
qed

lemma summary_events_tidy: "tidy_events evs \<Longrightarrow> \<exists>out. summary_events evs = Inr out"
proof (induction evs)
  case Nil
  then show ?case by simp
next
  case (Cons kv evs)
  obtain k v where kv: "kv = (k, v)" by (cases kv)
  from Cons.prems have tv: "tidy_groups v" and r: "tidy_events evs"
    by (simp_all add: tidy_events_def kv)
  from Cons.IH [OF r] obtain more where m: "summary_events evs = Inr more" by (elim exE)
  from tv obtain gs where v: "v = JArr gs" and tg: "list_all tidy_group gs"
    by (cases v) (simp_all add: tidy_groups_def)
  from summary_groups_tidy [OF tg] obtain p where "summary_groups gs = Inr p" by (elim exE)
  with m show ?case by (simp add: kv v)
qed

lemma display_summary_tidy: "tidy_settings s \<Longrightarrow> \<exists>out. display_summary s = Inr out"
proof -
  assume t: "tidy_settings s"
  then obtain obj where s: "s = JObj obj" by (cases s) (simp_all add: tidy_settings_def)
  show ?thesis
  proof (cases "map_of obj ''hooks''")
    case None
    then show ?thesis by (simp add: display_summary_def s)
  next
    case (Some h)
    with t obtain evs where h: "h = JObj evs" and w: "tidy_events evs"
      by (cases h) (simp_all add: tidy_settings_def s)
    from summary_events_tidy [OF w] obtain out where "summary_events evs = Inr out"
      by (elim exE)
    with Some h show ?thesis by (simp add: display_summary_def s)
  qed
qed

text \<open>A deployment that meets no failure of the file system, onto a tidy document.\<close>

lemma deploy_main_ok:
  assumes "mkdir_ok env" and "copy_ok env" and "write_ok env"
    and "get_hook_files env \<noteq> []"
    and "settings_json env = NoFile \<or> (\<exists>s. settings_json env = Loaded s \<and> tidy_settings s)"
  shows "\<exists>s'. deploy_main env = Exit 0 (Some s') \<and> tidy_settings s'"
proof -
  from assms(5) obtain s where l: "load_settings env = Inr s" and t: "tidy_settings s"
    by (auto simp: load_settings_def tidy_settings_def)
  from update_settings_tidy
    [OF t, of "map (\<lambda>name. claude_hooks_dir env @ ''/'' @ name) (get_hook_files env)"]
  obtain s' where
    u: "update_settings s (map (\<lambda>name. claude_hooks_dir env @ ''/'' @ name) (get_hook_files env))
          = Inr s'"
    and t': "tidy_settings s'" by (elim exE conjE)
  from display_summary_tidy [OF t'] obtain out where d: "display_summary s' = Inr out"
    by (elim exE)
  from assms(1-4) l u d t' show ?thesis
    by (simp add: deploy_main_def Let_def)
qed

subsection \<open>Exit status of the hooks\<close>

text \<open>No hook leaves with a status other than 0 by itself.\<close>

lemma npm_to_pnpm_status: "raised (npm_to_pnpm stdin) \<or> exit_status (npm_to_pnpm stdin) = 0"
  by (simp add: npm_to_pnpm_def split: option.splits sum.splits json.splits)

lemma grep_to_rg_status: "raised (grep_to_rg stdin) \<or> exit_status (grep_to_rg stdin) = 0"
  by (simp add: grep_to_rg_def split: option.splits sum.splits json.splits)

lemma command_tracker_status:
  "raised (command_tracker env stdin db) \<or> exit_status (command_tracker env stdin db) = 0"
  by (simp add: command_tracker_def Let_def split: option.splits sum.splits)

lemma session_tracker_status:
  "raised (session_tracker env stdin failure tool_rows db)
   \<or> exit_status (session_tracker env stdin failure tool_rows db) = 0"
  by (simp add: session_tracker_def Let_def split: option.splits)

lemma subagent_tracker_status:
  "raised (subagent_tracker env stdin db) \<or> exit_status (subagent_tracker env stdin db) = 0"
  by (simp add: subagent_tracker_def Let_def split: option.splits sum.splits)

lemma test_runner_status:
  "raised (test_runner env stdin) \<or> exit_status (test_runner env stdin) = 0"
  by (simp add: test_runner_def Let_def split: option.splits sum.splits prod.splits)

text \<open>A hook whose input is not JSON, or whose own store cannot be opened, ends with 1.\<close>

lemma command_tracker_no_store: "exit_status (command_tracker env stdin None) = 1"
  by (simp add: command_tracker_def Let_def split: option.splits sum.splits)

lemma session_tracker_no_store:
  "exit_status (session_tracker env stdin failure tool_rows None) = 1"
  by (simp add: session_tracker_def Let_def split: option.splits)

lemma subagent_tracker_no_store: "exit_status (subagent_tracker env stdin None) = 1"
  by (simp add: subagent_tracker_def Let_def split: option.splits sum.splits)

lemma command_tracker_no_input: "exit_status (command_tracker env None db) = 1"
  by (simp add: command_tracker_def)

lemma session_tracker_no_input:
  "exit_status (session_tracker env None failure tool_rows db) = 1"
  by (simp add: session_tracker_def)

lemma subagent_tracker_no_input: "exit_status (subagent_tracker env None db) = 1"
  by (simp add: subagent_tracker_def)

text \<open>The rewriters run to their end on an object that is not a shell call.\<close>

lemma rewriters_other_tool:
  assumes "py_get input_data ''tool_name'' JNull = Inr tool_name" and "tool_name \<noteq> JStr ''Bash''"
  shows "npm_to_pnpm (Some input_data) = Exit 0 None"
    and "grep_to_rg (Some input_data) = Exit 0 None"
  using assms by (simp_all add: npm_to_pnpm_def grep_to_rg_def)

lemma rewriters_bash:
  assumes "bash_command stdin = Some command"
  shows "\<exists>out. npm_to_pnpm stdin = Exit 0 out" and "\<exists>out. grep_to_rg stdin = Exit 0 out"
  by (simp_all add: npm_to_pnpm_bash [OF assms] grep_to_rg_bash [OF assms])

text \<open>The test runner runs to its end on every object, whatever the shell answers.\<close>

lemma test_cmd_nonempty:
  "test_files \<noteq> [] \<Longrightarrow> \<exists>cmd. test_cmd test_command test_files project_dir = Inr cmd"
  by (cases test_files) (simp_all add: test_cmd_def)

lemma test_runner_ends:
  assumes "py_get input_data ''tool_name'' (JStr []) = Inr tool_name"
  shows "\<exists>eff. test_runner env (Some input_data) = Exit 0 eff"
proof -
  have r: "run_tests sh tc fs d \<noteq> Inl e" if "fs \<noteq> []" for sh tc fs d e
    using test_cmd_nonempty [OF that, of tc d] by (auto simp: run_tests_def)
  show ?thesis
  proof (cases "classify (isfile env)
      (parse_file_paths (case CLAUDE_FILE_PATHS env of None \<Rightarrow> [] | Some v \<Rightarrow> v)) ([], None)")
    case (Pair test_files language)
    show ?thesis
    proof (cases "test_files = []")
      case True
      with Pair assms show ?thesis by (simp add: test_runner_def Let_def)
    next
      case False
      from r [OF False] Pair assms show ?thesis
        by (auto simp: test_runner_def Let_def split: option.splits sum.splits)
    qed
  qed
qed

text \<open>The Session Logger runs to its end whatever happens to its reading of the tool calls.\<close>

lemma session_tracker_ends:
  "makedirs_ok env \<Longrightarrow>
   \<exists>rows'. session_tracker env (Some input_data) failure tool_rows (Some rows) = Exit 0 rows'"
  by (simp add: session_tracker_def Let_def)

lemma subagent_tracker_ends:
  assumes "well_formed_subagent input_data" and "makedirs_ok env"
  shows "\<exists>rows'. subagent_tracker env (Some input_data) (Some rows) = Exit 0 rows'"
proof -
  from assms(1) obtain obj where obj: "input_data = JObj obj"
    by (cases input_data) (simp_all add: well_formed_subagent_def)
  define ty where "ty = (case map_of obj ''subagent_type'' of None \<Rightarrow> JStr ''unknown'' | Some v \<Rightarrow> v)"
  define su where "su = (case map_of obj ''summary'' of None \<Rightarrow> JStr [] | Some v \<Rightarrow> v)"
  define fm where "fm = (case map_of obj ''files_modified'' of None \<Rightarrow> JArr [] | Some v \<Rightarrow> v)"
  from assms(1) have ty: "storable ty" "ty \<noteq> JNull"
    by (auto simp: well_formed_subagent_def obj ty_def storable_def split: option.splits)
  from assms(1) have su: "storable su"
    by (auto simp: well_formed_subagent_def obj su_def storable_def split: option.splits)
  from assms(1) obtain xs where fm: "fm = JArr xs"
    by (auto simp: well_formed_subagent_def obj fm_def split: option.splits json.splits)
  from bind_storable [OF ty(1)] ty(2) obtain vt where vt: "bind ty = Inr vt" "vt \<noteq> Null"
    by auto
  from bind_storable [OF su] obtain vs where vs: "bind su = Inr vs" by (elim exE conjE)
  from text_column_Some [OF vt(2)] obtain t where t: "text_column vt = Some t" by (elim exE)
  have g: "py_get input_data ''subagent_type'' (JStr ''unknown'') = Inr ty"
    "py_get input_data ''summary'' (JStr []) = Inr su"
    "py_get input_data ''files_modified'' (JArr []) = Inr (JArr xs)"
    using fm by (simp_all add: obj ty_def su_def fm_def)
  show ?thesis
    using assms(2) by (simp add: subagent_tracker_def Let_def g vt vs t)
qed

text \<open>The deployer leaves with 1 by itself only when it has found no hooks.\<close>

lemma deploy_main_status:
  "exit_status (deploy_main env) = 0 \<or> raised (deploy_main env) \<or> get_hook_files env = []"
  by (simp add: deploy_main_def Let_def split: sum.splits)

lemma deploy_main_nothing:
  "mkdir_ok env \<Longrightarrow> get_hook_files env = [] \<Longrightarrow> deploy_main env = Exit 1 None"
  by (simp add: deploy_main_def)

subsection \<open>Claim on the exit status\<close>

text \<open>
  Claim C6, as stated, fails: a hook whose input is not a JSON document, or not an
  object, ends with an uncaught exception and so with status 1 (the rewriters and the
  test runner included); so does a logger whose own store cannot be opened, and the
  Subagent Logger on a \<open>files_modified\<close> that has no length. The deployer ends with
  status 1 although it has found a hook, when the settings file is not JSON.
\<close>

theorem exit_status_counterexample:
  "exit_status (npm_to_pnpm None) = 1
   \<and> exit_status (grep_to_rg (Some (JArr []))) = 1
   \<and> exit_status (test_runner (sample_env [] []) None) = 1
   \<and> exit_status (command_tracker session_S (Some edit_call) None) = 1
   \<and> exit_status (session_tracker session_S (Some edit_call) None [] None) = 1
   \<and> exit_status (subagent_tracker session_S (Some (JObj [(''files_modified'', JNum 3)]))
         (Some [])) = 1
   \<and> get_hook_files (first_deploy\<lparr>settings_json := NotJson\<rparr>) = [''grep-to-rg.py'']
   \<and> exit_status (deploy_main (first_deploy\<lparr>settings_json := NotJson\<rparr>)) = 1"
proof -
  have 1: "exit_status (npm_to_pnpm None) = 1" by (simp add: npm_to_pnpm_def)
  have 2: "exit_status (grep_to_rg (Some (JArr []))) = 1" by (simp add: grep_to_rg_def)
  have 3: "exit_status (test_runner (sample_env [] []) None) = 1"
    by (simp add: test_runner_def)
  have 4: "exit_status (command_tracker session_S (Some edit_call) None) = 1"
    by (rule command_tracker_no_store)
  have 5: "exit_status (session_tracker session_S (Some edit_call) None [] None) = 1"
    by (rule session_tracker_no_store)
  have 6: "exit_status (subagent_tracker session_S (Some (JObj [(''files_modified'', JNum 3)]))
         (Some [])) = 1"
    by (simp add: subagent_tracker_def session_S_def Let_def)
  have 7: "get_hook_files (first_deploy\<lparr>settings_json := NotJson\<rparr>) = [''grep-to-rg.py'']"
    by (simp add: get_hook_files_def first_deploy_def)
  have 8: "exit_status (deploy_main (first_deploy\<lparr>settings_json := NotJson\<rparr>)) = 1"
    unfolding deploy_main_def Let_def 7
    by (simp add: first_deploy_def load_settings_def)
  from 1 2 3 4 5 6 7 8 show ?thesis by (intro conjI)
qed

text \<open>
  Claim C6, amended. No hook leaves with a status other than 0 by itself: a run either
  reaches its end, with status 0, or is ended by an uncaught exception, with status 1.
  The rewriters reach their end on every shell call whose command is a string and on
  every object that is not a shell call; the Test Runner on every object, whatever the
  shell answers; the Tool-Call Logger and the Subagent Logger on every well-formed
  input when their store opens; the Session Logger on every JSON input when its store
  opens, whatever happens to its reading of the tool calls. Input that is not JSON ends
  every hook with status 1, and a store that cannot be opened ends its logger with
  status 1. The deployer leaves with status 1 by itself only when it has found no hooks,
  which it does whenever it has found none; it ends with status 0 when the file system
  fails nowhere, there are hooks, and the settings file is absent or tidy.
\<close>

theorem exit_status_amended:
  "(raised (npm_to_pnpm stdin) \<or> exit_status (npm_to_pnpm stdin) = 0)
   \<and> (raised (grep_to_rg stdin) \<or> exit_status (grep_to_rg stdin) = 0)
   \<and> (raised (test_runner renv stdin) \<or> exit_status (test_runner renv stdin) = 0)
   \<and> (raised (command_tracker env stdin db) \<or> exit_status (command_tracker env stdin db) = 0)
   \<and> (raised (session_tracker env stdin failure tool_rows sdb)
        \<or> exit_status (session_tracker env stdin failure tool_rows sdb) = 0)
   \<and> (raised (subagent_tracker env stdin adb)
        \<or> exit_status (subagent_tracker env stdin adb) = 0)
   \<and> (bash_command shell_call = Some command \<longrightarrow>
         (\<exists>out. npm_to_pnpm shell_call = Exit 0 out)
         \<and> (\<exists>out. grep_to_rg shell_call = Exit 0 out))
   \<and> (py_get other ''tool_name'' JNull = Inr other_name \<and> other_name \<noteq> JStr ''Bash'' \<longrightarrow>
         npm_to_pnpm (Some other) = Exit 0 None \<and> grep_to_rg (Some other) = Exit 0 None)
   \<and> (py_get edit ''tool_name'' (JStr []) = Inr edit_name \<longrightarrow>
         (\<exists>eff. test_runner renv (Some edit) = Exit 0 eff))
   \<and> (makedirs_ok env \<and> well_formed_call call \<longrightarrow>
         (\<exists>rows'. command_tracker env (Some call) (Some rows) = Exit 0 rows'))
   \<and> (makedirs_ok env \<longrightarrow>
         (\<exists>rows'. session_tracker env (Some closing) failure tool_rows (Some srows)
                     = Exit 0 rows'))
   \<and> (makedirs_ok env \<and> well_formed_subagent sub \<longrightarrow>
         (\<exists>rows'. subagent_tracker env (Some sub) (Some arows) = Exit 0 rows'))
   \<and> exit_status (npm_to_pnpm None) = 1
   \<and> exit_status (grep_to_rg None) = 1
   \<and> exit_status (test_runner renv None) = 1
   \<and> exit_status (command_tracker env None db) = 1
   \<and> exit_status (session_tracker env None failure tool_rows sdb) = 1
   \<and> exit_status (subagent_tracker env None adb) = 1
   \<and> exit_status (command_tracker env stdin None) = 1
   \<and> exit_status (session_tracker env stdin failure tool_rows None) = 1
   \<and> exit_status (subagent_tracker env stdin None) = 1
   \<and> (exit_status (deploy_main denv) = 0 \<or> raised (deploy_main denv)
        \<or> get_hook_files denv = [])
   \<and> (mkdir_ok nothing \<and> get_hook_files nothing = [] \<longrightarrow> deploy_main nothing = Exit 1 None)
   \<and> (mkdir_ok denv \<and> copy_ok denv \<and> write_ok denv \<and> get_hook_files denv \<noteq> []
        \<and> (settings_json denv = NoFile
            \<or> (\<exists>settings. settings_json denv = Loaded settings \<and> tidy_settings settings))
        \<longrightarrow> (\<exists>settings'. deploy_main denv = Exit 0 (Some settings')))"
proof (intro conjI impI)
  show "raised (npm_to_pnpm stdin) \<or> exit_status (npm_to_pnpm stdin) = 0"
    by (rule npm_to_pnpm_status)
  show "raised (grep_to_rg stdin) \<or> exit_status (grep_to_rg stdin) = 0"
    by (rule grep_to_rg_status)
  show "raised (test_runner renv stdin) \<or> exit_status (test_runner renv stdin) = 0"
    by (rule test_runner_status)
  show "raised (command_tracker env stdin db) \<or> exit_status (command_tracker env stdin db) = 0"
    by (rule command_tracker_status)
  show "raised (session_tracker env stdin failure tool_rows sdb)
        \<or> exit_status (session_tracker env stdin failure tool_rows sdb) = 0"
    by (rule session_tracker_status)
  show "raised (subagent_tracker env stdin adb)
        \<or> exit_status (subagent_tracker env stdin adb) = 0"
    by (rule subagent_tracker_status)
  show "\<exists>out. npm_to_pnpm shell_call = Exit 0 out" if "bash_command shell_call = Some command"
    using that by (rule rewriters_bash(1))
  show "\<exists>out. grep_to_rg shell_call = Exit 0 out" if "bash_command shell_call = Some command"
    using that by (rule rewriters_bash(2))
  show "npm_to_pnpm (Some other) = Exit 0 None"
    if "py_get other ''tool_name'' JNull = Inr other_name \<and> other_name \<noteq> JStr ''Bash''"
    using that by (auto intro: rewriters_other_tool(1))
  show "grep_to_rg (Some other) = Exit 0 None"
    if "py_get other ''tool_name'' JNull = Inr other_name \<and> other_name \<noteq> JStr ''Bash''"
    using that by (auto intro: rewriters_other_tool(2))
  show "\<exists>eff. test_runner renv (Some edit) = Exit 0 eff"
    if "py_get edit ''tool_name'' (JStr []) = Inr edit_name"
    using that by (rule test_runner_ends)
  show "\<exists>rows'. command_tracker env (Some call) (Some rows) = Exit 0 rows'"
    if "makedirs_ok env \<and> well_formed_call call"
  proof -
    from that have w: "well_formed_call call" and m: "makedirs_ok env" by simp_all
    from command_tracker_inserts [OF w m, of rows] obtain row where
      "command_tracker env (Some call) (Some rows) = Exit 0 (rows @ [row])"
      by (elim exE conjE)
    then show ?thesis by (rule exI)
  qed
  show "\<exists>rows'. session_tracker env (Some closing) failure tool_rows (Some srows) = Exit 0 rows'"
    if "makedirs_ok env"
    using that by (rule session_tracker_ends)
  show "\<exists>rows'. subagent_tracker env (Some sub) (Some arows) = Exit 0 rows'"
    if "makedirs_ok env \<and> well_formed_subagent sub"
    using that by (auto intro: subagent_tracker_ends)
  show "exit_status (npm_to_pnpm None) = 1" by (simp add: npm_to_pnpm_def)
  show "exit_status (grep_to_rg None) = 1" by (simp add: grep_to_rg_def)
  show "exit_status (test_runner renv None) = 1" by (simp add: test_runner_def)
  show "exit_status (command_tracker env None db) = 1" by (rule command_tracker_no_input)
  show "exit_status (session_tracker env None failure tool_rows sdb) = 1"
    by (rule session_tracker_no_input)
  show "exit_status (subagent_tracker env None adb) = 1" by (rule subagent_tracker_no_input)
  show "exit_status (command_tracker env stdin None) = 1" by (rule command_tracker_no_store)
  show "exit_status (session_tracker env stdin failure tool_rows None) = 1"
    by (rule session_tracker_no_store)
  show "exit_status (subagent_tracker env stdin None) = 1" by (rule subagent_tracker_no_store)
  show "exit_status (deploy_main denv) = 0 \<or> raised (deploy_main denv)
        \<or> get_hook_files denv = []"
    by (rule deploy_main_status)
  show "deploy_main nothing = Exit 1 None"
    if "mkdir_ok nothing \<and> get_hook_files nothing = []"
    using that by (simp add: deploy_main_nothing)
  show "\<exists>settings'. deploy_main denv = Exit 0 (Some settings')"
    if "mkdir_ok denv \<and> copy_ok denv \<and> write_ok denv \<and> get_hook_files denv \<noteq> []
        \<and> (settings_json denv = NoFile
            \<or> (\<exists>settings. settings_json denv = Loaded settings \<and> tidy_settings settings))"
  proof -
    from that have 1: "mkdir_ok denv" and 2: "copy_ok denv" and 3: "write_ok denv"
      and 4: "get_hook_files denv \<noteq> []"
      and 5: "settings_json denv = NoFile
            \<or> (\<exists>settings. settings_json denv = Loaded settings \<and> tidy_settings settings)"
      by simp_all
    from deploy_main_ok [OF 1 2 3 4 5] obtain s' where "deploy_main denv = Exit 0 (Some s')"
      by (elim exE conjE)
    then show ?thesis by (rule exI)
  qed
qed

theorem exit_status_amended_witness:
  "bash_command (bash_input ''npm test'') = Some ''npm test''
   \<and> (\<exists>out. npm_to_pnpm (bash_input ''npm test'') = Exit 0 out)
   \<and> (\<exists>out. grep_to_rg (bash_input ''npm test'') = Exit 0 out)
   \<and> py_get edit_input ''tool_name'' JNull = Inr (JStr ''Edit'')
   \<and> npm_to_pnpm (Some edit_input) = Exit 0 None
   \<and> grep_to_rg (Some edit_input) = Exit 0 None
   \<and> (\<exists>eff. test_runner
          ((sample_env ''tests/test_a.py'' [''/proj/pytest.ini''])
             \<lparr>shell := \<lambda>cmd. TimeoutExpired\<rparr>)
          (Some edit_input) = Exit 0 eff)
   \<and> makedirs_ok session_S \<and> well_formed_call edit_call
   \<and> (\<exists>rows'. command_tracker session_S (Some edit_call) (Some []) = Exit 0 rows')
   \<and> (\<exists>rows'. session_tracker session_S (Some JNull) (Some 0) [] (Some []) = Exit 0 rows')
   \<and> well_formed_subagent (JObj [(''subagent_type'', JStr ''explorer'')])
   \<and> (\<exists>rows'. subagent_tracker session_S
          (Some (JObj [(''subagent_type'', JStr ''explorer'')])) (Some []) = Exit 0 rows')
   \<and> mkdir_ok empty_deploy \<and> get_hook_files empty_deploy = []
   \<and> deploy_main empty_deploy = Exit 1 None
   \<and> mkdir_ok first_deploy \<and> copy_ok first_deploy \<and> write_ok first_deploy
   \<and> get_hook_files first_deploy = [''grep-to-rg.py'']
   \<and> settings_json first_deploy = NoFile
   \<and> (\<exists>settings'. deploy_main first_deploy = Exit 0 (Some settings'))"
proof -
  let ?renv = "(sample_env ''tests/test_a.py'' [''/proj/pytest.ini''])
                 \<lparr>shell := \<lambda>cmd. TimeoutExpired\<rparr>"
  let ?sub = "JObj [(''subagent_type'', JStr ''explorer'')]"
  have h1: "bash_command (bash_input ''npm test'') = Some ''npm test''"
    by (simp add: bash_command_def bash_input_def)
  have h2: "py_get edit_input ''tool_name'' JNull = Inr (JStr ''Edit'')"
    by (simp add: edit_input_def)
  have h2': "JStr ''Edit'' \<noteq> JStr ''Bash''" by simp
  have h3: "py_get edit_input ''tool_name'' (JStr []) = Inr (JStr ''Edit'')"
    by (simp add: edit_input_def)
  have h4: "makedirs_ok session_S" by (simp add: session_S_def)
  have h5: "well_formed_call edit_call"
    by (simp add: well_formed_call_def edit_call_def scalar_field_def storable_def)
  have h6: "well_formed_subagent ?sub" by (simp add: well_formed_subagent_def storable_def)
  have h7: "mkdir_ok empty_deploy" "get_hook_files empty_deploy = []"
    by (simp_all add: empty_deploy_def get_hook_files_def)
  have h8: "mkdir_ok first_deploy" "copy_ok first_deploy" "write_ok first_deploy"
    "get_hook_files first_deploy = [''grep-to-rg.py'']" "settings_json first_deploy = NoFile"
    by (simp_all add: first_deploy_def get_hook_files_def)
  note t = exit_status_amended [where shell_call = "bash_input ''npm test''"
      and command = "''npm test''" and other = edit_input and other_name = "JStr ''Edit''"
      and edit = edit_input and edit_name = "JStr ''Edit''" and renv = ?renv
      and env = session_S and call = edit_call and rows = "[]"
      and closing = JNull and failure = "Some 0" and tool_rows = "[]" and srows = "[]"
      and sub = ?sub and arows = "[]" and nothing = empty_deploy and denv = first_deploy]
  have h9: "get_hook_files first_deploy \<noteq> []" by (simp add: h8(4))
  show ?thesis
    using t h1 h2 h2' h3 h4 h5 h6 h7 h8 h9 by simp
qed

end
